(* ===== verification/Prelude.thy ===== *)
theory Prelude
  imports Main "HOL-Library.AList" "HOL-Library.Monad_Syntax" "HOL-Library.Word"
begin

text \<open>
  Shared vocabulary of the development: Rust's unsigned integers as natural numbers with
  every arithmetic operation of the source written out at its width (saturating, checked, or
  panicking on overflow, since \<^verbatim>\<open>Cargo.toml\<close> sets \<^verbatim>\<open>overflow-checks\<close>), hash maps as
  association lists, little-endian encodings, and the reading of the option monad used
  throughout: \<open>None\<close> is a panic, \<open>Some (v, s)\<close> is a call that returns \<open>v\<close> in state \<open>s\<close>.
\<close>

section \<open>Collections of simplification rules\<close>

named_theorems u64_defs \<open>definitions of the 64-bit operations\<close>
named_theorems runtime_elims \<open>inversion of monadic calls that returned\<close>
named_theorems post_rules \<open>verification conditions of monadic calls\<close>

section \<open>Unsigned integers\<close>

type_synonym u8 = nat
type_synonym u32 = nat
type_synonym u64 = nat
type_synonym u128 = nat
type_synonym usize = nat
type_synonym byte = "8 word"
type_synonym bytes = "byte list"

text \<open>A 32-byte array: a public address or a SHA-256 hash.\<close>

type_synonym public_address = "256 word"
type_synonym sha256_hash = "256 word"

definition U64_MAX :: u64 where
  "U64_MAX = 18446744073709551615"

definition U128_MAX :: u128 where
  "U128_MAX = 340282366920938463463374607431768211455"

definition U32_MAX :: u32 where
  "U32_MAX = 4294967295"

definition saturating_add :: "u64 \<Rightarrow> u64 \<Rightarrow> u64" where
  "saturating_add a b = min (a + b) U64_MAX"

definition saturating_sub :: "u64 \<Rightarrow> u64 \<Rightarrow> u64" where
  "saturating_sub a b = a - b"

definition saturating_mul :: "u64 \<Rightarrow> u64 \<Rightarrow> u64" where
  "saturating_mul a b = min (a * b) U64_MAX"

definition saturating_div :: "u64 \<Rightarrow> u64 \<Rightarrow> u64" where
  "saturating_div a b = a div b"

definition checked_add :: "u64 \<Rightarrow> u64 \<Rightarrow> u64 option" where
  "checked_add a b = (if a + b \<le> U64_MAX then Some (a + b) else None)"

definition checked_mul :: "u64 \<Rightarrow> u64 \<Rightarrow> u64 option" where
  "checked_mul a b = (if a * b \<le> U64_MAX then Some (a * b) else None)"

definition checked_sub :: "u64 \<Rightarrow> u64 \<Rightarrow> u64 option" where
  "checked_sub a b = (if b \<le> a then Some (a - b) else None)"

text \<open>The plain operators of the source: they panic on overflow, so \<open>None\<close> is a panic.\<close>

abbreviation add_u64 :: "u64 \<Rightarrow> u64 \<Rightarrow> u64 option" where
  "add_u64 \<equiv> checked_add"

abbreviation mul_u64 :: "u64 \<Rightarrow> u64 \<Rightarrow> u64 option" where
  "mul_u64 \<equiv> checked_mul"

abbreviation sub_u64 :: "u64 \<Rightarrow> u64 \<Rightarrow> u64 option" where
  "sub_u64 \<equiv> checked_sub"

definition mul_u128 :: "u128 \<Rightarrow> u128 \<Rightarrow> u128 option" where
  "mul_u128 a b = (if a * b \<le> U128_MAX then Some (a * b) else None)"

text \<open>Division panics on a zero divisor; \<open>as u64\<close> truncates.\<close>

definition div_u :: "nat \<Rightarrow> nat \<Rightarrow> nat option" where
  "div_u a b = (if b = 0 then None else Some (a div b))"

definition as_u64 :: "nat \<Rightarrow> u64" where
  "as_u64 a = a mod 2 ^ 64"

lemmas sat_defs = saturating_add_def saturating_sub_def saturating_mul_def saturating_div_def
lemmas checked_defs = checked_add_def checked_mul_def checked_sub_def

declare sat_defs [u64_defs] and checked_defs [u64_defs]

lemma checked_Some:
  "checked_add a b = Some c \<longleftrightarrow> c = a + b \<and> a + b \<le> U64_MAX"
  "checked_mul a b = Some c \<longleftrightarrow> c = a * b \<and> a * b \<le> U64_MAX"
  "checked_sub a b = Some c \<longleftrightarrow> c = a - b \<and> b \<le> a"
  "div_u a b = Some c \<longleftrightarrow> c = a div b \<and> b \<noteq> 0"
  by (auto simp: checked_defs div_u_def)

lemma saturating_add_le_max [simp]: "saturating_add a b \<le> U64_MAX"
  by (simp add: saturating_add_def)

lemma saturating_mul_le_max [simp]: "saturating_mul a b \<le> U64_MAX"
  by (simp add: saturating_mul_def)

lemma saturating_add_exact: "a + b \<le> U64_MAX \<Longrightarrow> saturating_add a b = a + b"
  by (simp add: saturating_add_def)

lemma saturating_add_commute: "saturating_add a b = saturating_add b a"
  by (simp add: saturating_add_def add.commute)

lemma saturating_add_assoc:
  "saturating_add (saturating_add a b) c = saturating_add a (saturating_add b c)"
  by (auto simp: saturating_add_def min_def)

lemma saturating_add_mono: "a \<le> a' \<Longrightarrow> b \<le> b' \<Longrightarrow> saturating_add a b \<le> saturating_add a' b'"
  by (auto simp: saturating_add_def min_def)

lemma saturating_add_0 [simp]: "a \<le> U64_MAX \<Longrightarrow> saturating_add a 0 = a"
    "a \<le> U64_MAX \<Longrightarrow> saturating_add 0 a = a"
  by (simp_all add: saturating_add_def)

lemma saturating_add_ge: "a \<le> U64_MAX \<Longrightarrow> a \<le> saturating_add a b"
  by (simp add: saturating_add_def)

lemma saturating_sub_le [simp]: "saturating_sub a b \<le> a"
  by (simp add: saturating_sub_def)

section \<open>Hash maps\<close>

text \<open>
  \<^verbatim>\<open>std::collections::HashMap\<close>: an association list with distinct keys. The order of the list
  is the iteration order, which Rust leaves unspecified; the commit lemmas show that it does
  not matter.
\<close>

type_synonym ('k, 'v) hash_map = "('k \<times> 'v) list"

definition keys_distinct :: "('k, 'v) hash_map \<Rightarrow> bool" where
  "keys_distinct m \<longleftrightarrow> distinct (map fst m)"

lemma keys_distinct_Nil [simp]: "keys_distinct []"
  by (simp add: keys_distinct_def)

lemma keys_distinct_Cons [simp]:
  "keys_distinct ((k, v) # m) \<longleftrightarrow> map_of m k = None \<and> keys_distinct m"
  by (auto simp: keys_distinct_def map_of_eq_None_iff)

lemma keys_distinct_update [simp]: "keys_distinct m \<Longrightarrow> keys_distinct (AList.update k v m)"
  by (simp add: keys_distinct_def distinct_update)

lemma keys_distinct_delete [simp]: "keys_distinct m \<Longrightarrow> keys_distinct (AList.delete k m)"
  by (simp add: keys_distinct_def distinct_delete)

lemma map_of_AList_update [simp]: "map_of (AList.update k v m) = (map_of m)(k \<mapsto> v)"
  by (rule update_conv')

lemma map_of_AList_delete [simp]: "map_of (AList.delete k m) = (map_of m)(k := None)"
  by (rule delete_conv')

section \<open>Panics\<close>

lemma bind_None_iff: "m \<bind> f = None \<longleftrightarrow> (\<forall>x. m = Some x \<longrightarrow> f x = None)"
  by (cases m) auto

lemmas bind_convs = bind_eq_Some_conv bind_None_iff

lemma bind_SomeE [runtime_elims]:
  assumes "m \<bind> f = Some y"
  obtains x where "m = Some x" and "f x = Some y"
  using assms by (cases m) auto

lemma bind_pairE:
  assumes "m \<bind> (\<lambda>(a, b). f a b) = Some y"
  obtains a b where "m = Some (a, b)" and "f a b = Some y"
  using assms by (auto simp: bind_eq_Some_conv)

text \<open>
  Evaluation: these congruences let the simplifier evaluate a body front to back, without entering
  the continuations before their argument is known.
\<close>

lemma bind_weak_cong: "m = m' \<Longrightarrow> Option.bind m f = Option.bind m' f"
  by simp

lemma let_weak_cong: "a = b \<Longrightarrow> Let a f = Let b f"
  by simp

lemmas eval_congs = bind_weak_cong let_weak_cong option.case_cong_weak

text \<open>
  \<open>post m Q\<close>: if \<open>m\<close> returns, its value satisfies \<open>Q\<close>. The rules below take a monadic body apart
  from the front; the components add one rule per operation.
\<close>

definition post :: "'a option \<Rightarrow> ('a \<Rightarrow> bool) \<Rightarrow> bool" where
  "post m Q \<longleftrightarrow> (\<forall>x. m = Some x \<longrightarrow> Q x)"

lemma postD: "post m Q \<Longrightarrow> m = Some x \<Longrightarrow> Q x"
  by (simp add: post_def)

lemma postI: "(\<And>x. m = Some x \<Longrightarrow> Q x) \<Longrightarrow> post m Q"
  by (simp add: post_def)

lemma post_mono: "post m P \<Longrightarrow> (\<And>x. P x \<Longrightarrow> Q x) \<Longrightarrow> post m Q"
  by (simp add: post_def)

lemma post_pair [post_rules]: "post (f a b) Q \<Longrightarrow> post (case (a, b) of (x, y) \<Rightarrow> f x y) Q"
  by simp

lemma post_bind [post_rules]: "post m (\<lambda>x. post (f x) Q) \<Longrightarrow> post (m \<bind> f) Q"
  by (auto simp: post_def bind_eq_Some_conv)

lemma post_Some [post_rules]: "Q x \<Longrightarrow> post (Some x) Q"
  by (simp add: post_def)

lemma post_None [post_rules]: "post None Q"
  by (simp add: post_def)

lemma post_let [post_rules]: "post (f x) Q \<Longrightarrow> post (Let x f) Q"
  by simp

lemma post_if [post_rules]:
  "(b \<Longrightarrow> post m Q) \<Longrightarrow> (\<not> b \<Longrightarrow> post n Q) \<Longrightarrow> post (if b then m else n) Q"
  by simp

lemma post_case_option [post_rules]:
  "(x = None \<Longrightarrow> post m Q) \<Longrightarrow> (\<And>v. x = Some v \<Longrightarrow> post (f v) Q) \<Longrightarrow>
   post (case x of None \<Rightarrow> m | Some v \<Rightarrow> f v) Q"
  by (cases x) simp_all

lemma post_case_sum [post_rules]:
  "(\<And>v. x = Inl v \<Longrightarrow> post (f v) Q) \<Longrightarrow> (\<And>v. x = Inr v \<Longrightarrow> post (h v) Q) \<Longrightarrow>
   post (case x of Inl v \<Rightarrow> f v | Inr v \<Rightarrow> h v) Q"
  by (cases x) simp_all

lemma post_case_prod [post_rules]:
  "(\<And>a b. x = (a, b) \<Longrightarrow> post (f a b) Q) \<Longrightarrow> post (case x of (a, b) \<Rightarrow> f a b) Q"
  by (cases x) simp

section \<open>Little-endian encodings\<close>

fun to_le_bytes :: "nat \<Rightarrow> nat \<Rightarrow> bytes" where
  "to_le_bytes 0 x = []"
| "to_le_bytes (Suc n) x = word_of_nat (x mod 256) # to_le_bytes n (x div 256)"

fun from_le_bytes :: "bytes \<Rightarrow> nat" where
  "from_le_bytes [] = 0"
| "from_le_bytes (b # bs) = unat b + 256 * from_le_bytes bs"

lemma length_to_le_bytes [simp]: "length (to_le_bytes n x) = n"
  by (induction n arbitrary: x) auto

lemma from_to_le_bytes: "from_le_bytes (to_le_bytes n x) = x mod 256 ^ n"
proof (induction n arbitrary: x)
  case 0
  then show ?case by simp
next
  case (Suc n)
  have "unat (word_of_nat (x mod 256) :: byte) = x mod 256"
    by (simp add: unat_of_nat)
  then show ?case
    using Suc by (simp add: mod_mult2_eq)
qed

lemma from_to_le_bytes_exact: "x < 256 ^ n \<Longrightarrow> from_le_bytes (to_le_bytes n x) = x"
  by (simp add: from_to_le_bytes)

lemma unat_byte_less: "unat (b :: byte) < 256"
  using unsigned_less[of b] by simp

lemma to_from_le_bytes: "length bs = n \<Longrightarrow> to_le_bytes n (from_le_bytes bs) = bs"
proof (induction bs arbitrary: n)
  case Nil
  then show ?case by simp
next
  case (Cons b bs)
  have lt: "unat b < 256"
    by (rule unat_byte_less)
  have "(unat b + 256 * from_le_bytes bs) div 256 = from_le_bytes bs"
    using lt by simp
  moreover have "(unat b + 256 * from_le_bytes bs) mod 256 = unat b"
    using lt by simp
  ultimately show ?case
    using Cons by auto
qed

end
