(* ===== verification/Runtime_Types.thy ===== *)
theory Runtime_Types
  imports Prelude
begin

text \<open>
  The data of the runtime: \<^verbatim>\<open>src/types.rs\<close> (block parameters, transaction metadata, command
  kinds, deferred commands, command outputs), \<^verbatim>\<open>src/error.rs\<close> (transition errors and their
  exit codes) and the data of \<^verbatim>\<open>pchain_types\<close> that the source builds and matches on
  (commands, logs, receipts). A field the source never reads is not kept.
\<close>

section \<open>Blockchain parameters\<close>

record block_proposal_stats =
  num_of_proposed_blocks :: u32

record validator_performance =
  blocks_per_epoch :: u32
  vp_stats :: "(public_address, block_proposal_stats) hash_map"

record blockchain_params =
  this_block_number :: u64
  prev_block_hash :: sha256_hash
  this_base_fee :: u64
  bp_timestamp :: u32
  random_bytes :: sha256_hash
  proposer_address :: public_address
  treasury_address :: public_address
  cur_view :: u64
  bp_validator_performance :: "validator_performance option"

section \<open>Commands\<close>

datatype command =
    Transfer public_address u64
  | Deploy bytes u32
  | Call public_address string "bytes list option" "u64 option"
  | CreatePool u8
  | SetPoolSettings u8
  | DeletePool
  | CreateDeposit public_address u64 bool
  | SetDepositSettings public_address bool
  | TopUpDeposit public_address u64
  | WithdrawDeposit public_address u64
  | StakeDeposit public_address u64
  | UnstakeDeposit public_address u64
  | NextEpoch

datatype command_kind =
    KTransfer | KDeploy | KCall | KCreatePool | KSetPoolSettings | KDeletePool
  | KCreateDeposit | KSetDepositSettings | KTopUpDeposit | KWithdrawDeposit
  | KStakeDeposit | KUnstakeDeposit | KNextEpoch

fun command_kind_of :: "command \<Rightarrow> command_kind" where
  "command_kind_of (Transfer _ _) = KTransfer"
| "command_kind_of (Deploy _ _) = KDeploy"
| "command_kind_of (Call _ _ _ _) = KCall"
| "command_kind_of (CreatePool _) = KCreatePool"
| "command_kind_of (SetPoolSettings _) = KSetPoolSettings"
| "command_kind_of DeletePool = KDeletePool"
| "command_kind_of (CreateDeposit _ _ _) = KCreateDeposit"
| "command_kind_of (SetDepositSettings _ _) = KSetDepositSettings"
| "command_kind_of (TopUpDeposit _ _) = KTopUpDeposit"
| "command_kind_of (WithdrawDeposit _ _) = KWithdrawDeposit"
| "command_kind_of (StakeDeposit _ _) = KStakeDeposit"
| "command_kind_of (UnstakeDeposit _ _) = KUnstakeDeposit"
| "command_kind_of NextEpoch = KNextEpoch"

record deferred_command =
  contract_address :: public_address
  dc_command :: command

section \<open>Transactions\<close>

datatype txn_version = V1 | V2

text \<open>
  The fields of \<^verbatim>\<open>TransactionV1\<close> and \<^verbatim>\<open>TransactionV2\<close> that the runtime reads. The length of the
  transaction's Borsh serialization is computed by \<^verbatim>\<open>pchain_types\<close>; the model carries it as a
  field of the transaction.
\<close>

record transaction =
  tx_signer :: public_address
  tx_nonce :: u64
  tx_commands :: "command list"
  tx_gas_limit :: u64
  tx_priority_fee_per_gas :: u64
  tx_hash :: sha256_hash
  tx_serialized_len :: usize

record txn_metadata =
  version :: txn_version
  command_kinds :: "command_kind list"
  signer :: public_address
  txn_hash :: sha256_hash
  nonce :: u64
  gas_limit :: u64
  priority_fee_per_gas :: u64
  txn_size :: usize

definition txn_metadata_of :: "txn_version \<Rightarrow> transaction \<Rightarrow> txn_metadata" where
  "txn_metadata_of ver tx =
     \<lparr> version = ver,
       command_kinds = map command_kind_of (tx_commands tx),
       signer = tx_signer tx,
       txn_hash = tx_hash tx,
       nonce = tx_nonce tx,
       gas_limit = tx_gas_limit tx,
       priority_fee_per_gas = tx_priority_fee_per_gas tx,
       txn_size = tx_serialized_len tx \<rparr>"

definition txn_metadata_from_v1 :: "transaction \<Rightarrow> txn_metadata" where
  "txn_metadata_from_v1 = txn_metadata_of V1"

definition txn_metadata_from_v2 :: "transaction \<Rightarrow> txn_metadata" where
  "txn_metadata_from_v2 = txn_metadata_of V2"

record call_tx =
  base_tx :: txn_metadata
  ct_target :: public_address
  ct_method :: string
  ct_arguments :: "bytes list option"
  ct_amount :: "u64 option"

section \<open>Errors and exit codes\<close>

datatype transition_error =
    FailedWorldStateUpgrade | WrongNonce | NotEnoughBalanceForGasLimit
  | NotEnoughBalanceForTransfer | PreExecutionGasExhausted | DisallowedOpcode | CannotCompile
  | NoExportedContractMethod | OtherDeployError | ContractAlreadyExists | NoContractcode
  | InvalidCBI | ExecutionProperGasExhausted | RuntimeError
  | InternalExecutionProperGasExhaustion | InternalRuntimeError | PoolAlreadyExists
  | PoolNotExists | PoolHasNoStakes | InvalidPoolPolicy | DepositsAlreadyExists
  | DepositsNotExists | InvalidDepositPolicy | InvalidStakeAmount | InvalidCommands
  | InvalidNextEpochCommand

text \<open>
  \<open>MCE_Runtime\<close> carries the outcome of \<^verbatim>\<open>RuntimeError::downcast::<FuncError>\<close>: \<open>Some e\<close> when the trap
  was raised by a host function that returned the error \<open>e\<close>.
\<close>

datatype func_error =
    FE_Internal | FE_Runtime | FE_GasExhaustionError | FE_MethodCallError method_call_error
  | FE_ContractNotFound | FE_InsufficientBalance
and method_call_error =
    MCE_Runtime "func_error option" | MCE_GasExhaustion | MCE_NoExportedMethod

fun transition_error_of :: "method_call_error \<Rightarrow> transition_error" where
  "transition_error_of MCE_GasExhaustion = ExecutionProperGasExhausted"
| "transition_error_of MCE_NoExportedMethod = RuntimeError"
| "transition_error_of (MCE_Runtime None) = RuntimeError"
| "transition_error_of (MCE_Runtime (Some FE_GasExhaustionError)) = ExecutionProperGasExhausted"
| "transition_error_of (MCE_Runtime (Some _)) = InternalRuntimeError"

datatype exit_code_v1 = Success_V1 | Failed_V1 | GasExhausted_V1

datatype exit_code_v2 = Ok_V2 | Error_V2 | GasExhausted_V2 | NotExecuted_V2

definition exit_code_v1_of :: "transition_error \<Rightarrow> exit_code_v1" where
  "exit_code_v1_of e =
     (if e = ExecutionProperGasExhausted \<or> e = InternalExecutionProperGasExhaustion
      then GasExhausted_V1 else Failed_V1)"

definition exit_code_v2_of :: "transition_error \<Rightarrow> exit_code_v2" where
  "exit_code_v2_of e =
     (if e = ExecutionProperGasExhausted \<or> e = InternalExecutionProperGasExhaustion
      then GasExhausted_V2 else Error_V2)"

text \<open>\<^verbatim>\<open>Result<(), TransitionError>\<close>: \<open>Inl\<close> is \<^verbatim>\<open>Err\<close>.\<close>

type_synonym cmd_result = "transition_error + unit"

abbreviation Ok :: cmd_result where
  "Ok \<equiv> Inr ()"

section \<open>Command outputs and receipts\<close>

record log =
  log_topic :: bytes
  log_value :: bytes

record command_output =
  co_logs :: "log list"
  co_return_value :: bytes
  co_amount_withdrawn :: u64
  co_amount_staked :: u64
  co_amount_unstaked :: u64

record command_receipt_v1 =
  r1_exit_code :: exit_code_v1
  r1_gas_used :: u64
  r1_return_values :: bytes
  r1_logs :: "log list"

datatype command_receipt_v2 =
    R_Transfer exit_code_v2 u64
  | R_Deploy exit_code_v2 u64
  | R_Call exit_code_v2 u64 "log list" bytes
  | R_CreatePool exit_code_v2 u64
  | R_SetPoolSettings exit_code_v2 u64
  | R_DeletePool exit_code_v2 u64
  | R_CreateDeposit exit_code_v2 u64
  | R_SetDepositSettings exit_code_v2 u64
  | R_TopUpDeposit exit_code_v2 u64
  | R_WithdrawDeposit exit_code_v2 u64 u64
  | R_StakeDeposit exit_code_v2 u64 u64
  | R_UnstakeDeposit exit_code_v2 u64 u64
  | R_NextEpoch exit_code_v2 u64

type_synonym receipt_v1 = "command_receipt_v1 list"

record receipt_v2 =
  r2_gas_used :: u64
  r2_exit_code :: exit_code_v2
  r2_command_receipts :: "command_receipt_v2 list"

fun create_executed_cmd_rcp_v2 ::
  "command_kind \<Rightarrow> exit_code_v2 \<Rightarrow> u64 \<Rightarrow> command_output \<Rightarrow> command_receipt_v2" where
  "create_executed_cmd_rcp_v2 KTransfer e g out = R_Transfer e g"
| "create_executed_cmd_rcp_v2 KDeploy e g out = R_Deploy e g"
| "create_executed_cmd_rcp_v2 KCall e g out = R_Call e g (co_logs out) (co_return_value out)"
| "create_executed_cmd_rcp_v2 KCreatePool e g out = R_CreatePool e g"
| "create_executed_cmd_rcp_v2 KSetPoolSettings e g out = R_SetPoolSettings e g"
| "create_executed_cmd_rcp_v2 KDeletePool e g out = R_DeletePool e g"
| "create_executed_cmd_rcp_v2 KCreateDeposit e g out = R_CreateDeposit e g"
| "create_executed_cmd_rcp_v2 KSetDepositSettings e g out = R_SetDepositSettings e g"
| "create_executed_cmd_rcp_v2 KTopUpDeposit e g out = R_TopUpDeposit e g"
| "create_executed_cmd_rcp_v2 KWithdrawDeposit e g out =
     R_WithdrawDeposit e g (co_amount_withdrawn out)"
| "create_executed_cmd_rcp_v2 KStakeDeposit e g out = R_StakeDeposit e g (co_amount_staked out)"
| "create_executed_cmd_rcp_v2 KUnstakeDeposit e g out =
     R_UnstakeDeposit e g (co_amount_unstaked out)"
| "create_executed_cmd_rcp_v2 KNextEpoch e g out = R_NextEpoch e g"

fun create_not_executed_cmd_rcp_v2 :: "command_kind \<Rightarrow> command_receipt_v2" where
  "create_not_executed_cmd_rcp_v2 KTransfer = R_Transfer NotExecuted_V2 0"
| "create_not_executed_cmd_rcp_v2 KDeploy = R_Deploy NotExecuted_V2 0"
| "create_not_executed_cmd_rcp_v2 KCall = R_Call NotExecuted_V2 0 [] []"
| "create_not_executed_cmd_rcp_v2 KCreatePool = R_CreatePool NotExecuted_V2 0"
| "create_not_executed_cmd_rcp_v2 KSetPoolSettings = R_SetPoolSettings NotExecuted_V2 0"
| "create_not_executed_cmd_rcp_v2 KDeletePool = R_DeletePool NotExecuted_V2 0"
| "create_not_executed_cmd_rcp_v2 KCreateDeposit = R_CreateDeposit NotExecuted_V2 0"
| "create_not_executed_cmd_rcp_v2 KSetDepositSettings = R_SetDepositSettings NotExecuted_V2 0"
| "create_not_executed_cmd_rcp_v2 KTopUpDeposit = R_TopUpDeposit NotExecuted_V2 0"
| "create_not_executed_cmd_rcp_v2 KWithdrawDeposit = R_WithdrawDeposit NotExecuted_V2 0 0"
| "create_not_executed_cmd_rcp_v2 KStakeDeposit = R_StakeDeposit NotExecuted_V2 0 0"
| "create_not_executed_cmd_rcp_v2 KUnstakeDeposit = R_UnstakeDeposit NotExecuted_V2 0 0"
| "create_not_executed_cmd_rcp_v2 KNextEpoch = R_NextEpoch NotExecuted_V2 0"

fun gas_used_and_exit_code_v2 :: "command_receipt_v2 \<Rightarrow> u64 \<times> exit_code_v2" where
  "gas_used_and_exit_code_v2 (R_Transfer e g) = (g, e)"
| "gas_used_and_exit_code_v2 (R_Call e g _ _) = (g, e)"
| "gas_used_and_exit_code_v2 (R_Deploy e g) = (g, e)"
| "gas_used_and_exit_code_v2 (R_CreatePool e g) = (g, e)"
| "gas_used_and_exit_code_v2 (R_SetPoolSettings e g) = (g, e)"
| "gas_used_and_exit_code_v2 (R_DeletePool e g) = (g, e)"
| "gas_used_and_exit_code_v2 (R_CreateDeposit e g) = (g, e)"
| "gas_used_and_exit_code_v2 (R_SetDepositSettings e g) = (g, e)"
| "gas_used_and_exit_code_v2 (R_TopUpDeposit e g) = (g, e)"
| "gas_used_and_exit_code_v2 (R_WithdrawDeposit e g _) = (g, e)"
| "gas_used_and_exit_code_v2 (R_StakeDeposit e g _) = (g, e)"
| "gas_used_and_exit_code_v2 (R_UnstakeDeposit e g _) = (g, e)"
| "gas_used_and_exit_code_v2 (R_NextEpoch e g) = (g, e)"

fun set_gas_used_and_exit_code_v2 ::
  "command_receipt_v2 \<Rightarrow> u64 \<Rightarrow> exit_code_v2 \<Rightarrow> command_receipt_v2" where
  "set_gas_used_and_exit_code_v2 (R_Transfer _ _) g e = R_Transfer e g"
| "set_gas_used_and_exit_code_v2 (R_Call _ _ l r) g e = R_Call e g l r"
| "set_gas_used_and_exit_code_v2 (R_Deploy _ _) g e = R_Deploy e g"
| "set_gas_used_and_exit_code_v2 (R_CreatePool _ _) g e = R_CreatePool e g"
| "set_gas_used_and_exit_code_v2 (R_SetPoolSettings _ _) g e = R_SetPoolSettings e g"
| "set_gas_used_and_exit_code_v2 (R_DeletePool _ _) g e = R_DeletePool e g"
| "set_gas_used_and_exit_code_v2 (R_CreateDeposit _ _) g e = R_CreateDeposit e g"
| "set_gas_used_and_exit_code_v2 (R_SetDepositSettings _ _) g e = R_SetDepositSettings e g"
| "set_gas_used_and_exit_code_v2 (R_TopUpDeposit _ _) g e = R_TopUpDeposit e g"
| "set_gas_used_and_exit_code_v2 (R_WithdrawDeposit _ _ a) g e = R_WithdrawDeposit e g a"
| "set_gas_used_and_exit_code_v2 (R_StakeDeposit _ _ a) g e = R_StakeDeposit e g a"
| "set_gas_used_and_exit_code_v2 (R_UnstakeDeposit _ _ a) g e = R_UnstakeDeposit e g a"
| "set_gas_used_and_exit_code_v2 (R_NextEpoch _ _) g e = R_NextEpoch e g"

text \<open>The command kind a receipt answers, and the lens laws of the two accessors above.\<close>

fun receipt_kind :: "command_receipt_v2 \<Rightarrow> command_kind" where
  "receipt_kind (R_Transfer _ _) = KTransfer"
| "receipt_kind (R_Call _ _ _ _) = KCall"
| "receipt_kind (R_Deploy _ _) = KDeploy"
| "receipt_kind (R_CreatePool _ _) = KCreatePool"
| "receipt_kind (R_SetPoolSettings _ _) = KSetPoolSettings"
| "receipt_kind (R_DeletePool _ _) = KDeletePool"
| "receipt_kind (R_CreateDeposit _ _) = KCreateDeposit"
| "receipt_kind (R_SetDepositSettings _ _) = KSetDepositSettings"
| "receipt_kind (R_TopUpDeposit _ _) = KTopUpDeposit"
| "receipt_kind (R_WithdrawDeposit _ _ _) = KWithdrawDeposit"
| "receipt_kind (R_StakeDeposit _ _ _) = KStakeDeposit"
| "receipt_kind (R_UnstakeDeposit _ _ _) = KUnstakeDeposit"
| "receipt_kind (R_NextEpoch _ _) = KNextEpoch"

lemma get_set_gas_used_exit_code [simp]:
  "gas_used_and_exit_code_v2 (set_gas_used_and_exit_code_v2 r g e) = (g, e)"
  by (cases r) auto

lemma set_get_gas_used_exit_code [simp]:
  "set_gas_used_and_exit_code_v2 r (fst (gas_used_and_exit_code_v2 r))
     (snd (gas_used_and_exit_code_v2 r)) = r"
  by (cases r) auto

lemma receipt_kind_set [simp]: "receipt_kind (set_gas_used_and_exit_code_v2 r g e) = receipt_kind r"
  by (cases r) auto

lemma receipt_kind_executed [simp]: "receipt_kind (create_executed_cmd_rcp_v2 k e g out) = k"
  by (cases k) auto

lemma receipt_kind_not_executed [simp]: "receipt_kind (create_not_executed_cmd_rcp_v2 k) = k"
  by (cases k) auto

lemma gas_exit_executed [simp]:
  "gas_used_and_exit_code_v2 (create_executed_cmd_rcp_v2 k e g out) = (g, e)"
  by (cases k) auto

lemma gas_exit_not_executed [simp]:
  "gas_used_and_exit_code_v2 (create_not_executed_cmd_rcp_v2 k) = (0, NotExecuted_V2)"
  by (cases k) auto

end
