(* ===== verification/Gas_Constants.thy ===== *)
theory Gas_Constants
  imports Runtime_Types
begin

text \<open>
  The gas constants and cost formulas of \<^verbatim>\<open>src/gas/constants.rs\<close> (all but the opcode schedule)
  and the signed gas tally \<^verbatim>\<open>CostChange\<close> of \<^verbatim>\<open>src/gas/cost_change.rs\<close>.
\<close>

named_theorems gas_consts \<open>values of the gas constants\<close>

section \<open>Access to Wasm memory\<close>

definition WASM_MEMORY_WRITE_PER64_BITS_COST :: u64 where
  [gas_consts]: "WASM_MEMORY_WRITE_PER64_BITS_COST = 3"

definition WASM_MEMORY_READ_PER64_BITS_COST :: u64 where
  [gas_consts]: "WASM_MEMORY_READ_PER64_BITS_COST = 3"

definition WASM_BYTE_CODE_PER_BYTE_COST :: u64 where
  [gas_consts]: "WASM_BYTE_CODE_PER_BYTE_COST = 3"

definition ceil_div_8 :: "u64 \<Rightarrow> u64" where
  "ceil_div_8 l = saturating_div (saturating_add l 7) 8"

definition wasm_memory_read_cost :: "usize \<Rightarrow> u64" where
  "wasm_memory_read_cost len =
     (let cost = saturating_mul (ceil_div_8 len) WASM_MEMORY_READ_PER64_BITS_COST
      in if cost = 0 then 1 else cost)"

definition wasm_memory_write_cost :: "usize \<Rightarrow> u64" where
  "wasm_memory_write_cost len =
     (let cost = saturating_mul (ceil_div_8 len) WASM_MEMORY_WRITE_PER64_BITS_COST
      in if cost = 0 then 1 else cost)"

section \<open>World state storage and access\<close>

definition ACCOUNT_TRIE_KEY_LENGTH :: usize where
  [gas_consts]: "ACCOUNT_TRIE_KEY_LENGTH = 33"

definition MPT_WRITE_PER_BYTE_COST :: u64 where
  [gas_consts]: "MPT_WRITE_PER_BYTE_COST = 2500"

definition MPT_READ_PER_BYTE_COST :: u64 where
  [gas_consts]: "MPT_READ_PER_BYTE_COST = 50"

definition MPT_TRAVERSE_PER_BYTE_COST :: u64 where
  [gas_consts]: "MPT_TRAVERSE_PER_BYTE_COST = 20"

definition MPT_REHASH_PER_BYTE_COST :: u64 where
  [gas_consts]: "MPT_REHASH_PER_BYTE_COST = 130"

definition MPT_WRITE_REFUND_PROPORTION :: u64 where
  [gas_consts]: "MPT_WRITE_REFUND_PROPORTION = 50"

definition MPT_GET_CODE_DISCOUNT_PROPORTION :: u64 where
  [gas_consts]: "MPT_GET_CODE_DISCOUNT_PROPORTION = 50"

definition KECCAK256_LENGTH :: u64 where
  [gas_consts]: "KECCAK256_LENGTH = 32"

definition get_cost_traverse :: "usize \<Rightarrow> u64" where
  "get_cost_traverse key_len = saturating_mul key_len MPT_TRAVERSE_PER_BYTE_COST"

definition get_cost_read :: "usize \<Rightarrow> u64" where
  "get_cost_read value_len = saturating_mul value_len MPT_READ_PER_BYTE_COST"

definition discount_code_read :: "u64 \<Rightarrow> u64" where
  "discount_code_read code_read_cost =
     saturating_div (saturating_mul code_read_cost MPT_GET_CODE_DISCOUNT_PROPORTION) 100"

definition set_cost_delete_old_value :: "usize \<Rightarrow> usize \<Rightarrow> usize \<Rightarrow> u64" where
  "set_cost_delete_old_value key_len old_val_len new_val_len =
     (if (old_val_len > 0 \<or> old_val_len = 0) \<and> new_val_len > 0 then
        saturating_div (saturating_mul old_val_len
          (MPT_WRITE_PER_BYTE_COST * MPT_WRITE_REFUND_PROPORTION)) 100
      else if old_val_len > 0 \<and> new_val_len = 0 then
        saturating_div (saturating_mul (saturating_add key_len old_val_len)
          (MPT_WRITE_PER_BYTE_COST * MPT_WRITE_REFUND_PROPORTION)) 100
      else 0)"

definition set_cost_write_new_value :: "usize \<Rightarrow> u64" where
  "set_cost_write_new_value new_val_len = saturating_mul new_val_len MPT_WRITE_PER_BYTE_COST"

definition set_cost_rehash :: "usize \<Rightarrow> u64" where
  "set_cost_rehash key_len = saturating_mul key_len MPT_REHASH_PER_BYTE_COST"

section \<open>Cryptographic functions\<close>

definition CRYPTO_SHA256_PER_BYTE :: u64 where
  [gas_consts]: "CRYPTO_SHA256_PER_BYTE = 16"

definition CRYPTO_KECCAK256_PER_BYTE :: u64 where
  [gas_consts]: "CRYPTO_KECCAK256_PER_BYTE = 16"

definition CRYPTO_RIPEMD160_PER_BYTE :: u64 where
  [gas_consts]: "CRYPTO_RIPEMD160_PER_BYTE = 16"

definition CRYPTO_ED25519_PER_BYTE :: u64 where
  [gas_consts]: "CRYPTO_ED25519_PER_BYTE = 16"

section \<open>Transaction-related data\<close>

definition BLOCKCHAIN_WRITE_PER_BYTE_COST :: u64 where
  [gas_consts]: "BLOCKCHAIN_WRITE_PER_BYTE_COST = 30"

definition MIN_RECP_SIZE_V1 :: u64 where
  [gas_consts]: "MIN_RECP_SIZE_V1 = 4"

definition MIN_RECP_SIZE_V2 :: u64 where
  [gas_consts]: "MIN_RECP_SIZE_V2 = 13"

definition MIN_CMDRECP_SIZE_V1 :: u64 where
  [gas_consts]: "MIN_CMDRECP_SIZE_V1 = 17"

definition MIN_CMDRECP_SIZE_V2_BASIC :: u64 where
  [gas_consts]: "MIN_CMDRECP_SIZE_V2_BASIC = 9"

definition MIN_CMDRECP_SIZE_V2_EXTENDED :: u64 where
  [gas_consts]: "MIN_CMDRECP_SIZE_V2_EXTENDED = 17"

fun cmd_recp_min_size_v2 :: "command_kind \<Rightarrow> u64" where
  "cmd_recp_min_size_v2 KCall = MIN_CMDRECP_SIZE_V2_EXTENDED"
| "cmd_recp_min_size_v2 KWithdrawDeposit = MIN_CMDRECP_SIZE_V2_EXTENDED"
| "cmd_recp_min_size_v2 KStakeDeposit = MIN_CMDRECP_SIZE_V2_EXTENDED"
| "cmd_recp_min_size_v2 KUnstakeDeposit = MIN_CMDRECP_SIZE_V2_EXTENDED"
| "cmd_recp_min_size_v2 _ = MIN_CMDRECP_SIZE_V2_BASIC"

definition minimum_receipt_size_v1 :: "command_kind list \<Rightarrow> u64" where
  "minimum_receipt_size_v1 commands =
     saturating_add MIN_RECP_SIZE_V1 (saturating_mul MIN_CMDRECP_SIZE_V1 (length commands))"

definition minimum_receipt_size_v2 :: "command_kind list \<Rightarrow> u64" where
  "minimum_receipt_size_v2 commands =
     saturating_add MIN_RECP_SIZE_V2
       (fold (\<lambda>cmd acc. saturating_add acc (cmd_recp_min_size_v2 cmd)) commands 0)"

definition rw_key_cost :: u64 where
  "rw_key_cost =
     saturating_mul
       (saturating_add
          (saturating_add
             (saturating_add (get_cost_traverse ACCOUNT_TRIE_KEY_LENGTH) (get_cost_read 8))
             (set_cost_write_new_value 8))
          (set_cost_rehash ACCOUNT_TRIE_KEY_LENGTH)) 5"

definition tx_inclusion_cost_v1 :: "usize \<Rightarrow> command_kind list \<Rightarrow> u64" where
  "tx_inclusion_cost_v1 tx_size commands =
     saturating_add
       (saturating_mul (saturating_add tx_size (minimum_receipt_size_v1 commands))
          BLOCKCHAIN_WRITE_PER_BYTE_COST)
       rw_key_cost"

definition tx_inclusion_cost_v2 :: "usize \<Rightarrow> command_kind list \<Rightarrow> u64" where
  "tx_inclusion_cost_v2 tx_size commands =
     saturating_add
       (saturating_mul (saturating_add tx_size (minimum_receipt_size_v2 commands))
          BLOCKCHAIN_WRITE_PER_BYTE_COST)
       rw_key_cost"

definition blockchain_storage_cost :: "usize \<Rightarrow> u64" where
  "blockchain_storage_cost data_len = saturating_mul data_len BLOCKCHAIN_WRITE_PER_BYTE_COST"

definition blockchain_log_cost :: "usize \<Rightarrow> usize \<Rightarrow> u64" where
  "blockchain_log_cost topic_len val_len =
     (let log_len = saturating_add topic_len val_len
      in saturating_add
           (saturating_add
              (saturating_mul (ceil_div_8 log_len) WASM_MEMORY_READ_PER64_BITS_COST)
              (saturating_mul topic_len CRYPTO_SHA256_PER_BYTE))
           (saturating_mul log_len BLOCKCHAIN_WRITE_PER_BYTE_COST))"

section \<open>The signed gas tally\<close>

record cost_change =
  deduct :: u64
  reward :: u64

definition cc_default :: cost_change where
  "cc_default = \<lparr>deduct = 0, reward = 0\<rparr>"

definition cc_deduct :: "u64 \<Rightarrow> cost_change" where
  "cc_deduct v = \<lparr>deduct = v, reward = 0\<rparr>"

definition cc_reward :: "u64 \<Rightarrow> cost_change" where
  "cc_reward v = \<lparr>deduct = 0, reward = v\<rparr>"

definition net_cost :: "cost_change \<Rightarrow> u64 \<times> u64" where
  "net_cost c = (saturating_sub (deduct c) (reward c), saturating_sub (reward c) (deduct c))"

definition cc_add_assign :: "cost_change \<Rightarrow> cost_change \<Rightarrow> cost_change" where
  "cc_add_assign c rhs =
     c\<lparr>deduct := saturating_add (deduct c) (deduct rhs),
       reward := saturating_add (reward c) (reward rhs)\<rparr>"

definition cc_add :: "cost_change \<Rightarrow> cost_change \<Rightarrow> cost_change" where
  "cc_add c other =
     \<lparr>deduct = saturating_add (deduct c) (deduct other),
      reward = saturating_add (reward c) (reward other)\<rparr>"

definition cc_sub :: "cost_change \<Rightarrow> cost_change \<Rightarrow> cost_change option" where
  "cc_sub c other =
     (let net_deduct = saturating_sub (deduct other) (deduct c);
          net_reward = saturating_sub (reward other) (reward c)
      in do {
        d \<leftarrow> add_u64 (saturating_sub (deduct c) (deduct other)) net_reward;
        r \<leftarrow> add_u64 (saturating_sub (reward c) (reward other)) net_deduct;
        Some \<lparr>deduct = d, reward = r\<rparr>
      })"

definition cc_sub_assign :: "cost_change \<Rightarrow> cost_change \<Rightarrow> cost_change option" where
  "cc_sub_assign c rhs = cc_sub c rhs"

section \<open>Facts about the costs\<close>

lemmas cc_simps = cc_default_def cc_deduct_def cc_reward_def net_cost_def cc_add_assign_def
  cc_add_def

lemma cc_add_assign_eq: "cc_add_assign c d = cc_add c d"
  by (simp add: cc_add_assign_def cc_add_def)

lemma cc_add_assoc: "cc_add (cc_add a b) c = cc_add a (cc_add b c)"
  by (simp add: cc_add_def saturating_add_assoc)

lemma ceil_div_8_spec: "l + 7 \<le> U64_MAX \<Longrightarrow> l \<le> 8 * ceil_div_8 l \<and> 8 * ceil_div_8 l < l + 8"
  by (simp add: ceil_div_8_def sat_defs) linarith

lemma rw_key_cost_value: "rw_key_cost = 126750"
  by (simp add: rw_key_cost_def sat_defs get_cost_traverse_def get_cost_read_def
      set_cost_write_new_value_def set_cost_rehash_def gas_consts U64_MAX_def)

lemma cmd_recp_min_size_v2_le: "9 \<le> cmd_recp_min_size_v2 k \<and> cmd_recp_min_size_v2 k \<le> 17"
  by (cases k) (simp_all add: gas_consts)

text \<open>
  The signed reading of a tally: gas to be refunded minus gas to be charged. Adding tallies adds
  their readings as long as no component saturates, and subtraction is exact whenever it does
  not panic.
\<close>

definition cc_value :: "cost_change \<Rightarrow> int" where
  "cc_value c = int (reward c) - int (deduct c)"

lemma cc_value_add:
  assumes "deduct c + deduct d \<le> U64_MAX" "reward c + reward d \<le> U64_MAX"
  shows "cc_value (cc_add c d) = cc_value c + cc_value d"
  using assms by (simp add: cc_value_def cc_add_def saturating_add_def)

lemma cc_value_sub:
  assumes "cc_sub c d = Some e"
  shows "cc_value e = cc_value c - cc_value d"
  using assms
  by (auto simp: cc_sub_def Let_def checked_add_def saturating_sub_def cc_value_def split: if_splits)

text \<open>The net cost of a tally is its signed reading split into its negative and its
  positive part, so a tally never charges and refunds at once.\<close>

lemma net_cost_signed:
  "int (fst (net_cost c)) = max 0 (- cc_value c) \<and> int (snd (net_cost c)) = max 0 (cc_value c) \<and>
   (fst (net_cost c) = 0 \<or> snd (net_cost c) = 0)"
  by (auto simp: net_cost_def cc_value_def saturating_sub_def)

end
