(* ===== verification/World_State_Cache.thy ===== *)
theory World_State_Cache
  imports Prelude
begin

text \<open>
  The read-write cache over the world state, \<^verbatim>\<open>src/execution/cache/world_state_cache.rs\<close>.

  The world state itself (\<^verbatim>\<open>pchain_world_state\<close>) is a parameter: a type \<open>'w\<close> and the record
  \<open>'w ws_ops\<close> of the account-trie and storage-trie operations that the cache calls. A \<^verbatim>\<open>Result\<close> is
  an option, \<open>None\<close> for \<^verbatim>\<open>Err\<close>, and the \<^verbatim>\<open>expect\<close> calls of the source turn it into a panic. What the
  tries promise is the predicate \<open>ws_laws\<close>; only the commit uses it.

  The interface of one cache is the locale \<open>overlay\<close>: a map laid over a base map that the cache
  never writes. It is interpreted on \<open>CacheData\<close> and on the four caches of the world state cache.
\<close>

section \<open>The world state, a parameter\<close>

record 'w ws_ops =
  at_nonce :: "'w \<Rightarrow> public_address \<Rightarrow> u64 option"
  at_balance :: "'w \<Rightarrow> public_address \<Rightarrow> u64 option"
  at_cbi_version :: "'w \<Rightarrow> public_address \<Rightarrow> u32 option option"
  at_code :: "'w \<Rightarrow> public_address \<Rightarrow> bytes option option"
  at_set_nonce :: "'w \<Rightarrow> public_address \<Rightarrow> u64 \<Rightarrow> 'w option"
  at_set_balance :: "'w \<Rightarrow> public_address \<Rightarrow> u64 \<Rightarrow> 'w option"
  at_set_cbi_version :: "'w \<Rightarrow> public_address \<Rightarrow> u32 \<Rightarrow> 'w option"
  at_set_code :: "'w \<Rightarrow> public_address \<Rightarrow> bytes \<Rightarrow> 'w option"
  st_contains :: "'w \<Rightarrow> public_address \<Rightarrow> bytes \<Rightarrow> bool option"
  st_get :: "'w \<Rightarrow> public_address \<Rightarrow> bytes \<Rightarrow> bytes option option"
  st_batch_set :: "'w \<Rightarrow> public_address \<Rightarrow> (bytes, bytes) hash_map \<Rightarrow> 'w option"

section \<open>One cache\<close>

record ('k, 'v) cache_data =
  writes :: "('k, 'v) hash_map"
  reads :: "('k, 'v option) hash_map"

definition cd_default :: "('k, 'v) cache_data" where
  "cd_default = \<lparr>writes = [], reads = []\<rparr>"

definition cd_get ::
  "('k, 'v) cache_data \<Rightarrow> 'k \<Rightarrow> ('k \<Rightarrow> 'v option option) \<Rightarrow>
   ('v option \<times> ('k, 'v) cache_data) option" where
  "cd_get c key ws_get =
     (case map_of (writes c) key of
        Some value \<Rightarrow> Some (Some value, c)
      | None \<Rightarrow>
          (case map_of (reads c) key of
             Some value \<Rightarrow> Some (value, c)
           | None \<Rightarrow> do {
               value \<leftarrow> ws_get key;
               Some (value, c\<lparr>reads := AList.update key value (reads c)\<rparr>)
             }))"

definition cd_set :: "('k, 'v) cache_data \<Rightarrow> 'k \<Rightarrow> 'v \<Rightarrow> ('k, 'v) cache_data" where
  "cd_set c key value = c\<lparr>writes := AList.update key value (writes c)\<rparr>"

text \<open>\<open>len\<close> is \<^verbatim>\<open>CacheValue::len\<close> of the value type.\<close>

definition cd_contains ::
  "('v \<Rightarrow> usize) \<Rightarrow> ('k, 'v) cache_data \<Rightarrow> 'k \<Rightarrow> ('k \<Rightarrow> bool option) \<Rightarrow> bool option" where
  "cd_contains len c key ws_contains =
     (if (case map_of (writes c) key of Some v \<Rightarrow> len v \<noteq> 0 | None \<Rightarrow> False) then Some True
      else if (case map_of (reads c) key of Some v \<Rightarrow> v \<noteq> None | None \<Rightarrow> False) then Some True
      else ws_contains key)"

definition cd_revert :: "('k, 'v) cache_data \<Rightarrow> ('k, 'v) cache_data" where
  "cd_revert c = c\<lparr>reads := [], writes := []\<rparr>"

text \<open>\<^verbatim>\<open>CacheValue::len\<close> of \<^verbatim>\<open>u64\<close>, \<^verbatim>\<open>u32\<close> and \<^verbatim>\<open>Vec<u8>\<close>.\<close>

definition cache_len_u64 :: "u64 \<Rightarrow> usize" where
  "cache_len_u64 v = 8"

definition cache_len_u32 :: "u32 \<Rightarrow> usize" where
  "cache_len_u32 v = 4"

definition cache_len_bytes :: "bytes \<Rightarrow> usize" where
  "cache_len_bytes v = length v"

section \<open>The world state cache\<close>

record 'w world_state_cache =
  ws :: 'w
  balances :: "(public_address, u64) cache_data"
  cbi_versions :: "(public_address, u32) cache_data"
  contract_codes :: "(public_address, bytes) cache_data"
  storage_cache :: "(public_address \<times> bytes, bytes) cache_data"

definition wsc_new :: "'w \<Rightarrow> 'w world_state_cache" where
  "wsc_new w =
     \<lparr>ws = w, balances = cd_default, cbi_versions = cd_default, contract_codes = cd_default,
      storage_cache = cd_default\<rparr>"

definition wsc_balance ::
  "'w ws_ops \<Rightarrow> 'w world_state_cache \<Rightarrow> public_address \<Rightarrow> (u64 \<times> 'w world_state_cache) option" where
  "wsc_balance W s address = do {
     (v, c) \<leftarrow> cd_get (balances s) address (\<lambda>key. Some (at_balance W (ws s) key));
     b \<leftarrow> v;
     Some (b, s\<lparr>balances := c\<rparr>)
   }"

definition wsc_set_balance ::
  "'w world_state_cache \<Rightarrow> public_address \<Rightarrow> u64 \<Rightarrow> 'w world_state_cache" where
  "wsc_set_balance s address balance = s\<lparr>balances := cd_set (balances s) address balance\<rparr>"

definition wsc_purge_balance ::
  "'w ws_ops \<Rightarrow> 'w world_state_cache \<Rightarrow> public_address \<Rightarrow> (u64 \<times> 'w world_state_cache) option" where
  "wsc_purge_balance W s address = do {
     (b, s) \<leftarrow> wsc_balance W s address;
     Some (b, s\<lparr>balances := (balances s)\<lparr>writes := AList.delete address (writes (balances s))\<rparr>\<rparr>)
   }"

definition wsc_revert :: "'w world_state_cache \<Rightarrow> 'w world_state_cache" where
  "wsc_revert s =
     s\<lparr>balances := cd_revert (balances s),
       cbi_versions := cd_revert (cbi_versions s),
       contract_codes := cd_revert (contract_codes s),
       storage_cache := cd_revert (storage_cache s)\<rparr>"

definition wsc_cbi_version ::
  "'w ws_ops \<Rightarrow> 'w world_state_cache \<Rightarrow> public_address \<Rightarrow>
   (u32 option \<times> 'w world_state_cache) option" where
  "wsc_cbi_version W s address = do {
     (v, c) \<leftarrow> cd_get (cbi_versions s) address (at_cbi_version W (ws s));
     Some (v, s\<lparr>cbi_versions := c\<rparr>)
   }"

definition wsc_set_cbi_version ::
  "'w world_state_cache \<Rightarrow> public_address \<Rightarrow> u32 \<Rightarrow> 'w world_state_cache" where
  "wsc_set_cbi_version s address v = s\<lparr>cbi_versions := cd_set (cbi_versions s) address v\<rparr>"

definition wsc_contract_code ::
  "'w ws_ops \<Rightarrow> 'w world_state_cache \<Rightarrow> public_address \<Rightarrow>
   (bytes option \<times> 'w world_state_cache) option" where
  "wsc_contract_code W s address = do {
     (v, c) \<leftarrow> cd_get (contract_codes s) address (at_code W (ws s));
     Some (v, s\<lparr>contract_codes := c\<rparr>)
   }"

definition wsc_set_contract_code ::
  "'w world_state_cache \<Rightarrow> public_address \<Rightarrow> bytes \<Rightarrow> 'w world_state_cache" where
  "wsc_set_contract_code s address code =
     s\<lparr>contract_codes := cd_set (contract_codes s) address code\<rparr>"

definition wsc_contains_storage_data ::
  "'w ws_ops \<Rightarrow> 'w world_state_cache \<Rightarrow> public_address \<Rightarrow> bytes \<Rightarrow> bool option" where
  "wsc_contains_storage_data W s address key =
     cd_contains cache_len_bytes (storage_cache s) (address, key)
       (\<lambda>(addr, k). st_contains W (ws s) addr k)"

definition wsc_storage_data ::
  "'w ws_ops \<Rightarrow> 'w world_state_cache \<Rightarrow> public_address \<Rightarrow> bytes \<Rightarrow>
   (bytes option \<times> 'w world_state_cache) option" where
  "wsc_storage_data W s address key = do {
     (v, c) \<leftarrow> cd_get (storage_cache s) (address, key) (\<lambda>(addr, k). st_get W (ws s) addr k);
     Some (v, s\<lparr>storage_cache := c\<rparr>)
   }"

definition wsc_set_storage_data ::
  "'w world_state_cache \<Rightarrow> public_address \<Rightarrow> bytes \<Rightarrow> bytes \<Rightarrow> 'w world_state_cache" where
  "wsc_set_storage_data s address key value =
     s\<lparr>storage_cache := cd_set (storage_cache s) (address, key) value\<rparr>"

subsection \<open>Commit\<close>

fun commit_each :: "('w \<Rightarrow> 'k \<Rightarrow> 'v \<Rightarrow> 'w option) \<Rightarrow> ('k, 'v) hash_map \<Rightarrow> 'w \<Rightarrow> 'w option" where
  "commit_each put [] w = Some w"
| "commit_each put ((k, v) # kvs) w = put w k v \<bind> commit_each put kvs"

definition aggregate_storage_writes ::
  "(public_address \<times> bytes, bytes) hash_map \<Rightarrow> (public_address, (bytes, bytes) hash_map) hash_map"
where
  "aggregate_storage_writes kvs =
     fold (\<lambda>((address, key), value) agg.
       AList.update address
         (AList.update key value (case map_of agg address of Some kv \<Rightarrow> kv | None \<Rightarrow> [])) agg)
       kvs []"

definition commit_to_world_state :: "'w ws_ops \<Rightarrow> 'w world_state_cache \<Rightarrow> 'w option" where
  "commit_to_world_state W s = do {
     w \<leftarrow> commit_each (at_set_balance W) (writes (balances s)) (ws s);
     w \<leftarrow> commit_each (at_set_cbi_version W) (writes (cbi_versions s)) w;
     w \<leftarrow> commit_each (at_set_code W) (writes (contract_codes s)) w;
     commit_each (st_batch_set W) (aggregate_storage_writes (writes (storage_cache s))) w
   }"

section \<open>The interface of a cache\<close>

text \<open>
  \<open>base\<close> is what the world state answers, \<open>view\<close> what a reader of the cache sees. Both answer
  \<open>None\<close> where the read panics.
\<close>

locale overlay =
  fixes get :: "'s \<Rightarrow> 'k \<Rightarrow> ('v option \<times> 's) option"
    and put :: "'s \<Rightarrow> 'k \<Rightarrow> 'v \<Rightarrow> 's"
    and undo :: "'s \<Rightarrow> 's"
    and base :: "'s \<Rightarrow> 'k \<Rightarrow> 'v option option"
    and view :: "'s \<Rightarrow> 'k \<Rightarrow> 'v option option"
    and coherent :: "'s \<Rightarrow> bool"
  assumes get_panic: "coherent s \<Longrightarrow> get s k = None \<longleftrightarrow> view s k = None"
    and get_answer: "coherent s \<Longrightarrow> get s k = Some (r, s') \<Longrightarrow> view s k = Some r"
    and get_view: "coherent s \<Longrightarrow> get s k = Some (r, s') \<Longrightarrow> view s' = view s"
    and get_base: "get s k = Some (r, s') \<Longrightarrow> base s' = base s"
    and get_coherent: "coherent s \<Longrightarrow> get s k = Some (r, s') \<Longrightarrow> coherent s'"
    and put_view: "view (put s k v) = (view s)(k := Some (Some v))"
    and put_base: "base (put s k v) = base s"
    and put_coherent: "coherent s \<Longrightarrow> coherent (put s k v)"
    and undo_view: "view (undo s) = base s"
    and undo_base: "base (undo s) = base s"
    and undo_coherent: "coherent (undo s)"
begin

lemma get_iff: "coherent s \<Longrightarrow> (\<exists>s'. get s k = Some (v, s')) \<longleftrightarrow> view s k = Some v"
  using get_panic[of s k] get_answer[of s k] by (cases "get s k") auto

lemma read_your_write:
  assumes "coherent s"
  shows "\<exists>s'. get (put s k v) k = Some (Some v, s')"
  using get_iff[OF put_coherent[OF assms], of k v k "Some v"] by (simp add: put_view)

lemma write_frame:
  assumes "coherent s" "k \<noteq> k'"
  shows "(\<exists>s'. get (put s k v) k' = Some (u, s')) \<longleftrightarrow> (\<exists>s'. get s k' = Some (u, s'))"
  using get_iff[OF put_coherent[OF assms(1)], of k v k' u] get_iff[OF assms(1), of k' u] assms(2)
  by (simp add: put_view)

lemma get_stable:
  assumes "coherent s" "get s k = Some (v, s')"
  shows "(\<exists>s''. get s' k' = Some (u, s'')) \<longleftrightarrow> (\<exists>s''. get s k' = Some (u, s''))"
  using get_iff[OF get_coherent[OF assms], of k' u] get_iff[OF assms(1), of k' u] get_view[OF assms]
  by simp

lemma undo_forgets:
  shows "(\<exists>s'. get (undo (put s k v)) k' = Some (u, s')) \<longleftrightarrow> base s k' = Some u"
  using get_iff[OF undo_coherent, of "put s k v" k' u] by (simp add: undo_view put_base)

lemma view_puts:
  "view (fold (\<lambda>(k, v) s. put s k v) kvs s) k =
     (case map_of (rev kvs) k of Some v \<Rightarrow> Some (Some v) | None \<Rightarrow> view s k)"
  by (induction kvs arbitrary: s) (auto simp: put_view map_add_Some_iff split: option.splits)

end

section \<open>A cache is an overlay\<close>

definition cd_view ::
  "('k, 'v) cache_data \<Rightarrow> ('k \<Rightarrow> 'v option option) \<Rightarrow> 'k \<Rightarrow> 'v option option" where
  "cd_view c b k = (case map_of (writes c) k of Some v \<Rightarrow> Some (Some v) | None \<Rightarrow> b k)"

text \<open>Every cached read is what the world state answers.\<close>

definition cd_coherent :: "('k, 'v) cache_data \<Rightarrow> ('k \<Rightarrow> 'v option option) \<Rightarrow> bool" where
  "cd_coherent c b \<longleftrightarrow> (\<forall>k v. map_of (reads c) k = Some v \<longrightarrow> b k = Some v)"

lemmas cd_defs = cd_default_def cd_get_def cd_set_def cd_revert_def cd_view_def cd_coherent_def

interpretation cd: overlay
  "\<lambda>c k. cd_get c k b" cd_set cd_revert "\<lambda>c. b" "\<lambda>c. cd_view c b" "\<lambda>c. cd_coherent c b"
  for b :: "'k \<Rightarrow> 'v option option"
  by unfold_locales
    (auto simp: cd_defs fun_eq_iff bind_convs split: option.splits if_splits)

lemma cd_get_writes: "cd_get c k b = Some (v, c') \<Longrightarrow> writes c' = writes c"
  by (auto simp: cd_get_def bind_convs split: option.splits)

section \<open>The four caches are overlays\<close>

definition wsc_storage_base :: "'w ws_ops \<Rightarrow> 'w \<Rightarrow> public_address \<times> bytes \<Rightarrow> bytes option option"
where
  "wsc_storage_base W w = (\<lambda>(addr, k). st_get W w addr k)"

definition wsc_balance_view :: "'w ws_ops \<Rightarrow> 'w world_state_cache \<Rightarrow> public_address \<Rightarrow> u64 option"
where
  "wsc_balance_view W s a =
     (case map_of (writes (balances s)) a of Some v \<Rightarrow> Some v | None \<Rightarrow> at_balance W (ws s) a)"

definition wsc_cbi_view ::
  "'w ws_ops \<Rightarrow> 'w world_state_cache \<Rightarrow> public_address \<Rightarrow> u32 option option" where
  "wsc_cbi_view W s = cd_view (cbi_versions s) (at_cbi_version W (ws s))"

definition wsc_code_view ::
  "'w ws_ops \<Rightarrow> 'w world_state_cache \<Rightarrow> public_address \<Rightarrow> bytes option option" where
  "wsc_code_view W s = cd_view (contract_codes s) (at_code W (ws s))"

definition wsc_storage_view ::
  "'w ws_ops \<Rightarrow> 'w world_state_cache \<Rightarrow> public_address \<times> bytes \<Rightarrow> bytes option option" where
  "wsc_storage_view W s = cd_view (storage_cache s) (wsc_storage_base W (ws s))"

definition wsc_coherent :: "'w ws_ops \<Rightarrow> 'w world_state_cache \<Rightarrow> bool" where
  "wsc_coherent W s \<longleftrightarrow>
     cd_coherent (balances s) (\<lambda>k. Some (at_balance W (ws s) k)) \<and>
     cd_coherent (cbi_versions s) (at_cbi_version W (ws s)) \<and>
     cd_coherent (contract_codes s) (at_code W (ws s)) \<and>
     cd_coherent (storage_cache s) (wsc_storage_base W (ws s))"

lemmas wsc_ops = wsc_balance_def wsc_set_balance_def wsc_cbi_version_def wsc_set_cbi_version_def
  wsc_contract_code_def wsc_set_contract_code_def wsc_storage_data_def wsc_set_storage_data_def
  wsc_revert_def
lemmas wsc_views = wsc_balance_view_def wsc_cbi_view_def wsc_code_view_def wsc_storage_view_def

interpretation bal: overlay
  "\<lambda>s a. map_option (\<lambda>(b, s). (Some b, s)) (wsc_balance W s a)" wsc_set_balance wsc_revert
  "\<lambda>s a. map_option Some (at_balance W (ws s) a)" "\<lambda>s a. map_option Some (wsc_balance_view W s a)"
  "wsc_coherent W" for W :: "'w ws_ops"
  by unfold_locales
    (auto simp: wsc_ops wsc_views cd_defs wsc_coherent_def fun_eq_iff bind_convs
      split: option.splits if_splits dest: sym)

interpretation cbi: overlay "wsc_cbi_version W" wsc_set_cbi_version wsc_revert
  "\<lambda>s. at_cbi_version W (ws s)" "wsc_cbi_view W" "wsc_coherent W" for W :: "'w ws_ops"
  by unfold_locales
    (auto simp: wsc_ops wsc_views cd_defs wsc_coherent_def fun_eq_iff bind_convs
      split: option.splits if_splits)

interpretation code: overlay "wsc_contract_code W" wsc_set_contract_code wsc_revert
  "\<lambda>s. at_code W (ws s)" "wsc_code_view W" "wsc_coherent W" for W :: "'w ws_ops"
  by unfold_locales
    (auto simp: wsc_ops wsc_views cd_defs wsc_coherent_def fun_eq_iff bind_convs
      split: option.splits if_splits)

interpretation sto: overlay
  "\<lambda>s (a, k). wsc_storage_data W s a k" "\<lambda>s (a, k). wsc_set_storage_data s a k" wsc_revert
  "\<lambda>s. wsc_storage_base W (ws s)" "wsc_storage_view W" "wsc_coherent W" for W :: "'w ws_ops"
  by unfold_locales
    (auto simp: wsc_ops wsc_views cd_defs wsc_coherent_def wsc_storage_base_def fun_eq_iff
      bind_convs split: option.splits if_splits)

section \<open>What the cache operations keep\<close>

definition wsc_writes_distinct :: "'w world_state_cache \<Rightarrow> bool" where
  "wsc_writes_distinct s \<longleftrightarrow>
     keys_distinct (writes (balances s)) \<and> keys_distinct (writes (cbi_versions s)) \<and>
     keys_distinct (writes (contract_codes s)) \<and> keys_distinct (writes (storage_cache s))"

text \<open>The invariant of the cache and its frame: no operation of the cache writes the world state.\<close>

definition wsc_inv :: "'w ws_ops \<Rightarrow> 'w world_state_cache \<Rightarrow> bool" where
  "wsc_inv W s \<longleftrightarrow> wsc_coherent W s \<and> wsc_writes_distinct s"

definition wsc_step :: "'w ws_ops \<Rightarrow> 'w world_state_cache \<Rightarrow> 'w world_state_cache \<Rightarrow> bool" where
  "wsc_step W s s' \<longleftrightarrow> ws s' = ws s \<and> (wsc_inv W s \<longrightarrow> wsc_inv W s')"

lemma wsc_step_refl [simp]: "wsc_step W s s"
  by (simp add: wsc_step_def)

lemma wsc_step_trans: "wsc_step W s t \<Longrightarrow> wsc_step W t u \<Longrightarrow> wsc_step W s u"
  by (simp add: wsc_step_def)

lemma wsc_step_ws: "wsc_step W s s' \<Longrightarrow> ws s' = ws s"
  by (simp add: wsc_step_def)

lemma wsc_step_inv: "wsc_step W s s' \<Longrightarrow> wsc_inv W s \<Longrightarrow> wsc_inv W s'"
  by (simp add: wsc_step_def)

lemma wsc_inv_new [simp]: "wsc_inv W (wsc_new w)"
  by (simp add: wsc_inv_def wsc_new_def wsc_coherent_def wsc_writes_distinct_def cd_defs)

lemma cd_coherent_get: "cd_coherent c b \<Longrightarrow> cd_get c k b = Some (v, c') \<Longrightarrow> cd_coherent c' b"
  by (rule cd.get_coherent)

lemma cd_coherent_set [simp]: "cd_coherent (cd_set c k v) b \<longleftrightarrow> cd_coherent c b"
  by (simp add: cd_coherent_def cd_set_def)

lemma cd_coherent_revert [simp]: "cd_coherent (cd_revert c) b"
  by (simp add: cd_coherent_def cd_revert_def)

lemma writes_cd_set [simp]: "writes (cd_set c k v) = AList.update k v (writes c)"
  by (simp add: cd_set_def)

lemma writes_cd_revert [simp]: "writes (cd_revert c) = []"
  by (simp add: cd_revert_def)

lemmas wsc_inv_defs = wsc_inv_def wsc_coherent_def wsc_writes_distinct_def

lemma wsc_step_balance: "wsc_balance W s a = Some (b, s') \<Longrightarrow> wsc_step W s s'"
  by (auto simp: wsc_step_def wsc_balance_def wsc_inv_defs bind_convs
      dest: cd_coherent_get cd_get_writes)

lemma wsc_step_cbi_version: "wsc_cbi_version W s a = Some (v, s') \<Longrightarrow> wsc_step W s s'"
  by (auto simp: wsc_step_def wsc_cbi_version_def wsc_inv_defs bind_convs
      dest: cd_coherent_get cd_get_writes)

lemma wsc_step_contract_code: "wsc_contract_code W s a = Some (v, s') \<Longrightarrow> wsc_step W s s'"
  by (auto simp: wsc_step_def wsc_contract_code_def wsc_inv_defs bind_convs
      dest: cd_coherent_get cd_get_writes)

lemma wsc_step_storage_data: "wsc_storage_data W s a k = Some (v, s') \<Longrightarrow> wsc_step W s s'"
  by (auto simp: wsc_step_def wsc_storage_data_def wsc_storage_base_def wsc_inv_defs bind_convs
      dest: cd_coherent_get cd_get_writes)

lemma wsc_step_sets [simp]:
  "wsc_step W s (wsc_set_balance s a b)"
  "wsc_step W s (wsc_set_cbi_version s a v)"
  "wsc_step W s (wsc_set_contract_code s a c)"
  "wsc_step W s (wsc_set_storage_data s a k d)"
  by (simp_all add: wsc_step_def wsc_ops wsc_inv_defs)

lemma wsc_step_revert [simp]: "wsc_step W s (wsc_revert s)"
  by (simp add: wsc_step_def wsc_revert_def wsc_inv_defs)

lemma wsc_revert_inv [simp]: "wsc_inv W (wsc_revert s)"
  by (simp add: wsc_revert_def wsc_inv_defs)

lemma wsc_step_drop_write [simp]:
  "wsc_step W s (s\<lparr>balances := (balances s)\<lparr>writes := AList.delete a (writes (balances s))\<rparr>\<rparr>)"
  by (simp add: wsc_step_def wsc_inv_defs cd_coherent_def)

lemma wsc_step_purge: "wsc_purge_balance W s a = Some (b, s') \<Longrightarrow> wsc_step W s s'"
  by (auto simp: wsc_purge_balance_def bind_convs
      intro: wsc_step_trans [OF wsc_step_balance wsc_step_drop_write])

lemmas wsc_steps = wsc_step_balance wsc_step_cbi_version wsc_step_contract_code
  wsc_step_storage_data wsc_step_purge

text \<open>Nothing is pending in the cache: what a commit would write is the world state as it is.\<close>

definition wsc_clean :: "'w world_state_cache \<Rightarrow> bool" where
  "wsc_clean s \<longleftrightarrow>
     writes (balances s) = [] \<and> writes (cbi_versions s) = [] \<and>
     writes (contract_codes s) = [] \<and> writes (storage_cache s) = []"

lemma wsc_clean_revert [simp]: "wsc_clean (wsc_revert s)"
  by (simp add: wsc_clean_def wsc_revert_def)

lemma wsc_clean_new [simp]: "wsc_clean (wsc_new w)"
  by (simp add: wsc_clean_def wsc_new_def cd_default_def)

lemma commit_clean: "wsc_clean s \<Longrightarrow> commit_to_world_state W s = Some (ws s)"
  by (simp add: wsc_clean_def commit_to_world_state_def aggregate_storage_writes_def)

section \<open>What the tries promise\<close>

text \<open>
  The account trie and the storage tries are key-value stores: a successful write is seen by the
  next read of the same key and by no other read. A storage value that was set to the empty byte
  string reads as absent or as empty.
\<close>

definition ws_laws :: "'w ws_ops \<Rightarrow> bool" where
  "ws_laws W \<longleftrightarrow>
     (\<forall>w a v w'. at_set_nonce W w a v = Some w' \<longrightarrow>
        at_nonce W w' = (at_nonce W w)(a := Some v) \<and> at_balance W w' = at_balance W w \<and>
        at_cbi_version W w' = at_cbi_version W w \<and> at_code W w' = at_code W w \<and>
        st_get W w' = st_get W w) \<and>
     (\<forall>w a v w'. at_set_balance W w a v = Some w' \<longrightarrow>
        at_balance W w' = (at_balance W w)(a := Some v) \<and> at_nonce W w' = at_nonce W w \<and>
        at_cbi_version W w' = at_cbi_version W w \<and> at_code W w' = at_code W w \<and>
        st_get W w' = st_get W w) \<and>
     (\<forall>w a v w'. at_set_cbi_version W w a v = Some w' \<longrightarrow>
        at_cbi_version W w' = (at_cbi_version W w)(a := Some (Some v)) \<and>
        at_nonce W w' = at_nonce W w \<and> at_balance W w' = at_balance W w \<and>
        at_code W w' = at_code W w \<and> st_get W w' = st_get W w) \<and>
     (\<forall>w a v w'. at_set_code W w a v = Some w' \<longrightarrow>
        at_code W w' = (at_code W w)(a := Some (Some v)) \<and>
        at_nonce W w' = at_nonce W w \<and> at_balance W w' = at_balance W w \<and>
        at_cbi_version W w' = at_cbi_version W w \<and> st_get W w' = st_get W w) \<and>
     (\<forall>w a kvs w'. st_batch_set W w a kvs = Some w' \<longrightarrow>
        at_nonce W w' = at_nonce W w \<and> at_balance W w' = at_balance W w \<and>
        at_cbi_version W w' = at_cbi_version W w \<and> at_code W w' = at_code W w \<and>
        (\<forall>a' k. a' \<noteq> a \<or> map_of kvs k = None \<longrightarrow> st_get W w' a' k = st_get W w a' k) \<and>
        (\<forall>k v. map_of kvs k = Some v \<longrightarrow>
           st_get W w' a k = Some (Some v) \<or> v = [] \<and> st_get W w' a k = Some None))"

text \<open>The writes a commit makes never fail.\<close>

definition ws_writable :: "'w ws_ops \<Rightarrow> bool" where
  "ws_writable W \<longleftrightarrow>
     (\<forall>w a v. at_set_balance W w a v \<noteq> None) \<and> (\<forall>w a v. at_set_nonce W w a v \<noteq> None) \<and>
     (\<forall>w a v. at_set_cbi_version W w a v \<noteq> None) \<and> (\<forall>w a v. at_set_code W w a v \<noteq> None) \<and>
     (\<forall>w a kvs. st_batch_set W w a kvs \<noteq> None)"

lemma ws_laws_nonce:
  assumes "ws_laws W" "at_set_nonce W w a v = Some w'"
  shows "at_nonce W w' = (at_nonce W w)(a := Some v)" "at_balance W w' = at_balance W w"
    "at_cbi_version W w' = at_cbi_version W w" "at_code W w' = at_code W w"
    "st_get W w' = st_get W w"
  using assms by (simp_all add: ws_laws_def)

lemma ws_laws_balance:
  assumes "ws_laws W" "at_set_balance W w a v = Some w'"
  shows "at_balance W w' = (at_balance W w)(a := Some v)" "at_nonce W w' = at_nonce W w"
    "at_cbi_version W w' = at_cbi_version W w" "at_code W w' = at_code W w"
    "st_get W w' = st_get W w"
  using assms by (simp_all add: ws_laws_def)

lemma ws_laws_cbi:
  assumes "ws_laws W" "at_set_cbi_version W w a v = Some w'"
  shows "at_cbi_version W w' = (at_cbi_version W w)(a := Some (Some v))"
    "at_nonce W w' = at_nonce W w" "at_balance W w' = at_balance W w"
    "at_code W w' = at_code W w" "st_get W w' = st_get W w"
  using assms by (simp_all add: ws_laws_def)

lemma ws_laws_code:
  assumes "ws_laws W" "at_set_code W w a v = Some w'"
  shows "at_code W w' = (at_code W w)(a := Some (Some v))"
    "at_nonce W w' = at_nonce W w" "at_balance W w' = at_balance W w"
    "at_cbi_version W w' = at_cbi_version W w" "st_get W w' = st_get W w"
  using assms by (simp_all add: ws_laws_def)

lemma ws_laws_batch:
  assumes "ws_laws W" "st_batch_set W w a kvs = Some w'"
  shows "at_nonce W w' = at_nonce W w" "at_balance W w' = at_balance W w"
    "at_cbi_version W w' = at_cbi_version W w" "at_code W w' = at_code W w"
    "a' \<noteq> a \<or> map_of kvs k = None \<Longrightarrow> st_get W w' a' k = st_get W w a' k"
    "map_of kvs k = Some v \<Longrightarrow>
       st_get W w' a k = Some (Some v) \<or> v = [] \<and> st_get W w' a k = Some None"
  using assms unfolding ws_laws_def by blast+

end
