(* ===== verification/World_State_Commit.thy ===== *)
theory World_State_Commit
  imports World_State_Cache
begin

text \<open>
  What \<open>commit_to_world_state\<close> does to the tries: the committed world state answers every read as
  the cache did, whatever the iteration order of the hash maps; and what a delete does to the
  two ways of reading a storage key.
\<close>

section \<open>Committing one hash map\<close>

lemma commit_each_obs:
  assumes put: "\<And>w k v w'. put w k v = Some w' \<Longrightarrow> obs w' = (obs w)(k := f v)"
    and "keys_distinct kvs" "commit_each put kvs w = Some w'"
  shows "obs w' k = (case map_of kvs k of Some v \<Rightarrow> f v | None \<Rightarrow> obs w k)"
  using assms(2,3)
proof (induction kvs arbitrary: w)
  case Nil
  then show ?case by simp
next
  case (Cons kv kvs)
  obtain k' v' where kv: "kv = (k', v')" by (cases kv)
  with Cons.prems obtain w1 where w1: "put w k' v' = Some w1"
    and rest: "commit_each put kvs w1 = Some w'"
    by (auto simp: bind_convs)
  have "obs w' k = (case map_of kvs k of Some v \<Rightarrow> f v | None \<Rightarrow> obs w1 k)"
    using Cons.IH Cons.prems(1) rest kv by simp
  then show ?case
    using put[OF w1] Cons.prems(1) kv by (auto split: option.splits)
qed

lemma commit_each_frame:
  assumes "\<And>w k v w'. put w k v = Some w' \<Longrightarrow> obs w' = obs w"
    and "commit_each put kvs w = Some w'"
  shows "obs w' = obs w"
  using assms(2)
proof (induction kvs arbitrary: w)
  case Nil
  then show ?case by simp
next
  case (Cons kv kvs)
  then show ?case
    using assms(1) by (cases kv) (fastforce simp: bind_convs)
qed

lemma commit_each_total:
  assumes "\<And>w k v. put w k v \<noteq> None"
  shows "commit_each put kvs w \<noteq> None"
proof (induction kvs arbitrary: w)
  case Nil
  then show ?case by simp
next
  case (Cons kv kvs)
  obtain k v where kv: "kv = (k, v)" by (cases kv)
  from assms obtain w1 where "put w k v = Some w1" by fastforce
  with Cons kv show ?case by simp
qed

section \<open>Aggregating the storage writes\<close>

definition agg_lookup ::
  "(public_address, (bytes, bytes) hash_map) hash_map \<Rightarrow> public_address \<Rightarrow> bytes \<Rightarrow> bytes option" where
  "agg_lookup agg a k = (case map_of agg a of Some kv \<Rightarrow> map_of kv k | None \<Rightarrow> None)"

lemma agg_lookup_fold:
  "agg_lookup (fold (\<lambda>((address, key), value) agg.
       AList.update address
         (AList.update key value (case map_of agg address of Some kv \<Rightarrow> kv | None \<Rightarrow> [])) agg)
       kvs agg) a k =
   (case map_of (rev kvs) (a, k) of Some v \<Rightarrow> Some v | None \<Rightarrow> agg_lookup agg a k)"
proof (induction kvs arbitrary: agg)
  case Nil
  then show ?case by simp
next
  case (Cons kv kvs)
  obtain a' k' v' where kv: "kv = ((a', k'), v')" by (metis prod.exhaust)
  show ?case
    unfolding kv by (simp add: Cons.IH, auto simp: agg_lookup_def map_add_Some_iff split: option.splits)
qed

lemma aggregate_lookup:
  assumes "keys_distinct kvs"
  shows "agg_lookup (aggregate_storage_writes kvs) a k = map_of kvs (a, k)"
proof -
  have "map_of (rev kvs) = map_of kvs"
    using assms by (subst map_of_inject_set) (simp_all add: keys_distinct_def rev_map [symmetric])
  then show ?thesis
    unfolding aggregate_storage_writes_def agg_lookup_fold
    by (simp add: agg_lookup_def split: option.splits)
qed

lemma aggregate_distinct: "keys_distinct (aggregate_storage_writes kvs)"
proof -
  have "keys_distinct agg \<Longrightarrow> keys_distinct (fold (\<lambda>((address, key), value) agg.
       AList.update address
         (AList.update key value (case map_of agg address of Some kv \<Rightarrow> kv | None \<Rightarrow> [])) agg)
       kvs agg)" for agg
    by (induction kvs arbitrary: agg) auto
  then show ?thesis
    by (simp add: aggregate_storage_writes_def)
qed

text \<open>A stored empty value and an absent one are the same to every client that filters empties.\<close>

fun live :: "bytes option option \<Rightarrow> bytes option option" where
  "live (Some (Some [])) = Some None"
| "live x = x"

lemma live_Some [simp]: "v \<noteq> [] \<Longrightarrow> live (Some (Some v)) = Some (Some v)"
  by (cases v) auto

lemma commit_storage:
  assumes W: "ws_laws W" and "keys_distinct agg" "commit_each (st_batch_set W) agg w = Some w'"
  shows "live (st_get W w' a k) =
    (case agg_lookup agg a k of Some v \<Rightarrow> live (Some (Some v)) | None \<Rightarrow> live (st_get W w a k))"
  using assms(2,3)
proof (induction agg arbitrary: w)
  case Nil
  then show ?case by (simp add: agg_lookup_def)
next
  case (Cons e agg)
  obtain a' kv where e: "e = (a', kv)" by (cases e)
  with Cons.prems obtain w1 where w1: "st_batch_set W w a' kv = Some w1"
    and rest: "commit_each (st_batch_set W) agg w1 = Some w'"
    by (auto simp: bind_convs)
  have IH: "live (st_get W w' a k) =
    (case agg_lookup agg a k of Some v \<Rightarrow> live (Some (Some v)) | None \<Rightarrow> live (st_get W w1 a k))"
    using Cons.IH Cons.prems(1) rest e by simp
  have fresh: "map_of agg a' = None"
    using Cons.prems(1) e by simp
  have step: "live (st_get W w1 a k) =
    (case (if a' = a then map_of kv k else None) of
       Some v \<Rightarrow> live (Some (Some v)) | None \<Rightarrow> live (st_get W w a k))"
    using ws_laws_batch(5)[OF W w1, of a k] ws_laws_batch(6)[OF W w1, of k]
    by (auto split: option.splits)
  show ?case
    using IH step fresh unfolding e by (auto simp: agg_lookup_def split: option.splits if_splits)
qed

section \<open>The commit refines the cache\<close>

lemma commit_stages:
  assumes "commit_to_world_state W s = Some w'"
  obtains w1 w2 w3 where
    "commit_each (at_set_balance W) (writes (balances s)) (ws s) = Some w1"
    "commit_each (at_set_cbi_version W) (writes (cbi_versions s)) w1 = Some w2"
    "commit_each (at_set_code W) (writes (contract_codes s)) w2 = Some w3"
    "commit_each (st_batch_set W) (aggregate_storage_writes (writes (storage_cache s))) w3 = Some w'"
  using assms by (auto simp: commit_to_world_state_def bind_convs)

lemma commit_balances_frame:
  assumes W: "ws_laws W" and c: "commit_each (at_set_balance W) kvs w = Some w'"
  shows "at_nonce W w' = at_nonce W w" "at_cbi_version W w' = at_cbi_version W w"
    "at_code W w' = at_code W w" "st_get W w' = st_get W w"
  by (rule commit_each_frame[where put = "at_set_balance W", OF _ c],
      simp add: ws_laws_balance[OF W])+

lemma commit_cbis_frame:
  assumes W: "ws_laws W" and c: "commit_each (at_set_cbi_version W) kvs w = Some w'"
  shows "at_nonce W w' = at_nonce W w" "at_balance W w' = at_balance W w"
    "at_code W w' = at_code W w" "st_get W w' = st_get W w"
  by (rule commit_each_frame[where put = "at_set_cbi_version W", OF _ c],
      simp add: ws_laws_cbi[OF W])+

lemma commit_codes_frame:
  assumes W: "ws_laws W" and c: "commit_each (at_set_code W) kvs w = Some w'"
  shows "at_nonce W w' = at_nonce W w" "at_balance W w' = at_balance W w"
    "at_cbi_version W w' = at_cbi_version W w" "st_get W w' = st_get W w"
  by (rule commit_each_frame[where put = "at_set_code W", OF _ c],
      simp add: ws_laws_code[OF W])+

lemma commit_tries_frame:
  assumes W: "ws_laws W" and c: "commit_each (st_batch_set W) agg w = Some w'"
  shows "at_nonce W w' = at_nonce W w" "at_balance W w' = at_balance W w"
    "at_cbi_version W w' = at_cbi_version W w" "at_code W w' = at_code W w"
  by (rule commit_each_frame[where put = "st_batch_set W", OF _ c],
      simp add: ws_laws_batch(1-4)[OF W])+

lemmas commit_frames = commit_balances_frame commit_cbis_frame commit_codes_frame commit_tries_frame

lemma commit_nonce:
  assumes W: "ws_laws W" and "commit_to_world_state W s = Some w'"
  shows "at_nonce W w' = at_nonce W (ws s)"
  using assms(2) by (elim commit_stages) (simp add: commit_frames[OF W])

lemma commit_balance:
  assumes W: "ws_laws W" and "wsc_writes_distinct s" "commit_to_world_state W s = Some w'"
  shows "at_balance W w' a = wsc_balance_view W s a"
  using assms(3)
proof (rule commit_stages)
  fix w1 w2 w3
  assume 1: "commit_each (at_set_balance W) (writes (balances s)) (ws s) = Some w1"
    and 2: "commit_each (at_set_cbi_version W) (writes (cbi_versions s)) w1 = Some w2"
    and 3: "commit_each (at_set_code W) (writes (contract_codes s)) w2 = Some w3"
    and 4: "commit_each (st_batch_set W) (aggregate_storage_writes (writes (storage_cache s))) w3 = Some w'"
  have "at_balance W w1 a =
      (case map_of (writes (balances s)) a of Some v \<Rightarrow> Some v | None \<Rightarrow> at_balance W (ws s) a)"
    using assms(2) by (intro commit_each_obs[OF _ _ 1])
      (simp_all add: ws_laws_balance[OF W] wsc_writes_distinct_def fun_eq_iff)
  then show ?thesis
    by (simp add: wsc_balance_view_def commit_cbis_frame[OF W 2] commit_codes_frame[OF W 3] commit_tries_frame[OF W 4])
qed

lemma commit_cbi_version:
  assumes W: "ws_laws W" and "wsc_writes_distinct s" "commit_to_world_state W s = Some w'"
  shows "at_cbi_version W w' a = wsc_cbi_view W s a"
  using assms(3)
proof (rule commit_stages)
  fix w1 w2 w3
  assume 1: "commit_each (at_set_balance W) (writes (balances s)) (ws s) = Some w1"
    and 2: "commit_each (at_set_cbi_version W) (writes (cbi_versions s)) w1 = Some w2"
    and 3: "commit_each (at_set_code W) (writes (contract_codes s)) w2 = Some w3"
    and 4: "commit_each (st_batch_set W) (aggregate_storage_writes (writes (storage_cache s))) w3 = Some w'"
  have "at_cbi_version W w2 a =
      (case map_of (writes (cbi_versions s)) a of
         Some v \<Rightarrow> Some (Some v) | None \<Rightarrow> at_cbi_version W w1 a)"
    using assms(2) by (intro commit_each_obs[OF _ _ 2])
      (simp_all add: ws_laws_cbi[OF W] wsc_writes_distinct_def fun_eq_iff)
  then show ?thesis
    by (simp add: wsc_cbi_view_def cd_view_def commit_balances_frame[OF W 1] commit_codes_frame[OF W 3]
        commit_tries_frame[OF W 4] split: option.splits)
qed

lemma commit_code:
  assumes W: "ws_laws W" and "wsc_writes_distinct s" "commit_to_world_state W s = Some w'"
  shows "at_code W w' a = wsc_code_view W s a"
  using assms(3)
proof (rule commit_stages)
  fix w1 w2 w3
  assume 1: "commit_each (at_set_balance W) (writes (balances s)) (ws s) = Some w1"
    and 2: "commit_each (at_set_cbi_version W) (writes (cbi_versions s)) w1 = Some w2"
    and 3: "commit_each (at_set_code W) (writes (contract_codes s)) w2 = Some w3"
    and 4: "commit_each (st_batch_set W) (aggregate_storage_writes (writes (storage_cache s))) w3 = Some w'"
  have "at_code W w3 a =
      (case map_of (writes (contract_codes s)) a of Some v \<Rightarrow> Some (Some v) | None \<Rightarrow> at_code W w2 a)"
    using assms(2) by (intro commit_each_obs[OF _ _ 3])
      (simp_all add: ws_laws_code[OF W] wsc_writes_distinct_def fun_eq_iff)
  then show ?thesis
    by (simp add: wsc_code_view_def cd_view_def commit_balances_frame[OF W 1] commit_cbis_frame[OF W 2]
        commit_tries_frame[OF W 4] split: option.splits)
qed

lemma commit_storage_data:
  assumes W: "ws_laws W" and "wsc_writes_distinct s" "commit_to_world_state W s = Some w'"
  shows "live (st_get W w' a k) = live (wsc_storage_view W s (a, k))"
  using assms(3)
proof (rule commit_stages)
  fix w1 w2 w3
  assume 1: "commit_each (at_set_balance W) (writes (balances s)) (ws s) = Some w1"
    and 2: "commit_each (at_set_cbi_version W) (writes (cbi_versions s)) w1 = Some w2"
    and 3: "commit_each (at_set_code W) (writes (contract_codes s)) w2 = Some w3"
    and 4: "commit_each (st_batch_set W) (aggregate_storage_writes (writes (storage_cache s))) w3 = Some w'"
  have "st_get W w3 = st_get W (ws s)"
    by (simp add: commit_balances_frame[OF W 1] commit_cbis_frame[OF W 2] commit_codes_frame[OF W 3])
  then show ?thesis
    using commit_storage[OF W aggregate_distinct 4, of a k] assms(2)
    by (simp add: aggregate_lookup wsc_writes_distinct_def wsc_storage_view_def wsc_storage_base_def
        cd_view_def split: option.splits)
qed

lemma commit_total:
  assumes "ws_writable W"
  shows "\<exists>w'. commit_to_world_state W s = Some w'"
proof -
  have "commit_each (at_set_balance W) kvs w \<noteq> None"
    "commit_each (at_set_cbi_version W) kvs' w \<noteq> None" "commit_each (at_set_code W) kvs'' w \<noteq> None"
    "commit_each (st_batch_set W) agg w \<noteq> None" for kvs kvs' kvs'' agg w
    using assms by (simp_all only: ws_writable_def commit_each_total not_False_eq_True)
  then have "commit_to_world_state W s \<noteq> None"
    by (simp add: commit_to_world_state_def bind_None_iff)
  then show ?thesis by simp
qed

section \<open>A key-value world state\<close>

text \<open>
  A world state that keeps the laws: one total map per kind of data. It serves the witnesses and
  shows that \<open>ws_laws\<close> and \<open>ws_writable\<close> can hold.
\<close>

record kv_world =
  kv_nonce :: "public_address \<Rightarrow> u64"
  kv_balance :: "public_address \<Rightarrow> u64"
  kv_cbi :: "public_address \<Rightarrow> u32 option"
  kv_code :: "public_address \<Rightarrow> bytes option"
  kv_storage :: "public_address \<Rightarrow> bytes \<Rightarrow> bytes option"

definition kv_ops :: "kv_world ws_ops" where
  "kv_ops =
     \<lparr>at_nonce = (\<lambda>w a. Some (kv_nonce w a)),
      at_balance = (\<lambda>w a. Some (kv_balance w a)),
      at_cbi_version = (\<lambda>w a. Some (kv_cbi w a)),
      at_code = (\<lambda>w a. Some (kv_code w a)),
      at_set_nonce = (\<lambda>w a v. Some (w\<lparr>kv_nonce := (kv_nonce w)(a := v)\<rparr>)),
      at_set_balance = (\<lambda>w a v. Some (w\<lparr>kv_balance := (kv_balance w)(a := v)\<rparr>)),
      at_set_cbi_version = (\<lambda>w a v. Some (w\<lparr>kv_cbi := (kv_cbi w)(a := Some v)\<rparr>)),
      at_set_code = (\<lambda>w a v. Some (w\<lparr>kv_code := (kv_code w)(a := Some v)\<rparr>)),
      st_contains = (\<lambda>w a k. Some (kv_storage w a k \<noteq> None)),
      st_get = (\<lambda>w a k. Some (kv_storage w a k)),
      st_batch_set = (\<lambda>w a kvs.
        Some (w\<lparr>kv_storage := (kv_storage w)(a := kv_storage w a ++ map_of kvs)\<rparr>))\<rparr>"

definition kv_zero :: kv_world where
  "kv_zero = \<lparr>kv_nonce = (\<lambda>_. 0), kv_balance = (\<lambda>_. 0), kv_cbi = (\<lambda>_. None),
     kv_code = (\<lambda>_. None), kv_storage = (\<lambda>_ _. None)\<rparr>"

lemma kv_ops_laws: "ws_laws kv_ops"
  by (auto simp: ws_laws_def kv_ops_def fun_eq_iff map_add_def split: option.splits)

lemma kv_ops_writable: "ws_writable kv_ops"
  by (simp add: ws_writable_def kv_ops_def)

section \<open>Properties of the cache\<close>

text \<open>C14: Committing the cache never panics when the tries accept writes, and the committed world
  state answers every read as the cache did: balances, CBI versions and contract codes exactly,
  storage up to the empty value that stands for a deleted key, and nonces are untouched.\<close>

theorem commit_refines_cache:
  assumes "ws_laws W" "ws_writable W" "wsc_inv W s"
  shows "\<exists>w'. commit_to_world_state W s = Some w' \<and>
    at_balance W w' = wsc_balance_view W s \<and> at_cbi_version W w' = wsc_cbi_view W s \<and>
    at_code W w' = wsc_code_view W s \<and> at_nonce W w' = at_nonce W (ws s) \<and>
    (\<forall>a k. live (st_get W w' a k) = live (wsc_storage_view W s (a, k)))"
proof -
  obtain w' where w': "commit_to_world_state W s = Some w'"
    using commit_total[OF assms(2)] by blast
  have d: "wsc_writes_distinct s"
    using assms(3) by (simp add: wsc_inv_def)
  show ?thesis
    using w' commit_balance[OF assms(1) d w'] commit_cbi_version[OF assms(1) d w']
      commit_code[OF assms(1) d w'] commit_nonce[OF assms(1) w'] commit_storage_data[OF assms(1) d w']
    by (intro exI[of _ w']) (simp add: fun_eq_iff)
qed

theorem commit_refines_cache_witness:
  "\<exists>w'. commit_to_world_state kv_ops (wsc_set_storage_data (wsc_set_balance (wsc_new kv_zero) 7 90) 7 [1] [2])
      = Some w' \<and> at_balance kv_ops w' 7 = Some 90 \<and> at_balance kv_ops w' 8 = Some 0 \<and>
      live (st_get kv_ops w' 7 [1]) = Some (Some [2])"
proof -
  let ?s = "wsc_set_storage_data (wsc_set_balance (wsc_new kv_zero) 7 90) 7 [1] [2]"
  have inv: "wsc_inv kv_ops ?s"
    by (intro wsc_step_inv[OF wsc_step_sets(4)] wsc_step_inv[OF wsc_step_sets(1)]) simp
  obtain w' where "commit_to_world_state kv_ops ?s = Some w'"
    "at_balance kv_ops w' = wsc_balance_view kv_ops ?s"
    "\<forall>a k. live (st_get kv_ops w' a k) = live (wsc_storage_view kv_ops ?s (a, k))"
    using commit_refines_cache[OF kv_ops_laws kv_ops_writable inv] by blast
  then show ?thesis
    by (intro exI[of _ w']) (simp add: wsc_views wsc_ops wsc_new_def cd_defs kv_ops_def kv_zero_def)
qed

text \<open>C25: The iteration order of the hash maps does not matter: two caches over the same world
  state whose write sets hold the same entries commit to world states that answer every read
  alike.\<close>

theorem commit_order_irrelevant:
  assumes "ws_laws W" "wsc_writes_distinct s" "wsc_writes_distinct t" "ws s = ws t"
    and "map_of (writes (balances s)) = map_of (writes (balances t))"
    and "map_of (writes (cbi_versions s)) = map_of (writes (cbi_versions t))"
    and "map_of (writes (contract_codes s)) = map_of (writes (contract_codes t))"
    and "map_of (writes (storage_cache s)) = map_of (writes (storage_cache t))"
    and "commit_to_world_state W s = Some w" "commit_to_world_state W t = Some w'"
  shows "at_nonce W w = at_nonce W w' \<and> at_balance W w = at_balance W w' \<and>
    at_cbi_version W w = at_cbi_version W w' \<and> at_code W w = at_code W w' \<and>
    (\<forall>a k. live (st_get W w a k) = live (st_get W w' a k))"
  using assms
  by (simp add: fun_eq_iff commit_balance commit_cbi_version commit_code commit_nonce
      commit_storage_data wsc_views cd_view_def split: option.splits)

theorem commit_order_irrelevant_witness:
  "commit_to_world_state kv_ops (wsc_set_balance (wsc_set_balance (wsc_new kv_zero) 1 5) 2 6) \<noteq> None \<and>
   at_balance kv_ops (the (commit_to_world_state kv_ops
       (wsc_set_balance (wsc_set_balance (wsc_new kv_zero) 1 5) 2 6))) =
   at_balance kv_ops (the (commit_to_world_state kv_ops
       (wsc_set_balance (wsc_set_balance (wsc_new kv_zero) 2 6) 1 5)))"
proof -
  let ?s = "wsc_set_balance (wsc_set_balance (wsc_new kv_zero) 1 5) 2 6"
  let ?t = "wsc_set_balance (wsc_set_balance (wsc_new kv_zero) 2 6) 1 5"
  have d: "wsc_writes_distinct ?s" "wsc_writes_distinct ?t" "ws ?s = ws ?t"
    "map_of (writes (balances ?s)) = map_of (writes (balances ?t))"
    "map_of (writes (cbi_versions ?s)) = map_of (writes (cbi_versions ?t))"
    "map_of (writes (contract_codes ?s)) = map_of (writes (contract_codes ?t))"
    "map_of (writes (storage_cache ?s)) = map_of (writes (storage_cache ?t))"
    by (simp_all add: wsc_writes_distinct_def wsc_set_balance_def wsc_new_def cd_default_def fun_eq_iff)
  obtain w w' where "commit_to_world_state kv_ops ?s = Some w" "commit_to_world_state kv_ops ?t = Some w'"
    using commit_total[OF kv_ops_writable] by metis
  then show ?thesis
    using commit_order_irrelevant[OF kv_ops_laws d, of w w'] by simp
qed

text \<open>C39: A key that the world state holds still tests as present after it was deleted in the
  cache, although a read of it answers the empty value the delete wrote: the presence test of the
  cache does not see deletes.\<close>

theorem contains_after_delete:
  assumes "wsc_coherent W s" "st_contains W (ws s) a k = Some True"
  shows "wsc_contains_storage_data W (wsc_set_storage_data s a k []) a k = Some True \<and>
    (\<exists>s'. wsc_storage_data W (wsc_set_storage_data s a k []) a k = Some (Some [], s'))"
  using sto.read_your_write[OF assms(1), of "(a, k)" "[]"] assms(2)
  by (simp add: wsc_contains_storage_data_def wsc_set_storage_data_def cd_contains_def cd_set_def
      cache_len_bytes_def)

theorem contains_after_delete_witness:
  "wsc_contains_storage_data kv_ops
     (wsc_set_storage_data (wsc_new (kv_zero\<lparr>kv_storage := (\<lambda>_ _. Some [9])\<rparr>)) 0 [1] []) 0 [1]
   = Some True"
proof -
  let ?w = "kv_zero\<lparr>kv_storage := (\<lambda>_ _. Some [9])\<rparr>"
  have "wsc_coherent kv_ops (wsc_new ?w)"
    using wsc_inv_new[of kv_ops ?w] by (simp add: wsc_inv_def)
  moreover have "st_contains kv_ops (ws (wsc_new ?w)) 0 [1] = Some True"
    by (simp add: kv_ops_def wsc_new_def)
  ultimately show ?thesis
    using contains_after_delete by blast
qed

end
