(* ===== verification/Receipts.thy ===== *)
theory Receipts
  imports Runtime_Types
begin

text \<open>
  The per-command output cache (\<^verbatim>\<open>src/execution/cache/output_buffer.rs\<close>) and the buffer of command
  receipts (\<^verbatim>\<open>src/execution/cache/receipt_buffer.rs\<close>), in both receipt versions. A
  \<^verbatim>\<open>MaybeUnused\<close> field is an option. Turning the buffer into a \<^verbatim>\<open>ReceiptV2\<close> can panic, so it is an
  option.
\<close>

section \<open>The output cache\<close>

record command_output_cache =
  oc_logs :: "log list option"
  oc_return_value :: "bytes option"
  oc_amount_withdrawn :: "u64 option"
  oc_amount_staked :: "u64 option"
  oc_amount_unstaked :: "u64 option"

definition oc_default :: command_output_cache where
  "oc_default = \<lparr>oc_logs = None, oc_return_value = None, oc_amount_withdrawn = None,
     oc_amount_staked = None, oc_amount_unstaked = None\<rparr>"

definition take_or_default :: "'a \<Rightarrow> 'a option \<Rightarrow> 'a" where
  "take_or_default d v = (case v of Some x \<Rightarrow> x | None \<Rightarrow> d)"

definition oc_take :: "command_output_cache \<Rightarrow> command_output \<times> command_output_cache" where
  "oc_take c =
     (\<lparr>co_logs = take_or_default [] (oc_logs c),
       co_return_value = take_or_default [] (oc_return_value c),
       co_amount_withdrawn = take_or_default 0 (oc_amount_withdrawn c),
       co_amount_staked = take_or_default 0 (oc_amount_staked c),
       co_amount_unstaked = take_or_default 0 (oc_amount_unstaked c)\<rparr>,
      c\<lparr>oc_logs := None, oc_return_value := None, oc_amount_withdrawn := None,
        oc_amount_staked := None, oc_amount_unstaked := None\<rparr>)"

definition oc_take_return_value ::
  "command_output_cache \<Rightarrow> bytes option \<times> command_output_cache" where
  "oc_take_return_value c = (oc_return_value c, c\<lparr>oc_return_value := None\<rparr>)"

lemma oc_take_resets [simp]: "snd (oc_take c) = oc_default"
  by (simp add: oc_take_def oc_default_def)

section \<open>The receipt buffer\<close>

definition push_command_receipt :: "'e list \<Rightarrow> 'e \<Rightarrow> 'e list" where
  "push_command_receipt buf r = buf @ [r]"

text \<open>\<open>last_mut\<close> of an empty buffer is \<^verbatim>\<open>None\<close>: the receipt of the deferred command is dropped.\<close>

definition push_deferred_command_receipt_v1 ::
  "command_receipt_v1 list \<Rightarrow> command_receipt_v1 \<Rightarrow> command_receipt_v1 list" where
  "push_deferred_command_receipt_v1 buf r =
     (if buf = [] then buf
      else butlast buf @
        [(last buf)\<lparr>r1_gas_used := saturating_add (r1_gas_used (last buf)) (r1_gas_used r),
                    r1_exit_code := r1_exit_code r,
                    r1_return_values := r1_return_values r\<rparr>])"

fun override_return_value :: "command_receipt_v2 \<Rightarrow> command_receipt_v2 \<Rightarrow> command_receipt_v2" where
  "override_return_value (R_Call e g l v) (R_Call _ _ _ v') = R_Call e g l v'"
| "override_return_value (R_Call e g l v) (R_WithdrawDeposit _ _ a) = R_Call e g l (to_le_bytes 8 a)"
| "override_return_value (R_Call e g l v) (R_StakeDeposit _ _ a) = R_Call e g l (to_le_bytes 8 a)"
| "override_return_value (R_Call e g l v) (R_UnstakeDeposit _ _ a) = R_Call e g l (to_le_bytes 8 a)"
| "override_return_value r _ = r"

definition push_deferred_command_receipt_v2 ::
  "command_receipt_v2 list \<Rightarrow> command_receipt_v2 \<Rightarrow> command_receipt_v2 list" where
  "push_deferred_command_receipt_v2 buf r =
     (if buf = [] then buf
      else
        let last_gas_used = fst (gas_used_and_exit_code_v2 (last buf));
            gas_used = fst (gas_used_and_exit_code_v2 r);
            exit_code = snd (gas_used_and_exit_code_v2 r);
            last' = set_gas_used_and_exit_code_v2 (last buf)
                      (saturating_add last_gas_used gas_used) exit_code
        in butlast buf @ [override_return_value last' r])"

definition into_receipt_v1 :: "command_receipt_v1 list \<Rightarrow> u64 \<Rightarrow> command_kind list \<Rightarrow> receipt_v1" where
  "into_receipt_v1 buf gas_used commands = buf"

definition into_receipt_v2 ::
  "command_receipt_v2 list \<Rightarrow> u64 \<Rightarrow> command_kind list \<Rightarrow> receipt_v2 option" where
  "into_receipt_v2 buf gas_used kinds =
     (let num_executed = length buf; num_cmds = length kinds
      in if num_cmds = 0 \<and> num_executed = 0 then
           Some \<lparr>r2_gas_used = gas_used, r2_exit_code = Ok_V2, r2_command_receipts = buf\<rparr>
         else if buf = [] then None
         else
           let exit_code = snd (gas_used_and_exit_code_v2 (last buf));
               rcps = (if num_executed < num_cmds
                       then buf @ map create_not_executed_cmd_rcp_v2 (drop num_executed kinds)
                       else buf)
           in Some \<lparr>r2_gas_used = gas_used, r2_exit_code = exit_code, r2_command_receipts = rcps\<rparr>)"

section \<open>Facts about the buffer\<close>

lemma receipt_kind_override [simp]: "receipt_kind (override_return_value r r') = receipt_kind r"
  by (cases r; cases r') auto

lemma gas_exit_override [simp]:
  "gas_used_and_exit_code_v2 (override_return_value r r') = gas_used_and_exit_code_v2 r"
  by (cases r; cases r') auto

lemma push_deferred_v2_Nil [simp]: "push_deferred_command_receipt_v2 [] r = []"
  by (simp add: push_deferred_command_receipt_v2_def)

lemma push_deferred_v2_snoc [simp]:
  "push_deferred_command_receipt_v2 (buf @ [r0]) r =
     buf @ [override_return_value
       (set_gas_used_and_exit_code_v2 r0
          (saturating_add (fst (gas_used_and_exit_code_v2 r0)) (fst (gas_used_and_exit_code_v2 r)))
          (snd (gas_used_and_exit_code_v2 r))) r]"
  by (simp add: push_deferred_command_receipt_v2_def)

lemma push_deferred_v1_snoc [simp]:
  "push_deferred_command_receipt_v1 (buf @ [r0]) r =
     buf @ [r0\<lparr>r1_gas_used := saturating_add (r1_gas_used r0) (r1_gas_used r),
              r1_exit_code := r1_exit_code r, r1_return_values := r1_return_values r\<rparr>]"
  by (simp add: push_deferred_command_receipt_v1_def)

lemma kinds_push_deferred_v2 [simp]:
  "map receipt_kind (push_deferred_command_receipt_v2 buf r) = map receipt_kind buf"
  by (cases buf rule: rev_cases) auto

lemma length_push_deferred_v1 [simp]: "length (push_deferred_command_receipt_v1 buf r) = length buf"
  by (cases buf rule: rev_cases) (auto simp: push_deferred_command_receipt_v1_def)

lemma length_push_deferred_v2 [simp]: "length (push_deferred_command_receipt_v2 buf r) = length buf"
  by (cases buf rule: rev_cases) auto

lemma into_receipt_v2_panics: "into_receipt_v2 buf g ks = None \<longleftrightarrow> buf = [] \<and> ks \<noteq> []"
  by (simp add: into_receipt_v2_def Let_def)

end
