(* ===== verification/Contract_Module.thy ===== *)
theory Contract_Module
  imports Runtime_Types "HOL-Library.Sublist"
begin

text \<open>
  Building, validating and caching contract modules: \<^verbatim>\<open>src/contract/cbi_version.rs\<close>,
  \<^verbatim>\<open>src/contract/context.rs\<close>, \<^verbatim>\<open>src/contract/module.rs\<close> (but for \<^verbatim>\<open>instantiate\<close>),
  \<^verbatim>\<open>src/contract/wasmer/module.rs\<close>, \<^verbatim>\<open>src/contract/wasmer/cache.rs\<close>, the page limit of
  \<^verbatim>\<open>src/contract/wasmer/store.rs\<close> and \<^verbatim>\<open>src/contract/wasmer/custom_tunables.rs\<close>.

  Wasmer and the file system are a parameter: a type \<open>'c\<close> for the directory behind the cache, a type
  \<open>'m\<close> for compiled modules and the record \<open>wasmer_ops\<close>. The runtime is single threaded, so the
  \<^verbatim>\<open>try_read\<close> and \<^verbatim>\<open>try_write\<close> of the cache's lock succeed.
\<close>

section \<open>CBI version\<close>

definition CBIVER_ADAM :: u32 where
  "CBIVER_ADAM = 0"

definition CBI_VERSION :: u32 where
  "CBI_VERSION = CBIVER_ADAM"

definition is_cbi_compatible :: "u32 \<Rightarrow> bool" where
  "is_cbi_compatible ver \<longleftrightarrow> ver \<le> CBI_VERSION"

section \<open>Module metadata\<close>

record module_metadata =
  md_cbi_version :: u32
  md_bytecode_length :: usize

definition metadata_to_bytes :: "module_metadata \<Rightarrow> bytes" where
  "metadata_to_bytes m = to_le_bytes 4 (md_cbi_version m) @ to_le_bytes 8 (md_bytecode_length m)"

text \<open>\<^verbatim>\<open>split_at\<close> panics on fewer than four bytes, \<^verbatim>\<open>try_into().unwrap()\<close> unless eight follow.\<close>

definition metadata_from_bytes :: "bytes \<Rightarrow> module_metadata option" where
  "metadata_from_bytes bs =
     (if length bs < 4 then None
      else if length (drop 4 bs) \<noteq> 8 then None
      else Some \<lparr>md_cbi_version = from_le_bytes (take 4 bs),
                 md_bytecode_length = from_le_bytes (drop 4 bs)\<rparr>)"

section \<open>Wasmer and the file system, a parameter\<close>

text \<open>
  \<open>fs_new\<close>, \<open>fs_load\<close> and \<open>fs_store\<close> are Wasmer's \<^verbatim>\<open>FileSystemCache\<close>. The other operations on the directory
  are those of \<^verbatim>\<open>std::fs\<close> on the metadata files: \<open>file_read\<close> opens a file and reads it to its end,
  \<open>file_open\<close> opens it for writing and creates it if it is missing, \<open>file_write\<close> writes from its start. A
  write that fails may have changed the file, so it returns the directory too.
\<close>

record ('c, 'm) wasmer_ops =
  fs_new :: "string \<Rightarrow> 'c option"
  fs_load :: "'c \<Rightarrow> usize option \<Rightarrow> public_address \<Rightarrow> 'm option"
  fs_store :: "'c \<Rightarrow> public_address \<Rightarrow> 'm \<Rightarrow> 'c option"
  dir_exists :: "'c \<Rightarrow> bool"
  dir_create :: "'c \<Rightarrow> 'c option"
  file_read :: "'c \<Rightarrow> public_address \<Rightarrow> bytes option"
  file_open :: "'c \<Rightarrow> public_address \<Rightarrow> 'c option"
  file_write :: "'c \<Rightarrow> public_address \<Rightarrow> bytes \<Rightarrow> bool \<times> 'c"
  wasm_from_binary :: "usize option \<Rightarrow> bytes \<Rightarrow> string + 'm"
  wasm_from_binary_unchecked :: "usize option \<Rightarrow> bytes \<Rightarrow> string + 'm"
  wasm_exported_functions :: "'m \<Rightarrow> string list"
  wasm_instance_with_empty_imports :: "usize option \<Rightarrow> 'm \<Rightarrow> bool"
  wasm_entrypoint_is_nullary :: "'m \<Rightarrow> bool"

section \<open>The contract cache\<close>

definition cache_new :: "('c, 'm) wasmer_ops \<Rightarrow> string \<Rightarrow> 'c option" where
  "cache_new M binaries_dir = do {
     c \<leftarrow> fs_new M binaries_dir;
     if \<not> dir_exists M c then dir_create M c else Some c
   }"

text \<open>\<^verbatim>\<open>FileStorage::metadata\<close> and \<^verbatim>\<open>FileStorage::set_metadata\<close>. An error is \<open>Some None\<close> when reading and
  \<open>False\<close> when writing; the file is opened without truncating it.\<close>

definition storage_metadata ::
  "('c, 'm) wasmer_ops \<Rightarrow> 'c \<Rightarrow> public_address \<Rightarrow> module_metadata option option" where
  "storage_metadata M c key =
     (case file_read M c key of
        None \<Rightarrow> Some None
      | Some buf \<Rightarrow> map_option Some (metadata_from_bytes buf))"

definition storage_set_metadata ::
  "('c, 'm) wasmer_ops \<Rightarrow> 'c \<Rightarrow> public_address \<Rightarrow> module_metadata \<Rightarrow> bool \<times> 'c" where
  "storage_set_metadata M c key metadata =
     (case file_open M c key of
        None \<Rightarrow> (False, c)
      | Some c \<Rightarrow> file_write M c key (metadata_to_bytes metadata))"

definition cache_load ::
  "('c, 'm) wasmer_ops \<Rightarrow> 'c \<Rightarrow> usize option \<Rightarrow> public_address \<Rightarrow>
   ('m \<times> module_metadata) option option" where
  "cache_load M c store address =
     (case fs_load M c store address of
        None \<Rightarrow> Some None
      | Some m \<Rightarrow> map_option (map_option (Pair m)) (storage_metadata M c address))"

definition cache_store ::
  "('c, 'm) wasmer_ops \<Rightarrow> 'c \<Rightarrow> public_address \<Rightarrow> 'm \<Rightarrow> usize \<Rightarrow> bool \<times> 'c" where
  "cache_store M c address m bytes_length =
     (case fs_store M c address m of
        None \<Rightarrow> (False, c)
      | Some c \<Rightarrow> storage_set_metadata M c address
          \<lparr>md_cbi_version = CBI_VERSION, md_bytecode_length = bytes_length\<rparr>)"

section \<open>Contract modules\<close>

record 'c smart_contract_context =
  sc_cache :: "'c option"
  sc_memory_limit :: "usize option"

definition sc_default :: "'c smart_contract_context" where
  "sc_default = \<lparr>sc_cache = None, sc_memory_limit = None\<rparr>"

text \<open>The store of a module is determined by the memory limit it was created with.\<close>

record 'm contract_module =
  cm_store :: "usize option"
  cm_module :: 'm
  cm_metadata :: module_metadata

datatype module_build_error = DisallowedOpcodePresent | Else
datatype contract_validate_error = MethodNotFound | InstantiateError

definition CONTRACT_METHOD :: string where
  "CONTRACT_METHOD = ''entrypoint''"

definition build_error_of :: "string \<Rightarrow> module_build_error" where
  "build_error_of e = (if sublist ''OpcodeError'' e then DisallowedOpcodePresent else Else)"

definition from_wasm_bytecode_checked ::
  "('c, 'm) wasmer_ops \<Rightarrow> u32 \<Rightarrow> bytes \<Rightarrow> usize option \<Rightarrow>
   module_build_error + 'm \<times> module_metadata" where
  "from_wasm_bytecode_checked M cbi bytecode store =
     (case wasm_from_binary M store bytecode of
        Inl e \<Rightarrow> Inl (build_error_of e)
      | Inr m \<Rightarrow> Inr (m, \<lparr>md_cbi_version = cbi, md_bytecode_length = length bytecode\<rparr>))"

definition from_wasm_bytecode_unchecked ::
  "('c, 'm) wasmer_ops \<Rightarrow> u32 \<Rightarrow> bytes \<Rightarrow> usize option \<Rightarrow>
   module_build_error + 'm \<times> module_metadata" where
  "from_wasm_bytecode_unchecked M cbi bytecode store =
     (case wasm_from_binary_unchecked M store bytecode of
        Inl e \<Rightarrow> Inl (build_error_of e)
      | Inr m \<Rightarrow> Inr (m, \<lparr>md_cbi_version = cbi, md_bytecode_length = length bytecode\<rparr>))"

definition module_validate_entry_point ::
  "('c, 'm) wasmer_ops \<Rightarrow> usize option \<Rightarrow> 'm \<Rightarrow> contract_validate_error + unit" where
  "module_validate_entry_point M store m =
     (if \<not> list_ex (\<lambda>f. f = CONTRACT_METHOD) (wasm_exported_functions M m) then Inl MethodNotFound
      else if wasm_instance_with_empty_imports M store m \<and> wasm_entrypoint_is_nullary M m then Inr ()
      else Inl InstantiateError)"

definition module_from_cache ::
  "('c, 'm) wasmer_ops \<Rightarrow> public_address \<Rightarrow> 'c smart_contract_context \<Rightarrow>
   'm contract_module option option" where
  "module_from_cache M address sc =
     (case sc_cache sc of
        None \<Rightarrow> Some None
      | Some c \<Rightarrow> do {
          loaded \<leftarrow> cache_load M c (sc_memory_limit sc) address;
          Some (map_option (\<lambda>(m, md). \<lparr>cm_store = sc_memory_limit sc, cm_module = m,
                                        cm_metadata = md\<rparr>) loaded)
        })"

definition module_from_bytecode_checked ::
  "('c, 'm) wasmer_ops \<Rightarrow> bytes \<Rightarrow> usize option \<Rightarrow> module_build_error + 'm contract_module" where
  "module_from_bytecode_checked M contract_code memory_limit =
     (case from_wasm_bytecode_checked M CBI_VERSION contract_code memory_limit of
        Inl e \<Rightarrow> Inl e
      | Inr (m, md) \<Rightarrow> Inr \<lparr>cm_store = memory_limit, cm_module = m, cm_metadata = md\<rparr>)"

definition module_bytecode_length :: "'m contract_module \<Rightarrow> usize" where
  "module_bytecode_length cm = md_bytecode_length (cm_metadata cm)"

text \<open>\<^verbatim>\<open>Module::cache_to\<close> ignores the outcome of the store; the directory may have changed anyway.\<close>

definition module_cache_to ::
  "('c, 'm) wasmer_ops \<Rightarrow> 'm contract_module \<Rightarrow> public_address \<Rightarrow> 'c \<Rightarrow> 'c" where
  "module_cache_to M cm address c =
     snd (cache_store M c address (cm_module cm) (md_bytecode_length (cm_metadata cm)))"

definition module_from_bytecode_unchecked ::
  "('c, 'm) wasmer_ops \<Rightarrow> public_address \<Rightarrow> bytes \<Rightarrow> 'c smart_contract_context \<Rightarrow>
   ('m contract_module option) \<times> 'c smart_contract_context" where
  "module_from_bytecode_unchecked M address contract_code sc =
     (case from_wasm_bytecode_unchecked M CBI_VERSION contract_code (sc_memory_limit sc) of
        Inl e \<Rightarrow> (None, sc)
      | Inr (m, md) \<Rightarrow>
          let cm = \<lparr>cm_store = sc_memory_limit sc, cm_module = m, cm_metadata = md\<rparr>
          in (Some cm, sc\<lparr>sc_cache := map_option (module_cache_to M cm address) (sc_cache sc)\<rparr>))"

definition module_validate_proper_contract ::
  "('c, 'm) wasmer_ops \<Rightarrow> 'm contract_module \<Rightarrow> contract_validate_error + unit" where
  "module_validate_proper_contract M cm = module_validate_entry_point M (cm_store cm) (cm_module cm)"

section \<open>The memory limit\<close>

definition WASM_PAGE_SIZE :: nat where
  "WASM_PAGE_SIZE = 65536"

definition limit_pages :: "usize \<Rightarrow> u32" where
  "limit_pages limit =
     (let pages = limit div WASM_PAGE_SIZE
      in min (if pages \<le> U32_MAX then pages else 65536) 65536)"

record memory_type =
  mem_minimum :: u32
  mem_maximum :: "u32 option"

definition adjust_memory :: "u32 \<Rightarrow> memory_type \<Rightarrow> memory_type" where
  "adjust_memory limit requested =
     (if mem_maximum requested = None then requested\<lparr>mem_maximum := Some limit\<rparr> else requested)"

definition validate_memory :: "u32 \<Rightarrow> memory_type \<Rightarrow> string + unit" where
  "validate_memory limit ty =
     (if mem_minimum ty > limit then Inl ''Minimum limit exceeds the allowed memory limit''
      else case mem_maximum ty of
        Some mx \<Rightarrow> (if mx > limit then Inl ''Maximum limit exceeds the allowed memory limit''
                    else Inr ())
      | None \<Rightarrow> Inl ''Maximum limit unset'')"

text \<open>
  \<^verbatim>\<open>create_host_memory\<close> and \<^verbatim>\<open>create_vm_memory\<close>: adjust, validate, then hand the adjusted type to the
  base tunables, which are Wasmer's (\<open>base\<close>).
\<close>

definition create_memory ::
  "(memory_type \<Rightarrow> string + 'mem) \<Rightarrow> u32 \<Rightarrow> memory_type \<Rightarrow> string + 'mem" where
  "create_memory base limit ty =
     (let adjusted = adjust_memory limit ty
      in case validate_memory limit adjusted of Inl e \<Rightarrow> Inl e | Inr _ \<Rightarrow> base adjusted)"

section \<open>Properties\<close>


text \<open>C32: The memory limit holds: a contract memory is only created with a minimum and a maximum
  within the limit, a request without a maximum gets the limit as its maximum, and the limit never
  exceeds the 65536 pages of the WebAssembly address space.\<close>

theorem memory_limit_enforced:
  assumes "create_memory base (limit_pages limit) ty = Inr mem"
  shows "\<exists>adjusted mx. base adjusted = Inr mem \<and> mem_minimum adjusted = mem_minimum ty \<and>
    mem_minimum adjusted \<le> limit_pages limit \<and> mem_maximum adjusted = Some mx \<and>
    mx \<le> limit_pages limit \<and> limit_pages limit \<le> 65536 \<and>
    (mem_maximum ty = None \<longrightarrow> mx = limit_pages limit)"
proof -
  have "limit_pages limit \<le> 65536"
    by (simp add: limit_pages_def Let_def)
  then show ?thesis
    using assms
    by (auto simp: create_memory_def validate_memory_def adjust_memory_def Let_def
        split: if_splits option.splits sum.splits)
qed

theorem memory_limit_enforced_witness:
  "\<exists>mem adjusted mx. create_memory Inr (limit_pages 1048576) \<lparr>mem_minimum = 1, mem_maximum = None\<rparr> =
      (Inr mem :: string + memory_type) \<and>
    (Inr adjusted :: string + memory_type) = Inr mem \<and> mem_minimum adjusted = 1 \<and>
    mem_maximum adjusted = Some mx \<and> mx = limit_pages 1048576 \<and> limit_pages 1048576 = 16"
proof -
  have pages: "limit_pages 1048576 = 16"
    by (simp add: limit_pages_def WASM_PAGE_SIZE_def U32_MAX_def)
  have run: "create_memory Inr (limit_pages 1048576) \<lparr>mem_minimum = 1, mem_maximum = None\<rparr> =
      (Inr \<lparr>mem_minimum = 1, mem_maximum = Some 16\<rparr> :: string + memory_type)"
    by (simp add: create_memory_def adjust_memory_def validate_memory_def pages)
  from memory_limit_enforced[OF run] run pages show ?thesis
    by auto
qed

text \<open>
  What the directory promises: a stored module is loaded again and leaves the metadata files alone;
  opening a file keeps what it holds; a write replaces the bytes it covers and keeps the rest.
\<close>

definition fs_laws :: "('c, 'm) wasmer_ops \<Rightarrow> bool" where
  "fs_laws M \<longleftrightarrow>
     (\<forall>c a m c' st. fs_store M c a m = Some c' \<longrightarrow>
        fs_load M c' st a = Some m \<and> file_read M c' = file_read M c) \<and>
     (\<forall>c a c'. file_open M c a = Some c' \<longrightarrow> fs_load M c' = fs_load M c \<and>
        file_read M c' = (file_read M c)(a := Some (case file_read M c a of Some bs \<Rightarrow> bs | None \<Rightarrow> []))) \<and>
     (\<forall>c a bs old c'. file_read M c a = Some old \<longrightarrow> file_write M c a bs = (True, c') \<longrightarrow>
        fs_load M c' = fs_load M c \<and> file_read M c' = (file_read M c)(a := Some (bs @ drop (length bs) old)))"



text \<open>A directory as two maps, for the witness.\<close>

type_synonym dir = "(public_address \<Rightarrow> nat option) \<times> (public_address \<Rightarrow> bytes option)"

definition dir_ops :: "(dir, nat) wasmer_ops" where
  "dir_ops =
     \<lparr>fs_new = (\<lambda>path. Some (\<lambda>_. None, \<lambda>_. None)),
      fs_load = (\<lambda>c st a. fst c a),
      fs_store = (\<lambda>c a m. Some ((fst c)(a \<mapsto> m), snd c)),
      dir_exists = (\<lambda>c. True), dir_create = Some,
      file_read = (\<lambda>c a. snd c a),
      file_open = (\<lambda>c a. Some (fst c, (snd c)(a \<mapsto> (case snd c a of Some bs \<Rightarrow> bs | None \<Rightarrow> [])))),
      file_write = (\<lambda>c a bs. case snd c a of
          Some old \<Rightarrow> (True, (fst c, (snd c)(a \<mapsto> bs @ drop (length bs) old)))
        | None \<Rightarrow> (False, c)),
      wasm_from_binary = (\<lambda>st bs. Inr (length bs)),
      wasm_from_binary_unchecked = (\<lambda>st bs. Inr (length bs)),
      wasm_exported_functions = (\<lambda>m. [''entrypoint'']),
      wasm_instance_with_empty_imports = (\<lambda>st m. True),
      wasm_entrypoint_is_nullary = (\<lambda>m. True)\<rparr>"



text \<open>C34: A metadata file that could not be written brings the runtime down. When the disk refuses the
  twelve bytes after the file was created, storing the module reports an error, which the caller
  ignores, and leaves an empty file behind; every later load of that contract panics on it instead of
  compiling the contract again.\<close>

theorem unwritten_metadata_panics:
  assumes "fs_laws M" "file_read M c address = None" "fs_store M c address m = Some c1"
    "file_open M c1 address = Some c2" "file_write M c2 address bs = (False, c2)"
    "bs = metadata_to_bytes \<lparr>md_cbi_version = CBI_VERSION, md_bytecode_length = len\<rparr>"
  shows "cache_store M c address m len = (False, c2) \<and> cache_load M c2 st address = None"
proof -
  have "fs_load M c2 st address = Some m" "file_read M c2 address = Some []"
    using assms(1-4) unfolding fs_laws_def by auto
  then show ?thesis
    using assms(3-6) by (simp add: cache_store_def storage_set_metadata_def cache_load_def storage_metadata_def
        metadata_from_bytes_def)
qed

definition full_disk :: "(dir, nat) wasmer_ops" where
  "full_disk = dir_ops\<lparr>file_write := (\<lambda>c a bs. (False, c))\<rparr>"

theorem unwritten_metadata_panics_witness:
  "cache_load full_disk (snd (cache_store full_disk (\<lambda>_. None, \<lambda>_. None) 5 42 300)) None 5 = None"
proof -
  let ?c = "([5 \<mapsto> 42], [5 \<mapsto> []])"
  have laws: "fs_laws full_disk"
    by (simp add: fs_laws_def full_disk_def dir_ops_def)
  have "cache_store full_disk (\<lambda>_. None, \<lambda>_. None) 5 42 300 = (False, ?c) \<and> cache_load full_disk ?c None 5 = None"
    by (rule unwritten_metadata_panics[OF laws, where ?c1.0 = "([5 \<mapsto> 42], \<lambda>_. None)"])
      (simp_all add: full_disk_def dir_ops_def)
  then show ?thesis
    by simp
qed

end
