(* ===== verification/Gas_Operations.thy ===== *)
theory Gas_Operations
  imports Gas_Constants World_State_Commit Receipts Contract_Module
begin

text \<open>
  The chargeable operations of \<^verbatim>\<open>src/gas/operations.rs\<close> that act on the world state cache, on the
  command output and on contract modules. Each returns its value with the gas it costs
  (\<^verbatim>\<open>OperationReceipt\<close>) and the cache it leaves; \<open>None\<close> is a panic of the cache. The operations of
  the Wasm memory and the hash functions are in the host function layer.
\<close>

type_synonym 'a operation_receipt = "'a \<times> cost_change"

section \<open>Storage keys\<close>

definition PUBLIC_ADDRESS_LEN :: usize where
  [gas_consts]: "PUBLIC_ADDRESS_LEN = 32"

definition storage_trie_traversed_key_len :: "txn_version \<Rightarrow> public_address \<Rightarrow> bytes \<Rightarrow> usize" where
  "storage_trie_traversed_key_len ver address key =
     (case ver of
        V1 \<Rightarrow> ACCOUNT_TRIE_KEY_LENGTH + PUBLIC_ADDRESS_LEN + length key
      | V2 \<Rightarrow> ACCOUNT_TRIE_KEY_LENGTH + length key)"

section \<open>Reads\<close>

definition op_ws_storage_data ::
  "'w ws_ops \<Rightarrow> txn_version \<Rightarrow> 'w world_state_cache \<Rightarrow> public_address \<Rightarrow> bytes \<Rightarrow>
   (bytes option operation_receipt \<times> 'w world_state_cache) option" where
  "op_ws_storage_data W ver s address key = do {
     (value, s) \<leftarrow> wsc_storage_data W s address key;
     let traversed_key_len = storage_trie_traversed_key_len ver address key;
     let get_cost = cc_deduct (saturating_add (get_cost_traverse traversed_key_len)
           (get_cost_read (case value of Some v \<Rightarrow> cache_len_bytes v | None \<Rightarrow> 0)));
     Some ((value, get_cost), s)
   }"

definition op_ws_balance ::
  "'w ws_ops \<Rightarrow> 'w world_state_cache \<Rightarrow> public_address \<Rightarrow>
   (u64 operation_receipt \<times> 'w world_state_cache) option" where
  "op_ws_balance W s address = do {
     (value, s) \<leftarrow> wsc_balance W s address;
     let get_cost = cc_deduct (saturating_add (get_cost_traverse ACCOUNT_TRIE_KEY_LENGTH)
           (get_cost_read (cache_len_u64 value)));
     Some ((value, get_cost), s)
   }"

definition op_ws_cbi_version ::
  "'w ws_ops \<Rightarrow> 'w world_state_cache \<Rightarrow> public_address \<Rightarrow>
   (u32 option operation_receipt \<times> 'w world_state_cache) option" where
  "op_ws_cbi_version W s address = do {
     (value, s) \<leftarrow> wsc_cbi_version W s address;
     let get_cost = cc_deduct (saturating_add (get_cost_traverse ACCOUNT_TRIE_KEY_LENGTH)
           (get_cost_read (case value of Some v \<Rightarrow> cache_len_u32 v | None \<Rightarrow> 0)));
     Some ((value, get_cost), s)
   }"

definition op_ws_cached_contract_code ::
  "'w ws_ops \<Rightarrow> 'w world_state_cache \<Rightarrow> public_address \<Rightarrow>
   (bytes option operation_receipt \<times> 'w world_state_cache) option" where
  "op_ws_cached_contract_code W s address = do {
     (value, s) \<leftarrow> wsc_contract_code W s address;
     let get_cost = cc_deduct (discount_code_read
           (saturating_add (get_cost_traverse ACCOUNT_TRIE_KEY_LENGTH)
             (get_cost_read (case value of Some v \<Rightarrow> cache_len_bytes v | None \<Rightarrow> 0))));
     Some ((value, get_cost), s)
   }"

definition op_ws_contains_storage_data ::
  "'w ws_ops \<Rightarrow> txn_version \<Rightarrow> 'w world_state_cache \<Rightarrow> public_address \<Rightarrow> bytes \<Rightarrow>
   bool operation_receipt option" where
  "op_ws_contains_storage_data W ver s address key = do {
     ret \<leftarrow> wsc_contains_storage_data W s address key;
     Some (ret, cc_deduct (get_cost_traverse (storage_trie_traversed_key_len ver address key)))
   }"

definition op_ws_cached_contract ::
  "'w ws_ops \<Rightarrow> ('c, 'm) wasmer_ops \<Rightarrow> 'w world_state_cache \<Rightarrow> 'c smart_contract_context \<Rightarrow>
   public_address \<Rightarrow>
   ('m contract_module option operation_receipt \<times> 'w world_state_cache \<times> 'c smart_contract_context)
     option" where
  "op_ws_cached_contract W M s sc address = do {
     cached \<leftarrow> module_from_cache M address sc;
     case cached of
       Some contract_module \<Rightarrow>
         let contract_get_cost = cc_deduct (discount_code_read
               (saturating_add (get_cost_traverse ACCOUNT_TRIE_KEY_LENGTH)
                 (get_cost_read (module_bytecode_length contract_module))))
         in Some ((Some contract_module, contract_get_cost), s, sc)
     | None \<Rightarrow> do {
         ((value, contract_get_cost), s) \<leftarrow> op_ws_cached_contract_code W s address;
         case value of
           None \<Rightarrow> Some ((None, contract_get_cost), s, sc)
         | Some contract_code \<Rightarrow>
             let (m, sc) = module_from_bytecode_unchecked M address contract_code sc
             in Some ((m, contract_get_cost), s, sc)
       }
   }"

section \<open>Writes\<close>

definition op_ws_set_storage_data ::
  "'w ws_ops \<Rightarrow> txn_version \<Rightarrow> 'w world_state_cache \<Rightarrow> public_address \<Rightarrow> bytes \<Rightarrow> bytes \<Rightarrow>
   (unit operation_receipt \<times> 'w world_state_cache) option" where
  "op_ws_set_storage_data W ver s address key value = do {
     let new_val_len = cache_len_bytes value;
     ((old_val, get_cost), s) \<leftarrow> op_ws_storage_data W ver s address key;
     let old_val_len = (case old_val of Some v \<Rightarrow> cache_len_bytes v | None \<Rightarrow> 0);
     let s = wsc_set_storage_data s address key value;
     let traversed_key_len = storage_trie_traversed_key_len ver address key;
     let cost = cc_add (cc_add (cc_add get_cost
           (cc_reward (set_cost_delete_old_value traversed_key_len old_val_len new_val_len)))
           (cc_deduct (set_cost_write_new_value new_val_len)))
           (cc_deduct (set_cost_rehash traversed_key_len));
     Some (((), cost), s)
   }"

text \<open>The cost of an account trie write after its read was charged.\<close>

definition account_set_cost :: "usize \<Rightarrow> usize \<Rightarrow> cost_change" where
  "account_set_cost old_val_len new_val_len =
     cc_add (cc_add
       (cc_reward (set_cost_delete_old_value ACCOUNT_TRIE_KEY_LENGTH old_val_len new_val_len))
       (cc_deduct (set_cost_write_new_value new_val_len)))
       (cc_deduct (set_cost_rehash ACCOUNT_TRIE_KEY_LENGTH))"

definition op_ws_set_balance ::
  "'w ws_ops \<Rightarrow> 'w world_state_cache \<Rightarrow> public_address \<Rightarrow> u64 \<Rightarrow>
   (unit operation_receipt \<times> 'w world_state_cache) option" where
  "op_ws_set_balance W s address balance = do {
     ((old_val, get_cost), s) \<leftarrow> op_ws_balance W s address;
     let set_cost = account_set_cost (cache_len_u64 old_val) (cache_len_u64 balance);
     Some (((), cc_add get_cost set_cost), wsc_set_balance s address balance)
   }"

definition op_ws_set_cbi_version ::
  "'w ws_ops \<Rightarrow> 'w world_state_cache \<Rightarrow> public_address \<Rightarrow> u32 \<Rightarrow>
   (unit operation_receipt \<times> 'w world_state_cache) option" where
  "op_ws_set_cbi_version W s address ver = do {
     ((old_val, get_cost), s) \<leftarrow> op_ws_cbi_version W s address;
     let set_cost = account_set_cost (case old_val of Some v \<Rightarrow> cache_len_u32 v | None \<Rightarrow> 0)
           (cache_len_u32 ver);
     Some (((), cc_add get_cost set_cost), wsc_set_cbi_version s address ver)
   }"

definition op_ws_set_contract_code ::
  "'w ws_ops \<Rightarrow> 'w world_state_cache \<Rightarrow> public_address \<Rightarrow> bytes \<Rightarrow>
   (unit operation_receipt \<times> 'w world_state_cache) option" where
  "op_ws_set_contract_code W s address code = do {
     ((old_val, get_cost), s) \<leftarrow> op_ws_cached_contract_code W s address;
     let set_cost = account_set_cost (case old_val of Some v \<Rightarrow> cache_len_bytes v | None \<Rightarrow> 0)
           (cache_len_bytes code);
     Some (((), cc_add get_cost set_cost), wsc_set_contract_code s address code)
   }"

section \<open>Command output\<close>

definition op_append_log :: "log list \<Rightarrow> log \<Rightarrow> unit operation_receipt \<times> log list" where
  "op_append_log logs l =
     (((), cc_deduct (blockchain_log_cost (length (log_topic l)) (length (log_value l)))), logs @ [l])"

definition op_set_return_value :: "bytes \<Rightarrow> unit operation_receipt \<times> bytes" where
  "op_set_return_value return_value =
     (((), cc_deduct (blockchain_storage_cost (length return_value))), return_value)"

definition op_set_amount_withdrawn :: "u64 \<Rightarrow> unit operation_receipt \<times> u64" where
  "op_set_amount_withdrawn amount = (((), cc_deduct (blockchain_storage_cost 8)), amount)"

definition op_set_amount_staked :: "u64 \<Rightarrow> unit operation_receipt \<times> u64" where
  "op_set_amount_staked amount = (((), cc_deduct (blockchain_storage_cost 8)), amount)"

definition op_set_amount_unstaked :: "u64 \<Rightarrow> unit operation_receipt \<times> u64" where
  "op_set_amount_unstaked amount = (((), cc_deduct (blockchain_storage_cost 8)), amount)"

section \<open>What the operations may change\<close>

text \<open>
  \<open>wsc_frame W A C S s s'\<close>: from \<open>s\<close> to \<open>s'\<close> a reader sees other balances only at addresses in \<open>A\<close>,
  other contracts only in \<open>C\<close> and other storage only in \<open>S\<close>; the world state below is untouched and
  the cache invariant kept.
\<close>

definition wsc_frame ::
  "'w ws_ops \<Rightarrow> public_address set \<Rightarrow> public_address set \<Rightarrow> public_address set \<Rightarrow>
   'w world_state_cache \<Rightarrow> 'w world_state_cache \<Rightarrow> bool" where
  "wsc_frame W A C S s s' \<longleftrightarrow>
     wsc_step W s s' \<and>
     (\<forall>a. a \<notin> A \<longrightarrow> wsc_balance_view W s' a = wsc_balance_view W s a) \<and>
     (\<forall>a. a \<notin> C \<longrightarrow> wsc_cbi_view W s' a = wsc_cbi_view W s a \<and>
                     wsc_code_view W s' a = wsc_code_view W s a) \<and>
     (\<forall>a k. a \<notin> S \<longrightarrow> wsc_storage_view W s' (a, k) = wsc_storage_view W s (a, k))"

lemma wsc_frame_refl [simp]: "wsc_frame W A C S s s"
  by (simp add: wsc_frame_def)

lemma wsc_frame_trans:
  "wsc_frame W A C S s t \<Longrightarrow> wsc_frame W A C S t u \<Longrightarrow> wsc_frame W A C S s u"
  by (auto simp: wsc_frame_def intro: wsc_step_trans)

lemma wsc_frame_mono:
  "wsc_frame W A C S s t \<Longrightarrow> A \<subseteq> A' \<Longrightarrow> C \<subseteq> C' \<Longrightarrow> S \<subseteq> S' \<Longrightarrow> wsc_frame W A' C' S' s t"
  by (auto simp: wsc_frame_def subset_iff)

lemma wsc_frame_step: "wsc_frame W A C S s t \<Longrightarrow> wsc_step W s t"
  by (simp add: wsc_frame_def)

text \<open>Reads change nothing that a reader sees.\<close>

lemma wsc_frame_read:
  assumes "wsc_step W s s'" "writes (balances s') = writes (balances s)"
    "writes (cbi_versions s') = writes (cbi_versions s)"
    "writes (contract_codes s') = writes (contract_codes s)"
    "writes (storage_cache s') = writes (storage_cache s)"
  shows "wsc_frame W A C S s s'"
proof -
  have "ws s' = ws s"
    using assms(1) by (rule wsc_step_ws)
  then show ?thesis
    using assms by (simp add: wsc_frame_def wsc_views cd_view_def split: option.splits)
qed

lemma wsc_frame_balance: "wsc_balance W s a = Some (b, s') \<Longrightarrow> wsc_frame W A C S s s'"
  by (rule wsc_frame_read, erule wsc_step_balance)
    (auto simp: wsc_balance_def bind_convs dest: cd_get_writes)

lemma wsc_frame_cbi: "wsc_cbi_version W s a = Some (b, s') \<Longrightarrow> wsc_frame W A C S s s'"
  by (rule wsc_frame_read, erule wsc_step_cbi_version)
    (auto simp: wsc_cbi_version_def bind_convs dest: cd_get_writes)

lemma wsc_frame_code: "wsc_contract_code W s a = Some (b, s') \<Longrightarrow> wsc_frame W A C S s s'"
  by (rule wsc_frame_read, erule wsc_step_contract_code)
    (auto simp: wsc_contract_code_def bind_convs dest: cd_get_writes)

lemma wsc_frame_storage: "wsc_storage_data W s a k = Some (b, s') \<Longrightarrow> wsc_frame W A C S s s'"
  by (rule wsc_frame_read, erule wsc_step_storage_data)
    (auto simp: wsc_storage_data_def bind_convs dest: cd_get_writes)

lemma wsc_frame_sets [simp]:
  "a \<in> A \<Longrightarrow> wsc_frame W A C S s (wsc_set_balance s a b)"
  "a \<in> C \<Longrightarrow> wsc_frame W A C S s (wsc_set_cbi_version s a v)"
  "a \<in> C \<Longrightarrow> wsc_frame W A C S s (wsc_set_contract_code s a c)"
  "a \<in> S \<Longrightarrow> wsc_frame W A C S s (wsc_set_storage_data s a k d)"
  by (auto simp: wsc_frame_def wsc_step_def wsc_inv_defs wsc_views cd_view_def wsc_ops
      split: option.splits)

lemmas wsc_frames = wsc_frame_balance wsc_frame_cbi wsc_frame_code wsc_frame_storage

lemma op_frame_balance:
  "op_ws_balance W s a = Some (r, s') \<Longrightarrow> wsc_frame W A C S s s'"
  by (auto simp: op_ws_balance_def bind_convs intro: wsc_frames)

lemma op_frame_cbi: "op_ws_cbi_version W s a = Some (r, s') \<Longrightarrow> wsc_frame W A C S s s'"
  by (auto simp: op_ws_cbi_version_def bind_convs intro: wsc_frames)

lemma op_frame_code: "op_ws_cached_contract_code W s a = Some (r, s') \<Longrightarrow> wsc_frame W A C S s s'"
  by (auto simp: op_ws_cached_contract_code_def bind_convs intro: wsc_frames)

lemma op_frame_storage: "op_ws_storage_data W ver s a k = Some (r, s') \<Longrightarrow> wsc_frame W A C S s s'"
  by (auto simp: op_ws_storage_data_def bind_convs intro: wsc_frames)

lemma op_frame_cached_contract:
  "op_ws_cached_contract W M s sc a = Some (r, s', sc') \<Longrightarrow> wsc_frame W A C S s s'"
  by (cases "module_from_cache M a sc")
    (auto simp: op_ws_cached_contract_def bind_convs case_prod_beta Let_def
      split: option.split_asm intro: op_frame_code)

lemma op_frame_set_balance:
  "op_ws_set_balance W s a b = Some (r, s') \<Longrightarrow> a \<in> A \<Longrightarrow> wsc_frame W A C S s s'"
  by (auto simp: op_ws_set_balance_def bind_convs intro: wsc_frame_trans[OF op_frame_balance])

lemma op_frame_set_cbi:
  "op_ws_set_cbi_version W s a v = Some (r, s') \<Longrightarrow> a \<in> C \<Longrightarrow> wsc_frame W A C S s s'"
  by (auto simp: op_ws_set_cbi_version_def bind_convs intro: wsc_frame_trans[OF op_frame_cbi])

lemma op_frame_set_code:
  "op_ws_set_contract_code W s a c = Some (r, s') \<Longrightarrow> a \<in> C \<Longrightarrow> wsc_frame W A C S s s'"
  by (auto simp: op_ws_set_contract_code_def bind_convs intro: wsc_frame_trans[OF op_frame_code])

lemma op_frame_set_storage:
  "op_ws_set_storage_data W ver s a k v = Some (r, s') \<Longrightarrow> a \<in> S \<Longrightarrow> wsc_frame W A C S s s'"
  by (auto simp: op_ws_set_storage_data_def bind_convs Let_def
      intro: wsc_frame_trans[OF op_frame_storage])

lemmas op_frames = op_frame_balance op_frame_cbi op_frame_code op_frame_storage
  op_frame_cached_contract op_frame_set_balance op_frame_set_cbi op_frame_set_code
  op_frame_set_storage

section \<open>What the operations answer\<close>

lemma op_balance_view:
  assumes "op_ws_balance W s a = Some ((b, c), s')" "wsc_coherent W s"
  shows "wsc_balance_view W s a = Some b"
  using assms bal.get_answer[OF assms(2), of a "Some b"]
  by (auto simp: op_ws_balance_def bind_convs)

lemma op_set_balance_view:
  assumes "op_ws_set_balance W s a b = Some (r, s')"
  shows "wsc_balance_view W s' a = Some b"
  using assms
  by (auto simp: op_ws_set_balance_def bind_convs wsc_balance_view_def wsc_set_balance_def)

end
