(* ===== verification/Gas_Meter.thy ===== *)
theory Gas_Meter
  imports Gas_Operations
begin

text \<open>
  The gas meter of \<^verbatim>\<open>src/gas/gas_meter.rs\<close>: the gas accounting of a transaction and the facade through
  which commands reach the world state cache and the command output. Every facade method is the
  operation of the same name of \<^verbatim>\<open>operations.rs\<close> with its cost charged to the current command;
  \<open>None\<close> is a panic of the operation.
\<close>

section \<open>The meter\<close>

text \<open>\<^verbatim>\<open>GasUsed\<close> is a cell holding a tally.\<close>

definition gu_chargeable_cost :: "cost_change \<Rightarrow> u64" where
  "gu_chargeable_cost u = fst (net_cost u)"

definition gu_charge :: "cost_change \<Rightarrow> cost_change \<Rightarrow> cost_change" where
  "gu_charge u c = cc_add_assign u c"

record 'w gas_meter =
  gm_version :: txn_version
  gm_gas_limit :: u64
  gas_used_for_txn_inclusion :: u64
  gas_used_for_executed_commands :: u64
  gas_used_for_current_command :: cost_change
  output_cache_of_current_command :: command_output_cache
  ws_cache :: "'w world_state_cache"

definition gm_new :: "txn_version \<Rightarrow> 'w world_state_cache \<Rightarrow> u64 \<Rightarrow> 'w gas_meter" where
  "gm_new ver cache limit =
     \<lparr>gm_version = ver, gm_gas_limit = limit, gas_used_for_txn_inclusion = 0,
      gas_used_for_executed_commands = 0, gas_used_for_current_command = cc_default,
      output_cache_of_current_command = oc_default, ws_cache = cache\<rparr>"

definition total_gas_used_for_executed_commands :: "'w gas_meter \<Rightarrow> u64" where
  "total_gas_used_for_executed_commands g =
     saturating_add (gas_used_for_txn_inclusion g) (gas_used_for_executed_commands g)"

definition total_gas_used :: "'w gas_meter \<Rightarrow> u64" where
  "total_gas_used g =
     saturating_add (total_gas_used_for_executed_commands g)
       (gu_chargeable_cost (gas_used_for_current_command g))"

definition take_current_command_result ::
  "'w gas_meter \<Rightarrow> (u64 \<times> command_output) \<times> 'w gas_meter" where
  "take_current_command_result g =
     (let (command_output, cache) = oc_take (output_cache_of_current_command g);
          gas_used = min (gu_chargeable_cost (gas_used_for_current_command g))
            (saturating_sub (gm_gas_limit g) (total_gas_used_for_executed_commands g))
      in ((gas_used, command_output),
          g\<lparr>output_cache_of_current_command := cache,
            gas_used_for_executed_commands :=
              saturating_add (gas_used_for_executed_commands g) gas_used,
            gas_used_for_current_command := cc_default\<rparr>))"

definition gm_charge :: "'w gas_meter \<Rightarrow> cost_change \<Rightarrow> 'w gas_meter" where
  "gm_charge g c =
     g\<lparr>gas_used_for_current_command := gu_charge (gas_used_for_current_command g) c\<rparr>"

definition manually_charge_gas :: "'w gas_meter \<Rightarrow> u64 \<Rightarrow> 'w gas_meter" where
  "manually_charge_gas g gas = gm_charge g (cc_deduct gas)"

definition charge_txn_pre_exec_inclusion ::
  "'w gas_meter \<Rightarrow> txn_version \<Rightarrow> usize \<Rightarrow> command_kind list \<Rightarrow> cmd_result \<times> 'w gas_meter" where
  "charge_txn_pre_exec_inclusion g ver tx_size kinds =
     (let required_cost = (case ver of V1 \<Rightarrow> tx_inclusion_cost_v1 tx_size kinds
                                     | V2 \<Rightarrow> tx_inclusion_cost_v2 tx_size kinds)
      in if required_cost > gm_gas_limit g then (Inl PreExecutionGasExhausted, g)
         else (Ok, g\<lparr>gas_used_for_txn_inclusion := required_cost\<rparr>))"

section \<open>The facade\<close>

definition gm_set_return_value :: "'w gas_meter \<Rightarrow> bytes \<Rightarrow> 'w gas_meter" where
  "gm_set_return_value g v =
     (let ((_, cost), v') = op_set_return_value v
      in gm_charge (g\<lparr>output_cache_of_current_command :=
           (output_cache_of_current_command g)\<lparr>oc_return_value := Some v'\<rparr>\<rparr>) cost)"

definition gm_set_amount_withdrawn :: "'w gas_meter \<Rightarrow> u64 \<Rightarrow> 'w gas_meter" where
  "gm_set_amount_withdrawn g v =
     (let ((_, cost), v') = op_set_amount_withdrawn v
      in gm_charge (g\<lparr>output_cache_of_current_command :=
           (output_cache_of_current_command g)\<lparr>oc_amount_withdrawn := Some v'\<rparr>\<rparr>) cost)"

definition gm_set_amount_staked :: "'w gas_meter \<Rightarrow> u64 \<Rightarrow> 'w gas_meter" where
  "gm_set_amount_staked g v =
     (let ((_, cost), v') = op_set_amount_staked v
      in gm_charge (g\<lparr>output_cache_of_current_command :=
           (output_cache_of_current_command g)\<lparr>oc_amount_staked := Some v'\<rparr>\<rparr>) cost)"

definition gm_set_amount_unstaked :: "'w gas_meter \<Rightarrow> u64 \<Rightarrow> 'w gas_meter" where
  "gm_set_amount_unstaked g v =
     (let ((_, cost), v') = op_set_amount_unstaked v
      in gm_charge (g\<lparr>output_cache_of_current_command :=
           (output_cache_of_current_command g)\<lparr>oc_amount_unstaked := Some v'\<rparr>\<rparr>) cost)"

definition gm_ws_contains_storage_data ::
  "'w ws_ops \<Rightarrow> 'w gas_meter \<Rightarrow> public_address \<Rightarrow> bytes \<Rightarrow> (bool \<times> 'w gas_meter) option" where
  "gm_ws_contains_storage_data W g address key = do {
     (ret, cost) \<leftarrow> op_ws_contains_storage_data W (gm_version g) (ws_cache g) address key;
     Some (ret, gm_charge g cost)
   }"

definition gm_ws_storage_data ::
  "'w ws_ops \<Rightarrow> 'w gas_meter \<Rightarrow> public_address \<Rightarrow> bytes \<Rightarrow> (bytes option \<times> 'w gas_meter) option" where
  "gm_ws_storage_data W g address key = do {
     ((value, cost), s) \<leftarrow> op_ws_storage_data W (gm_version g) (ws_cache g) address key;
     let g = gm_charge (g\<lparr>ws_cache := s\<rparr>) cost;
     Some (case value of
             None \<Rightarrow> None
           | Some v \<Rightarrow> if v \<noteq> [] then Some v else None, g)
   }"

definition gm_ws_balance ::
  "'w ws_ops \<Rightarrow> 'w gas_meter \<Rightarrow> public_address \<Rightarrow> (u64 \<times> 'w gas_meter) option" where
  "gm_ws_balance W g address = do {
     ((value, cost), s) \<leftarrow> op_ws_balance W (ws_cache g) address;
     Some (value, gm_charge (g\<lparr>ws_cache := s\<rparr>) cost)
   }"

definition gm_ws_cbi_version ::
  "'w ws_ops \<Rightarrow> 'w gas_meter \<Rightarrow> public_address \<Rightarrow> (u32 option \<times> 'w gas_meter) option" where
  "gm_ws_cbi_version W g address = do {
     ((value, cost), s) \<leftarrow> op_ws_cbi_version W (ws_cache g) address;
     Some (value, gm_charge (g\<lparr>ws_cache := s\<rparr>) cost)
   }"

definition gm_ws_cached_contract ::
  "'w ws_ops \<Rightarrow> ('c, 'm) wasmer_ops \<Rightarrow> 'w gas_meter \<Rightarrow> public_address \<Rightarrow> 'c smart_contract_context \<Rightarrow>
   ('m contract_module option \<times> 'w gas_meter \<times> 'c smart_contract_context) option" where
  "gm_ws_cached_contract W M g address sc = do {
     ((value, cost), s, sc) \<leftarrow> op_ws_cached_contract W M (ws_cache g) sc address;
     Some (value, gm_charge (g\<lparr>ws_cache := s\<rparr>) cost, sc)
   }"

definition gm_ws_set_storage_data ::
  "'w ws_ops \<Rightarrow> 'w gas_meter \<Rightarrow> public_address \<Rightarrow> bytes \<Rightarrow> bytes \<Rightarrow> 'w gas_meter option" where
  "gm_ws_set_storage_data W g address key value = do {
     ((_, cost), s) \<leftarrow> op_ws_set_storage_data W (gm_version g) (ws_cache g) address key value;
     Some (gm_charge (g\<lparr>ws_cache := s\<rparr>) cost)
   }"

definition gm_ws_set_balance ::
  "'w ws_ops \<Rightarrow> 'w gas_meter \<Rightarrow> public_address \<Rightarrow> u64 \<Rightarrow> 'w gas_meter option" where
  "gm_ws_set_balance W g address value = do {
     ((_, cost), s) \<leftarrow> op_ws_set_balance W (ws_cache g) address value;
     Some (gm_charge (g\<lparr>ws_cache := s\<rparr>) cost)
   }"

definition gm_ws_set_cbi_version ::
  "'w ws_ops \<Rightarrow> 'w gas_meter \<Rightarrow> public_address \<Rightarrow> u32 \<Rightarrow> 'w gas_meter option" where
  "gm_ws_set_cbi_version W g address ver = do {
     ((_, cost), s) \<leftarrow> op_ws_set_cbi_version W (ws_cache g) address ver;
     Some (gm_charge (g\<lparr>ws_cache := s\<rparr>) cost)
   }"

definition gm_ws_set_code ::
  "'w ws_ops \<Rightarrow> 'w gas_meter \<Rightarrow> public_address \<Rightarrow> bytes \<Rightarrow> 'w gas_meter option" where
  "gm_ws_set_code W g address code = do {
     ((_, cost), s) \<leftarrow> op_ws_set_contract_code W (ws_cache g) address code;
     Some (gm_charge (g\<lparr>ws_cache := s\<rparr>) cost)
   }"

lemmas gm_op_defs = gm_ws_contains_storage_data_def gm_ws_storage_data_def gm_ws_balance_def
  gm_ws_cbi_version_def gm_ws_cached_contract_def gm_ws_set_storage_data_def gm_ws_set_balance_def
  gm_ws_set_cbi_version_def gm_ws_set_code_def

lemmas gm_set_defs = gm_set_return_value_def gm_set_amount_withdrawn_def gm_set_amount_staked_def
  gm_set_amount_unstaked_def op_set_return_value_def op_set_amount_withdrawn_def
  op_set_amount_staked_def op_set_amount_unstaked_def

section \<open>What the meter's operations may change\<close>

text \<open>
  \<open>gm_frame W A C S g g'\<close>: from \<open>g\<close> to \<open>g'\<close> only the tally and the output of the current command
  and, within the frame of the cache, the pending writes change.
\<close>

definition gm_frame ::
  "'w ws_ops \<Rightarrow> public_address set \<Rightarrow> public_address set \<Rightarrow> public_address set \<Rightarrow>
   'w gas_meter \<Rightarrow> 'w gas_meter \<Rightarrow> bool" where
  "gm_frame W A C S g g' \<longleftrightarrow>
     wsc_frame W A C S (ws_cache g) (ws_cache g') \<and>
     gm_version g' = gm_version g \<and> gm_gas_limit g' = gm_gas_limit g \<and>
     gas_used_for_txn_inclusion g' = gas_used_for_txn_inclusion g \<and>
     gas_used_for_executed_commands g' = gas_used_for_executed_commands g"

lemma gm_frame_refl [simp]: "gm_frame W A C S g g"
  by (simp add: gm_frame_def)

lemma gm_frame_trans:
  "gm_frame W A C S g h \<Longrightarrow> gm_frame W A C S h k \<Longrightarrow> gm_frame W A C S g k"
  by (auto simp: gm_frame_def intro: wsc_frame_trans)

lemma gm_frame_mono:
  "gm_frame W A C S g h \<Longrightarrow> A \<subseteq> A' \<Longrightarrow> C \<subseteq> C' \<Longrightarrow> S \<subseteq> S' \<Longrightarrow> gm_frame W A' C' S' g h"
  by (auto simp: gm_frame_def intro: wsc_frame_mono)

lemma gm_frame_charge [simp]: "gm_frame W A C S g (gm_charge g' c) \<longleftrightarrow> gm_frame W A C S g g'"
  by (simp add: gm_frame_def gm_charge_def)

lemma gm_frame_manually_charge [simp]:
  "gm_frame W A C S g (manually_charge_gas g' c) \<longleftrightarrow> gm_frame W A C S g g'"
  by (simp add: manually_charge_gas_def)

lemma gm_frame_output [simp]:
  "gm_frame W A C S g (g'\<lparr>output_cache_of_current_command := c\<rparr>) \<longleftrightarrow> gm_frame W A C S g g'"
  by (simp add: gm_frame_def)

lemma gm_frame_set_outputs [simp]:
  "gm_frame W A C S g (gm_set_return_value g' rv) \<longleftrightarrow> gm_frame W A C S g g'"
  "gm_frame W A C S g (gm_set_amount_withdrawn g' v) \<longleftrightarrow> gm_frame W A C S g g'"
  "gm_frame W A C S g (gm_set_amount_staked g' v) \<longleftrightarrow> gm_frame W A C S g g'"
  "gm_frame W A C S g (gm_set_amount_unstaked g' v) \<longleftrightarrow> gm_frame W A C S g g'"
  by (simp_all add: gm_set_defs)

lemma gm_frame_cache [simp]:
  "gm_frame W A C S g (g\<lparr>ws_cache := s\<rparr>) \<longleftrightarrow> wsc_frame W A C S (ws_cache g) s"
  by (simp add: gm_frame_def)

lemma gm_frame_reads:
  "gm_ws_contains_storage_data W g a k = Some (b, g') \<Longrightarrow> gm_frame W A C S g g'"
  "gm_ws_storage_data W g a k = Some (v, g') \<Longrightarrow> gm_frame W A C S g g'"
  "gm_ws_balance W g a = Some (n, g') \<Longrightarrow> gm_frame W A C S g g'"
  "gm_ws_cbi_version W g a = Some (u, g') \<Longrightarrow> gm_frame W A C S g g'"
  "gm_ws_cached_contract W M g a sc = Some (m, g', sc') \<Longrightarrow> gm_frame W A C S g g'"
  by (auto simp: gm_op_defs bind_convs intro: op_frames)

lemma gm_frame_writes:
  "gm_ws_set_storage_data W g a k v = Some g' \<Longrightarrow> a \<in> S \<Longrightarrow> gm_frame W A C S g g'"
  "gm_ws_set_balance W g a n = Some g' \<Longrightarrow> a \<in> A \<Longrightarrow> gm_frame W A C S g g'"
  "gm_ws_set_cbi_version W g a u = Some g' \<Longrightarrow> a \<in> C \<Longrightarrow> gm_frame W A C S g g'"
  "gm_ws_set_code W g a v = Some g' \<Longrightarrow> a \<in> C \<Longrightarrow> gm_frame W A C S g g'"
  by (auto simp: gm_op_defs bind_convs intro: op_frames)

lemmas gm_frames = gm_frame_reads gm_frame_writes

section \<open>Gas accounting\<close>

text \<open>
  The invariant of the accounting: what is booked so far fits the gas limit, and the limit is a
  64-bit number, so no sum below saturates.
\<close>

definition gm_within_limit :: "'w gas_meter \<Rightarrow> bool" where
  "gm_within_limit g \<longleftrightarrow>
     gas_used_for_txn_inclusion g + gas_used_for_executed_commands g \<le> gm_gas_limit g \<and>
     gm_gas_limit g \<le> U64_MAX"

lemma gm_within_limit_new [simp]: "gm_within_limit (gm_new ver s l) \<longleftrightarrow> l \<le> U64_MAX"
  by (simp add: gm_within_limit_def gm_new_def)

lemma gm_within_limit_frame: "gm_frame W A C S g g' \<Longrightarrow> gm_within_limit g' = gm_within_limit g"
  by (simp add: gm_frame_def gm_within_limit_def)

lemma executed_exact:
  "gm_within_limit g \<Longrightarrow>
   total_gas_used_for_executed_commands g =
     gas_used_for_txn_inclusion g + gas_used_for_executed_commands g"
  by (simp add: gm_within_limit_def total_gas_used_for_executed_commands_def saturating_add_exact)

lemma executed_le_limit:
  "gm_within_limit g \<Longrightarrow> total_gas_used_for_executed_commands g \<le> gm_gas_limit g"
  by (simp add: executed_exact) (simp add: gm_within_limit_def)

lemma executed_frame:
  "gm_frame W A C S g g' \<Longrightarrow>
   total_gas_used_for_executed_commands g' = total_gas_used_for_executed_commands g"
  by (simp add: gm_frame_def total_gas_used_for_executed_commands_def)

lemma charge_pre_exec_limit:
  assumes "charge_txn_pre_exec_inclusion g ver n ks = (r, g')" "gm_gas_limit g \<le> U64_MAX"
    "gas_used_for_executed_commands g = 0" "gas_used_for_txn_inclusion g = 0"
  shows "gm_within_limit g'"
  using assms
  by (auto simp: charge_txn_pre_exec_inclusion_def Let_def gm_within_limit_def split: if_splits)

end
