(* ===== verification/Network_Account.thy ===== *)
theory Network_Account
  imports Gas_Meter
begin

text \<open>
  The network account. Its typed views (pools, deposits, validator sets) belong to
  \<^verbatim>\<open>pchain_world_state\<close> and are a parameter of the model: every method of those views is a program
  over the four operations of the trait \<^verbatim>\<open>NetworkAccountStorage\<close>, and the record \<open>network_account\<close>
  holds one program per method that the source calls. The source gives two implementations of the
  trait, the charging one of the gas meter (\<^verbatim>\<open>src/gas/gas_meter.rs\<close>) and the gas-free one of the
  protocol commands (\<^verbatim>\<open>src/commands/protocol.rs\<close>); both are defined here, and the locale
  \<open>network_account_storage\<close> states what a client of the trait may rely on.
\<close>

section \<open>Programs over the storage\<close>

datatype 'a na_prog =
    NA_Return 'a
  | NA_Panic
  | NA_Get bytes "bytes option \<Rightarrow> 'a na_prog"
  | NA_Contains bytes "bool \<Rightarrow> 'a na_prog"
  | NA_Set bytes bytes "'a na_prog"
  | NA_Delete bytes "'a na_prog"

text \<open>The trait \<^verbatim>\<open>NetworkAccountStorage\<close> as a record of its methods.\<close>

record 's nas =
  nas_get :: "'s \<Rightarrow> bytes \<Rightarrow> (bytes option \<times> 's) option"
  nas_contains :: "'s \<Rightarrow> bytes \<Rightarrow> (bool \<times> 's) option"
  nas_set :: "'s \<Rightarrow> bytes \<Rightarrow> bytes \<Rightarrow> 's option"
  nas_delete :: "'s \<Rightarrow> bytes \<Rightarrow> 's option"

primrec run_na :: "'s nas \<Rightarrow> 'a na_prog \<Rightarrow> 's \<Rightarrow> ('a \<times> 's) option" where
  "run_na I (NA_Return a) s = Some (a, s)"
| "run_na I NA_Panic s = None"
| "run_na I (NA_Get k c) s = nas_get I s k \<bind> (\<lambda>(v, s). run_na I (c v) s)"
| "run_na I (NA_Contains k c) s = nas_contains I s k \<bind> (\<lambda>(v, s). run_na I (c v) s)"
| "run_na I (NA_Set k v c) s = nas_set I s k v \<bind> run_na I c"
| "run_na I (NA_Delete k c) s = nas_delete I s k \<bind> run_na I c"

section \<open>The views of the network account\<close>

record stake =
  owner :: public_address
  stake_power :: u64

record pool =
  pl_operator :: public_address
  pl_commission_rate :: u8
  pl_power :: u64
  pl_operator_stake :: "stake option"

record pool_key =
  pk_operator :: public_address
  pk_power :: u64

text \<open>
  A pool addressed by a handle \<open>'h\<close>: the operator in the next validator set, an opaque handle in
  the (previous) validator set. \<open>insert_extract\<close> answers \<open>Inl\<close> for an error and else the evicted
  element, if any.
\<close>

record 'h pool_api =
  p_exists :: "'h \<Rightarrow> bool na_prog"
  p_operator :: "'h \<Rightarrow> public_address option na_prog"
  p_power :: "'h \<Rightarrow> u64 option na_prog"
  p_commission_rate :: "'h \<Rightarrow> u8 option na_prog"
  p_operator_stake :: "'h \<Rightarrow> stake option option na_prog"
  p_set_operator :: "'h \<Rightarrow> public_address \<Rightarrow> unit na_prog"
  p_set_power :: "'h \<Rightarrow> u64 \<Rightarrow> unit na_prog"
  p_set_commission_rate :: "'h \<Rightarrow> u8 \<Rightarrow> unit na_prog"
  p_set_operator_stake :: "'h \<Rightarrow> stake option \<Rightarrow> unit na_prog"
  p_delete :: "'h \<Rightarrow> unit na_prog"
  ds_length :: "'h \<Rightarrow> u32 na_prog"
  ds_get :: "'h \<Rightarrow> u32 \<Rightarrow> stake option na_prog"
  ds_get_by :: "'h \<Rightarrow> public_address \<Rightarrow> stake option na_prog"
  ds_unordered_values :: "'h \<Rightarrow> stake list na_prog"
  ds_change_key :: "'h \<Rightarrow> stake \<Rightarrow> unit na_prog"
  ds_insert_extract :: "'h \<Rightarrow> stake \<Rightarrow> (unit + stake option) na_prog"
  ds_remove_item :: "'h \<Rightarrow> public_address \<Rightarrow> unit na_prog"

text \<open>Deposits are addressed by the pool's operator and the deposit's owner.\<close>

record deposits_api =
  d_exists :: "public_address \<Rightarrow> public_address \<Rightarrow> bool na_prog"
  d_balance :: "public_address \<Rightarrow> public_address \<Rightarrow> u64 option na_prog"
  d_auto_stake_rewards :: "public_address \<Rightarrow> public_address \<Rightarrow> bool option na_prog"
  d_set_balance :: "public_address \<Rightarrow> public_address \<Rightarrow> u64 \<Rightarrow> unit na_prog"
  d_set_auto_stake_rewards :: "public_address \<Rightarrow> public_address \<Rightarrow> bool \<Rightarrow> unit na_prog"
  d_delete :: "public_address \<Rightarrow> public_address \<Rightarrow> unit na_prog"

record nvp_api =
  nvp_length :: "u32 na_prog"
  nvp_get :: "u32 \<Rightarrow> pool_key option na_prog"
  nvp_get_by :: "public_address \<Rightarrow> pool_key option na_prog"
  nvp_change_key :: "pool_key \<Rightarrow> unit na_prog"
  nvp_insert_extract :: "pool_key \<Rightarrow> (unit + pool_key option) na_prog"
  nvp_remove_item :: "public_address \<Rightarrow> unit na_prog"

type_synonym pool_handle = bytes

record validator_set_api =
  vs_length :: "u32 na_prog"
  vs_pool_at :: "u32 \<Rightarrow> pool_handle option na_prog"
  vs_pool :: "public_address \<Rightarrow> pool_handle option na_prog"
  vs_clear :: "unit na_prog"
  vs_push :: "pool \<Rightarrow> stake list \<Rightarrow> unit na_prog"

record network_account =
  NETWORK_ADDRESS :: public_address
  pools :: "public_address pool_api"
  vs_pools :: "pool_handle pool_api"
  deposits :: deposits_api
  nvp :: nvp_api
  vp :: validator_set_api
  pvp :: validator_set_api
  na_current_epoch :: "u64 na_prog"
  na_set_current_epoch :: "u64 \<Rightarrow> unit na_prog"

section \<open>The two implementations of the trait\<close>

definition gm_nas :: "'w ws_ops \<Rightarrow> public_address \<Rightarrow> 'w gas_meter nas" where
  "gm_nas W net =
     \<lparr>nas_get = (\<lambda>g key. gm_ws_storage_data W g net key),
      nas_contains = (\<lambda>g key. gm_ws_contains_storage_data W g net key),
      nas_set = (\<lambda>g key value. gm_ws_set_storage_data W g net key value),
      nas_delete = (\<lambda>g key. gm_ws_set_storage_data W g net key [])\<rparr>"

definition ws_nas :: "'w ws_ops \<Rightarrow> public_address \<Rightarrow> 'w world_state_cache nas" where
  "ws_nas W net =
     \<lparr>nas_get = (\<lambda>s key. wsc_storage_data W s net key),
      nas_contains = (\<lambda>s key. map_option (\<lambda>b. (b, s)) (wsc_contains_storage_data W s net key)),
      nas_set = (\<lambda>s key value. Some (wsc_set_storage_data s net key value)),
      nas_delete = (\<lambda>s key. Some (wsc_set_storage_data s net key []))\<rparr>"

text \<open>What a reader of the cache sees of the network account.\<close>

definition net_view :: "'w ws_ops \<Rightarrow> public_address \<Rightarrow> 'w world_state_cache \<Rightarrow> bytes \<Rightarrow> bytes option option"
where
  "net_view W net s k = wsc_storage_view W s (net, k)"

section \<open>What a client of the trait may rely on\<close>

text \<open>
  A relation that every storage operation keeps is kept by every program. With the frame of the
  storage for the relation, this bounds what any method of the network account can do, whatever
  its code.
\<close>

locale network_account_storage =
  fixes I :: "'s nas" and keeps :: "'s \<Rightarrow> 's \<Rightarrow> bool"
  assumes keeps_refl: "keeps s s"
    and keeps_trans: "keeps s t \<Longrightarrow> keeps t u \<Longrightarrow> keeps s u"
    and keeps_get: "nas_get I s k = Some (v, s') \<Longrightarrow> keeps s s'"
    and keeps_contains: "nas_contains I s k = Some (b, s') \<Longrightarrow> keeps s s'"
    and keeps_set: "nas_set I s k d = Some s' \<Longrightarrow> keeps s s'"
    and keeps_delete: "nas_delete I s k = Some s' \<Longrightarrow> keeps s s'"
begin

lemma run_keeps: "run_na I p s = Some (r, s') \<Longrightarrow> keeps s s'"
proof (induction p arbitrary: s)
  case (NA_Get k c)
  then obtain v t where "nas_get I s k = Some (v, t)" "run_na I (c v) t = Some (r, s')"
    by (auto simp: bind_eq_Some_conv)
  then show ?case
    using NA_Get.IH[OF rangeI] keeps_get keeps_trans by blast
next
  case (NA_Contains k c)
  then obtain v t where "nas_contains I s k = Some (v, t)" "run_na I (c v) t = Some (r, s')"
    by (auto simp: bind_eq_Some_conv)
  then show ?case
    using NA_Contains.IH[OF rangeI] keeps_contains keeps_trans by blast
qed (auto simp: bind_eq_Some_conv intro: keeps_refl keeps_trans keeps_set keeps_delete)

lemma run_post:
  "keeps s0 s \<Longrightarrow> (\<And>r s'. keeps s0 s' \<Longrightarrow> Q (r, s')) \<Longrightarrow> post (run_na I p s) Q"
  by (auto simp: post_def dest: run_keeps intro: keeps_trans)

end

interpretation gmn: network_account_storage "gm_nas W net" "gm_frame W A C (insert net S)"
  for W :: "'w ws_ops" and net A C S
  by unfold_locales (auto simp: gm_nas_def intro: gm_frame_trans gm_frames)

interpretation wsn: network_account_storage "ws_nas W net" "wsc_frame W A C (insert net S)"
  for W :: "'w ws_ops" and net A C S
  by unfold_locales (auto simp: ws_nas_def intro: wsc_frame_trans wsc_frames)

text \<open>
  A storage that answers what was last set, as long as the value is not empty: \<open>obs\<close> is what a
  reader sees of it.
\<close>

locale readable_storage = network_account_storage +
  fixes obs :: "'s \<Rightarrow> bytes \<Rightarrow> bytes option option" and ok :: "'s \<Rightarrow> bool"
  assumes keeps_ok: "keeps s s' \<Longrightarrow> ok s \<Longrightarrow> ok s'"
    and get_obs: "ok s \<Longrightarrow> nas_get I s k = Some (v, s') \<Longrightarrow>
      obs s' = obs s \<and> (obs s k = Some v \<or> obs s k = Some (Some []) \<and> v = None)"
    and get_total: "ok s \<Longrightarrow> obs s k \<noteq> None \<Longrightarrow> nas_get I s k \<noteq> None"
    and set_obs: "nas_set I s k d = Some s' \<Longrightarrow> obs s' = (obs s)(k := Some (Some d))"
    and delete_obs: "nas_delete I s k = Some s' \<Longrightarrow> obs s' = (obs s)(k := Some (Some []))"
begin

lemma read_back:
  assumes "ok s" "nas_set I s k d = Some s'" "d \<noteq> []"
  shows "\<exists>s''. run_na I (NA_Get k NA_Return) s' = Some (Some d, s'')"
proof -
  have ok': "ok s'"
    using assms(1,2) keeps_ok keeps_set by blast
  moreover have "obs s' k = Some (Some d)"
    using set_obs[OF assms(2)] by simp
  ultimately obtain v s'' where "nas_get I s' k = Some (v, s'')"
    using get_total[of s' k] by fastforce
  then show ?thesis
    using get_obs[OF ok', of k v s''] \<open>obs s' k = Some (Some d)\<close> \<open>d \<noteq> []\<close> by auto
qed

end

lemma net_view_frame_get:
  "wsc_inv W s \<Longrightarrow> wsc_storage_data W s net k = Some (v, s') \<Longrightarrow>
   net_view W net s' = net_view W net s \<and> net_view W net s k = Some v"
  using sto.get_view[of W s "(net, k)" v s'] sto.get_answer[of W s "(net, k)" v s']
  by (simp add: net_view_def fun_eq_iff wsc_inv_def)

lemma net_view_get_total:
  "wsc_inv W s \<Longrightarrow> net_view W net s k \<noteq> None \<Longrightarrow> wsc_storage_data W s net k \<noteq> None"
  using sto.get_panic[of W s "(net, k)"] by (simp add: net_view_def wsc_inv_def)

lemma net_view_set:
  "net_view W net (wsc_set_storage_data s net k d) = (net_view W net s)(k := Some (Some d))"
  using sto.put_view[of W s "(net, k)" d] by (simp add: net_view_def fun_eq_iff)

interpretation wsr: readable_storage "ws_nas W net" "wsc_frame W A C (insert net S)"
  "net_view W net" "wsc_inv W"
  for W :: "'w ws_ops" and net A C S
  using net_view_frame_get[of W _ net] net_view_get_total[of W _ net]
  by unfold_locales
    (auto simp: ws_nas_def net_view_set dest: wsc_frame_step intro: wsc_step_inv)

lemma net_view_read: "wsc_storage_data W s a k = Some (v, s') \<Longrightarrow> net_view W net s' = net_view W net s"
  using wsc_frame_storage[of W s a k v s' "{}" "{}" "{}"]
  by (simp add: net_view_def wsc_frame_def fun_eq_iff)

lemma gm_view_set:
  assumes "gm_ws_set_storage_data W g net k d = Some g'"
  shows "net_view W net (ws_cache g') = (net_view W net (ws_cache g))(k := Some (Some d))"
proof -
  obtain v s where "wsc_storage_data W (ws_cache g) net k = Some (v, s)"
    "ws_cache g' = wsc_set_storage_data s net k d"
    using assms by (auto simp: gm_ws_set_storage_data_def op_ws_set_storage_data_def
        op_ws_storage_data_def bind_convs gm_charge_def Let_def)
  then show ?thesis
    using net_view_read[of W "ws_cache g" net k v s net] by (simp add: net_view_set)
qed

lemma gm_view_get:
  assumes "gm_ws_storage_data W g net k = Some (v, g')" "wsc_inv W (ws_cache g)"
  shows "net_view W net (ws_cache g') = net_view W net (ws_cache g) \<and>
    (net_view W net (ws_cache g) k = Some v \<or>
     net_view W net (ws_cache g) k = Some (Some []) \<and> v = None)"
  using assms
  by (auto simp: gm_ws_storage_data_def op_ws_storage_data_def bind_convs gm_charge_def
      dest!: net_view_frame_get split: option.splits if_splits)

lemma gm_view_get_total:
  "wsc_inv W (ws_cache g) \<Longrightarrow> net_view W net (ws_cache g) k \<noteq> None \<Longrightarrow>
   gm_ws_storage_data W g net k \<noteq> None"
  using net_view_get_total[of W "ws_cache g" net k]
  by (auto simp: gm_ws_storage_data_def op_ws_storage_data_def bind_convs)

interpretation gmr: readable_storage "gm_nas W net" "gm_frame W A C (insert net S)"
  "\<lambda>g. net_view W net (ws_cache g)" "\<lambda>g. wsc_inv W (ws_cache g)"
  for W :: "'w ws_ops" and net A C S
  using gm_view_get[of W _ net] gm_view_get_total[of W _ net] gm_view_set[of W _ net]
  by unfold_locales
    (auto simp: gm_nas_def gm_frame_def dest: wsc_frame_step intro: wsc_step_inv)

section \<open>Charging does not change answers\<close>

text \<open>Programs that never delete and never store the empty value.\<close>

primrec na_fills :: "'a na_prog \<Rightarrow> bool" where
  "na_fills (NA_Return a) = True"
| "na_fills NA_Panic = True"
| "na_fills (NA_Get k c) = (\<forall>v. na_fills (c v))"
| "na_fills (NA_Contains k c) = (\<forall>b. na_fills (c b))"
| "na_fills (NA_Set k v c) = (v \<noteq> [] \<and> na_fills c)"
| "na_fills (NA_Delete k c) = False"

text \<open>What the storage trie promises of its presence test.\<close>

definition contains_law :: "'w ws_ops \<Rightarrow> bool" where
  "contains_law W \<longleftrightarrow> (\<forall>w a k v. st_get W w a k = Some v \<longrightarrow> st_contains W w a k = Some (v \<noteq> None))"

definition no_empty :: "'w ws_ops \<Rightarrow> public_address \<Rightarrow> 'w world_state_cache \<Rightarrow> bool" where
  "no_empty W net s \<longleftrightarrow> (\<forall>k. net_view W net s k \<noteq> Some (Some []))"

text \<open>Two caches over the same world state with the same pending storage writes.\<close>

definition same_storage :: "'w ws_ops \<Rightarrow> 'w world_state_cache \<Rightarrow> 'w world_state_cache \<Rightarrow> bool" where
  "same_storage W s t \<longleftrightarrow> wsc_inv W s \<and> wsc_inv W t \<and> ws s = ws t \<and>
     writes (storage_cache s) = writes (storage_cache t)"

lemma same_storage_refl [simp]: "same_storage W s s \<longleftrightarrow> wsc_inv W s"
  by (simp add: same_storage_def)

lemma same_storage_view: "same_storage W s t \<Longrightarrow> net_view W net s = net_view W net t"
  by (simp add: same_storage_def net_view_def wsc_storage_view_def cd_view_def fun_eq_iff
      split: option.splits)

lemma storage_data_keeps:
  "wsc_storage_data W s a k = Some (v, s') \<Longrightarrow> wsc_inv W s \<Longrightarrow>
   wsc_inv W s' \<and> ws s' = ws s \<and> writes (storage_cache s') = writes (storage_cache s)"
  using wsc_step_storage_data[of W s a k v s']
  by (auto simp: wsc_storage_data_def bind_convs dest: cd_get_writes wsc_step_inv)

lemma same_storage_set:
  "same_storage W s t \<Longrightarrow>
   same_storage W (wsc_set_storage_data s a k v) (wsc_set_storage_data t a k v)"
  using wsc_step_inv[OF wsc_step_sets(4), of W s a k v] wsc_step_inv[OF wsc_step_sets(4), of W t a k v]
  by (simp add: same_storage_def) (simp add: wsc_set_storage_data_def cd_set_def)

lemma same_storage_get:
  assumes "same_storage W s t" "wsc_storage_data W t net k = Some (v, t')"
  shows "\<exists>s'. wsc_storage_data W s net k = Some (v, s') \<and> same_storage W s' t'"
proof -
  have inv: "wsc_inv W s" "wsc_inv W t"
    using assms(1) by (simp_all add: same_storage_def)
  have view: "net_view W net s k = Some v"
    using net_view_frame_get[OF inv(2) assms(2)] same_storage_view[OF assms(1)] by simp
  then obtain v' s' where get: "wsc_storage_data W s net k = Some (v', s')"
    using net_view_get_total[OF inv(1), of net k] by fastforce
  then have "v' = v"
    using net_view_frame_get[OF inv(1) get] view by simp
  then show ?thesis
    using get storage_data_keeps[OF get inv(1)] storage_data_keeps[OF assms(2) inv(2)] assms(1)
    by (simp add: same_storage_def)
qed

lemma contains_view:
  assumes "wsc_inv W s" "contains_law W" "net_view W net s k = Some v" "v \<noteq> Some []"
  shows "wsc_contains_storage_data W s net k = Some (v \<noteq> None)"
  using assms
  by (auto simp: wsc_contains_storage_data_def cd_contains_def net_view_def wsc_storage_view_def
      cd_view_def cache_len_bytes_def contains_law_def wsc_inv_defs cd_coherent_def
      wsc_storage_base_def split: option.splits)

lemma view_panic_uncached:
  assumes "wsc_inv W s" "net_view W net s k = None"
  shows "map_of (writes (storage_cache s)) (net, k) = None \<and>
    map_of (reads (storage_cache s)) (net, k) = None"
  using assms
  by (cases "map_of (reads (storage_cache s)) (net, k)")
    (auto simp: wsc_inv_defs cd_coherent_def net_view_def wsc_storage_view_def cd_view_def
      split: option.splits)

lemma same_storage_contains:
  assumes "same_storage W s t" "contains_law W" "no_empty W net s"
    and "wsc_contains_storage_data W t net k = Some b"
  shows "wsc_contains_storage_data W s net k = Some b"
proof (cases "net_view W net s k")
  case None
  then show ?thesis
    using assms(1,4) view_panic_uncached[of W s net k] view_panic_uncached[of W t net k]
      same_storage_view[OF assms(1), of net]
    by (auto simp: wsc_contains_storage_data_def cd_contains_def same_storage_def)
next
  case (Some v)
  then show ?thesis
    using contains_view[of W s net k v] contains_view[of W t net k v] assms
      same_storage_view[OF assms(1)]
    by (auto simp: same_storage_def no_empty_def)
qed

lemma no_empty_set:
  "no_empty W net s \<Longrightarrow> v \<noteq> [] \<Longrightarrow> no_empty W net (wsc_set_storage_data s net k v)"
  by (simp add: no_empty_def net_view_set)

text \<open>The charging reads and writes against the gas-free ones.\<close>

lemma metered_get:
  assumes "gm_ws_storage_data W g net k = Some (v, g1)" "same_storage W s (ws_cache g)" "no_empty W net s"
  shows "\<exists>s1. wsc_storage_data W s net k = Some (v, s1) \<and> same_storage W s1 (ws_cache g1) \<and> no_empty W net s1"
proof -
  obtain v0 where raw: "wsc_storage_data W (ws_cache g) net k = Some (v0, ws_cache g1)"
    and v: "v = (case v0 of None \<Rightarrow> None | Some d \<Rightarrow> if d \<noteq> [] then Some d else None)"
    using assms(1) by (auto simp: gm_ws_storage_data_def op_ws_storage_data_def bind_convs gm_charge_def)
  have "net_view W net s k = Some v0"
    using net_view_frame_get[OF _ raw] assms(2) same_storage_view[OF assms(2)]
    by (simp add: same_storage_def)
  then have "v0 = v"
    using assms(3) v by (auto simp: no_empty_def split: option.splits)
  with same_storage_get[OF assms(2) raw] obtain s1 where s1:
    "wsc_storage_data W s net k = Some (v, s1)" "same_storage W s1 (ws_cache g1)"
    by blast
  then show ?thesis
    using net_view_read[OF s1(1)] assms(3) by (simp add: no_empty_def)
qed

lemma metered_set:
  assumes "gm_ws_set_storage_data W g net k v = Some g1" "same_storage W s (ws_cache g)"
  shows "same_storage W (wsc_set_storage_data s net k v) (ws_cache g1)"
proof -
  obtain v0 t where t: "wsc_storage_data W (ws_cache g) net k = Some (v0, t)"
    "ws_cache g1 = wsc_set_storage_data t net k v"
    using assms(1)
    by (auto simp: gm_ws_set_storage_data_def op_ws_set_storage_data_def op_ws_storage_data_def
        bind_convs gm_charge_def Let_def)
  have "same_storage W s t"
    using assms(2) storage_data_keeps[OF t(1)] by (simp add: same_storage_def)
  then show ?thesis
    by (simp add: t(2) same_storage_set)
qed

text \<open>C24: Metering is transparent to programs that only fill the storage. Take a program over the network
  account that deletes nothing and stores no empty value, a world state whose contains check agrees with its
  reads, and a network account in which no key reads as the empty value. When the program, run through the
  charging storage of the gas meter, returns, it answers what it answers through the gas-free storage of the
  protocol commands, which returns too, and leaves the same pending writes. After a delete this fails, as
  the next property shows.\<close>

theorem metered_agrees:
  assumes "run_na (gm_nas W net) p g = Some (r, g')" and "na_fills p" and "contains_law W"
    and "same_storage W s (ws_cache g)" and "no_empty W net s"
  shows "\<exists>s'. run_na (ws_nas W net) p s = Some (r, s') \<and> same_storage W s' (ws_cache g')"
  using assms
proof (induction p arbitrary: g s)
  case (NA_Get k c)
  then obtain v g1 where get: "gm_ws_storage_data W g net k = Some (v, g1)"
    and rest: "run_na (gm_nas W net) (c v) g1 = Some (r, g')"
    by (auto simp: bind_convs gm_nas_def)
  then obtain s1 where "wsc_storage_data W s net k = Some (v, s1)" "same_storage W s1 (ws_cache g1)" "no_empty W net s1"
    using metered_get[OF _ NA_Get.prems(4,5)] by blast
  then show ?case
    using NA_Get.IH[OF rangeI rest, of s1] NA_Get.prems(2,3) by (simp add: ws_nas_def)
next
  case (NA_Contains k c)
  then obtain b g1 where "gm_ws_contains_storage_data W g net k = Some (b, g1)"
    and rest: "run_na (gm_nas W net) (c b) g1 = Some (r, g')"
    by (auto simp: bind_convs gm_nas_def)
  then have "wsc_contains_storage_data W (ws_cache g) net k = Some b" "ws_cache g1 = ws_cache g"
    by (auto simp: gm_ws_contains_storage_data_def op_ws_contains_storage_data_def bind_convs
        gm_charge_def)
  then show ?case
    using NA_Contains.IH[OF rangeI rest, of s] NA_Contains.prems
      same_storage_contains[OF NA_Contains.prems(4,3,5), of k b] by (simp add: ws_nas_def)
next
  case (NA_Set k v c)
  then obtain g1 where set: "gm_ws_set_storage_data W g net k v = Some g1"
    and rest: "run_na (gm_nas W net) c g1 = Some (r, g')"
    by (auto simp: bind_convs gm_nas_def)
  then show ?case
    using NA_Set.IH[OF rest, of "wsc_set_storage_data s net k v"] NA_Set.prems metered_set[OF set NA_Set.prems(4)]
    by (simp add: ws_nas_def no_empty_set)
qed (auto simp: bind_convs)

theorem metered_agrees_witness:
  "\<exists>r g' s'. run_na (gm_nas kv_ops 9) (NA_Set [1] [2] (NA_Get [1] NA_Return))
       (gm_new V1 (wsc_new kv_zero) 0) = Some (r, g') \<and>
     run_na (ws_nas kv_ops 9) (NA_Set [1] [2] (NA_Get [1] NA_Return)) (wsc_new kv_zero) = Some (r, s') \<and>
     same_storage kv_ops s' (ws_cache g')"
proof -
  let ?p = "NA_Set [1] [2] (NA_Get [1] NA_Return)" and ?g = "gm_new V1 (wsc_new kv_zero) 0"
  have law: "contains_law kv_ops"
    by (simp add: contains_law_def kv_ops_def)
  have same: "same_storage kv_ops (wsc_new kv_zero) (ws_cache ?g)"
    by (simp add: gm_new_def)
  have empty: "no_empty kv_ops 9 (wsc_new kv_zero)"
    by (simp add: no_empty_def net_view_def wsc_storage_view_def cd_view_def wsc_new_def cd_default_def
        wsc_storage_base_def kv_ops_def kv_zero_def)
  obtain r g' where run: "run_na (gm_nas kv_ops 9) ?p ?g = Some (r, g')"
    by (simp add: gm_nas_def gm_op_defs op_ws_set_storage_data_def op_ws_storage_data_def
        wsc_storage_data_def wsc_set_storage_data_def cd_get_def cd_set_def gm_new_def wsc_new_def
        cd_default_def kv_ops_def kv_zero_def gm_charge_def Let_def)
  show ?thesis
    using run metered_agrees[OF run _ law same empty] by fastforce
qed

text \<open>C40: Without that proviso the two storages differ: right after a delete of a readable key the
  charging storage answers that there is no value, the gas-free one answers the empty value.\<close>

theorem deleted_value_differs:
  assumes "wsc_inv W (ws_cache g)" and "net_view W net (ws_cache g) k \<noteq> None"
  shows "(\<exists>g'. run_na (gm_nas W net) (NA_Delete k (NA_Get k NA_Return)) g = Some (None, g')) \<and>
    (\<exists>s'. run_na (ws_nas W net) (NA_Delete k (NA_Get k NA_Return)) (ws_cache g) =
       Some (Some [], s'))"
proof -
  let ?s = "ws_cache g"
  obtain v t where t: "wsc_storage_data W ?s net k = Some (v, t)"
    using net_view_get_total[OF assms] by fastforce
  have hit: "wsc_storage_data W (wsc_set_storage_data u net k []) net k =
      Some (Some [], wsc_set_storage_data u net k [])" for u
    by (simp add: wsc_storage_data_def wsc_set_storage_data_def cd_get_def cd_set_def)
  show ?thesis
    by (simp add: gm_nas_def ws_nas_def gm_op_defs op_ws_set_storage_data_def
        op_ws_storage_data_def t hit gm_charge_def Let_def)
qed

theorem deleted_value_differs_witness:
  "\<exists>s'. run_na (ws_nas kv_ops 9) (NA_Delete [1] (NA_Get [1] NA_Return)) (wsc_new kv_zero) =
     Some (Some [], s')"
proof -
  let ?g = "gm_new V1 (wsc_new kv_zero) 0"
  have "net_view kv_ops 9 (ws_cache ?g) [1] \<noteq> None"
    by (simp add: net_view_def wsc_storage_view_def cd_view_def wsc_new_def cd_default_def
        wsc_storage_base_def kv_ops_def kv_zero_def gm_new_def)
  then show ?thesis
    using deleted_value_differs[of kv_ops ?g 9 "[1]"] by (simp add: gm_new_def)
qed

end
