(* ===== verification/Transition_Context.thy ===== *)
theory Transition_Context
  imports Network_Account
begin

text \<open>
  The transition context of \<^verbatim>\<open>src/context.rs\<close>: the smart contract context, the queue of deferred
  commands and the gas meter with the world state cache below it.
\<close>

section \<open>The context\<close>

record ('w, 'c) transition_context =
  sc_context :: "'c smart_contract_context"
  deferred_commands :: "deferred_command list"
  ctx_gas_meter :: "'w gas_meter"

definition ctx_new :: "txn_version \<Rightarrow> 'w \<Rightarrow> u64 \<Rightarrow> ('w, 'c) transition_context" where
  "ctx_new ver w limit =
     \<lparr>sc_context = sc_default, deferred_commands = [],
      ctx_gas_meter = gm_new ver (wsc_new w) limit\<rparr>"

definition append_deferred_command ::
  "('w, 'c) transition_context \<Rightarrow> deferred_command \<Rightarrow> ('w, 'c) transition_context" where
  "append_deferred_command ctx cmd = ctx\<lparr>deferred_commands := deferred_commands ctx @ [cmd]\<rparr>"

definition gas_free_ws_cache :: "('w, 'c) transition_context \<Rightarrow> 'w world_state_cache" where
  "gas_free_ws_cache ctx = ws_cache (ctx_gas_meter ctx)"

definition set_gas_free_ws_cache ::
  "('w, 'c) transition_context \<Rightarrow> 'w world_state_cache \<Rightarrow> ('w, 'c) transition_context" where
  "set_gas_free_ws_cache ctx s = ctx\<lparr>ctx_gas_meter := (ctx_gas_meter ctx)\<lparr>ws_cache := s\<rparr>\<rparr>"

definition revert_changes :: "('w, 'c) transition_context \<Rightarrow> ('w, 'c) transition_context" where
  "revert_changes ctx = set_gas_free_ws_cache ctx (wsc_revert (gas_free_ws_cache ctx))"

definition complete_cmd_execution ::
  "('w, 'c) transition_context \<Rightarrow>
   (u64 \<times> command_output \<times> deferred_command list option) \<times> ('w, 'c) transition_context" where
  "complete_cmd_execution ctx =
     (let ((gas_used, command_output), g) = take_current_command_result (ctx_gas_meter ctx);
          deferred = (if deferred_commands ctx \<noteq> [] then Some (deferred_commands ctx) else None)
      in ((gas_used, command_output, deferred),
          ctx\<lparr>ctx_gas_meter := g, deferred_commands := []\<rparr>))"

section \<open>Facts\<close>

lemma gas_free_ws_cache_set [simp]:
  "gas_free_ws_cache (set_gas_free_ws_cache ctx s) = s"
  "deferred_commands (set_gas_free_ws_cache ctx s) = deferred_commands ctx"
  "sc_context (set_gas_free_ws_cache ctx s) = sc_context ctx"
  by (simp_all add: gas_free_ws_cache_def set_gas_free_ws_cache_def)

lemma gas_free_ws_cache_simps [simp]:
  "gas_free_ws_cache (ctx\<lparr>deferred_commands := d\<rparr>) = gas_free_ws_cache ctx"
  "gas_free_ws_cache (ctx\<lparr>sc_context := c\<rparr>) = gas_free_ws_cache ctx"
  "gas_free_ws_cache (ctx\<lparr>ctx_gas_meter := g\<rparr>) = ws_cache g"
  by (simp_all add: gas_free_ws_cache_def)

lemma gas_free_ws_cache_revert [simp]:
  "gas_free_ws_cache (revert_changes ctx) = wsc_revert (gas_free_ws_cache ctx)"
  by (simp add: revert_changes_def)

lemma take_result_cache [simp]:
  "ws_cache (snd (take_current_command_result g)) = ws_cache g"
  by (simp add: take_current_command_result_def case_prod_beta Let_def)

lemma complete_cmd_cache [simp]:
  "gas_free_ws_cache (snd (complete_cmd_execution ctx)) = gas_free_ws_cache ctx"
  by (simp add: complete_cmd_execution_def case_prod_beta Let_def) (simp add: gas_free_ws_cache_def)

text \<open>
  The frame of a step of the context: the meter's frame, and the deferred commands only grow, by
  commands that satisfy \<open>D\<close>.
\<close>

definition ctx_frame ::
  "'w ws_ops \<Rightarrow> public_address set \<Rightarrow> public_address set \<Rightarrow> public_address set \<Rightarrow>
   (deferred_command \<Rightarrow> bool) \<Rightarrow> ('w, 'c) transition_context \<Rightarrow> ('w, 'c) transition_context \<Rightarrow> bool"
where
  "ctx_frame W A C S D ctx ctx' \<longleftrightarrow>
     gm_frame W A C S (ctx_gas_meter ctx) (ctx_gas_meter ctx') \<and>
     sc_memory_limit (sc_context ctx') = sc_memory_limit (sc_context ctx) \<and>
     (\<exists>ds. deferred_commands ctx' = deferred_commands ctx @ ds \<and> list_all D ds)"

lemma ctx_frame_refl [simp]: "ctx_frame W A C S D ctx ctx"
  by (simp add: ctx_frame_def)

lemma ctx_frame_trans:
  "ctx_frame W A C S D x y \<Longrightarrow> ctx_frame W A C S D y z \<Longrightarrow> ctx_frame W A C S D x z"
  by (auto simp: ctx_frame_def intro: gm_frame_trans)

lemma ctx_frame_mono:
  "ctx_frame W A C S D x y \<Longrightarrow> A \<subseteq> A' \<Longrightarrow> C \<subseteq> C' \<Longrightarrow> S \<subseteq> S' \<Longrightarrow> (\<And>d. D d \<Longrightarrow> D' d) \<Longrightarrow>
   ctx_frame W A' C' S' D' x y"
  by (auto simp: ctx_frame_def list_all_iff intro: gm_frame_mono)

lemma ctx_frame_gm_step:
  "ctx_frame W A C S D x y \<Longrightarrow> gm_frame W A C S (ctx_gas_meter y) g \<Longrightarrow>
   ctx_frame W A C S D x (y\<lparr>ctx_gas_meter := g\<rparr>)"
  by (auto simp: ctx_frame_def intro: gm_frame_trans)

lemma ctx_frame_defer:
  "ctx_frame W A C S D x y \<Longrightarrow> D d \<Longrightarrow> ctx_frame W A C S D x (append_deferred_command y d)"
  by (auto simp: ctx_frame_def append_deferred_command_def)

lemma ctx_frame_wsc:
  "ctx_frame W A C S D x y \<Longrightarrow> wsc_frame W A C S (gas_free_ws_cache x) (gas_free_ws_cache y)"
  by (simp add: ctx_frame_def gm_frame_def gas_free_ws_cache_def)

end
