(* ===== verification/Host_Gas.thy ===== *)
theory Host_Gas
  imports Transition_Context
begin

text \<open>
  Gas inside a contract call: \<^verbatim>\<open>src/gas/wasmer_gas.rs\<close> (the metering global of a Wasm instance and the
  host function gas meter), the memory and hash operations of \<^verbatim>\<open>src/gas/operations.rs\<close>, and the access
  to linear memory of \<^verbatim>\<open>src/contract/wasmer/memory.rs\<close>.

  Wasmer's memory, the guest's allocator, Borsh and the hash functions are parameters (\<open>vm_ops\<close>,
  \<open>env\<close>). A host function works on the state of its instance: the context that all instances of
  the call share, the instance's metering global and its linear memory.
\<close>

section \<open>Guest code and the virtual machine, parameters\<close>

text \<open>The functions of the trait \<^verbatim>\<open>CBIHostFunctions\<close> as a guest calls them, with their raw arguments.\<close>

datatype host_call =
    H_set u32 u32 u32 u32
  | H_get u32 u32 u32
  | H_get_network_storage u32 u32 u32
  | H_balance
  | H_block_height
  | H_block_timestamp
  | H_prev_block_hash u32
  | H_calling_account u32
  | H_current_account u32
  | H_method u32
  | H_arguments u32
  | H_amount
  | H_is_internal_call
  | H_transaction_hash u32
  | H_call u32 u32 u32
  | H_return_value u32 u32
  | H_transfer u32
  | H_defer_create_deposit u32 u32
  | H_defer_set_deposit_settings u32 u32
  | H_defer_topup_deposit u32 u32
  | H_defer_withdraw_deposit u32 u32
  | H_defer_stake_deposit u32 u32
  | H_defer_unstake_deposit u32 u32
  | H_log u32 u32
  | H_sha256 u32 u32 u32
  | H_keccak256 u32 u32 u32
  | H_ripemd u32 u32 u32
  | H_verify_ed25519_signature u32 u32 u32 u32

text \<open>
  What a guest does, as Wasmer runs it: opcodes that cost points, traps, and calls of host
  functions with the linear memory \<open>'v\<close> as it is at the call; the answer and the memory after the
  call decide how it goes on. An allocation of the guest costs points, may trap and gives a
  pointer; the outer option is \<open>None\<close> if it does not return (it runs while the host function holds
  the lock on the context, so an allocator that calls a host function blocks).
\<close>

datatype 'v guest =
    G_Return
  | G_Trap
  | G_Ops u64 "'v guest"
  | G_Host host_call 'v "int \<Rightarrow> 'v \<Rightarrow> 'v guest"

record 'v wasm_instance =
  inst_entrypoint :: "'v guest option"
  inst_memory :: 'v
  inst_alloc :: "u32 \<Rightarrow> 'v \<Rightarrow> (u64 \<times> u32 option \<times> 'v) option"

record ('m, 'v) vm_ops =
  vm_instantiate :: "'m contract_module \<Rightarrow> bool \<Rightarrow> 'v wasm_instance option"
  vm_deref_read :: "'v \<Rightarrow> u32 \<Rightarrow> u32 \<Rightarrow> bytes option"
  vm_deref_write :: "'v \<Rightarrow> u32 \<Rightarrow> bytes \<Rightarrow> 'v option"
  deserialize_command :: "bytes \<Rightarrow> command option"
  deserialize_log :: "bytes \<Rightarrow> log option"
  serialize_arguments :: "bytes list \<Rightarrow> bytes"
  sha256_digest :: "bytes \<Rightarrow> bytes"
  keccak256_digest :: "bytes \<Rightarrow> bytes"
  ripemd160_digest :: "bytes \<Rightarrow> bytes"
  ed25519_verify :: "bytes \<Rightarrow> bytes \<Rightarrow> bytes \<Rightarrow> bool option"

text \<open>All parameters of the runtime in one record.\<close>

record ('w, 'c, 'm, 'v) runtime =
  rt_ws :: "'w ws_ops"
  rt_wasmer :: "('c, 'm) wasmer_ops"
  rt_vm :: "('m, 'v) vm_ops"
  rt_net :: network_account
  contract_address_v1 :: "public_address \<Rightarrow> u64 \<Rightarrow> public_address"
  contract_address_v2 :: "public_address \<Rightarrow> u64 \<Rightarrow> u32 \<Rightarrow> public_address"

section \<open>The metering global\<close>

text \<open>
  \<open>wg_exhausted\<close> is the flag of Wasmer's metering middleware, \<open>wg_points\<close> its counter; \<open>wg_init\<close> is
  \<^verbatim>\<open>is_initialized\<close> of the runtime's handle on the counter.
\<close>

record wasmer_gas_global =
  wg_init :: bool
  wg_points :: u64
  wg_exhausted :: bool

definition wg_new :: "u64 \<Rightarrow> wasmer_gas_global" where
  "wg_new limit = \<lparr>wg_init = False, wg_points = limit, wg_exhausted = False\<rparr>"

definition wg_initialize :: "wasmer_gas_global \<Rightarrow> wasmer_gas_global" where
  "wg_initialize w = w\<lparr>wg_init := True\<rparr>"

definition wg_deinit :: "wasmer_gas_global \<Rightarrow> wasmer_gas_global option" where
  "wg_deinit w = (if wg_init w then Some (w\<lparr>wg_init := False\<rparr>) else None)"

definition wg_gas :: "wasmer_gas_global \<Rightarrow> u64 option" where
  "wg_gas w = (if wg_init w then Some (wg_points w) else None)"

definition subtract_gas :: "wasmer_gas_global \<Rightarrow> u64 \<Rightarrow> wasmer_gas_global option" where
  "subtract_gas w amount = do {
     current \<leftarrow> wg_gas w;
     Some (w\<lparr>wg_points := saturating_sub current amount\<rparr>)
   }"

text \<open>What Wasmer does for opcodes that cost \<open>n\<close>: take the points, or raise the flag and trap.\<close>

definition wasm_ops :: "wasmer_gas_global \<Rightarrow> u64 \<Rightarrow> bool \<times> wasmer_gas_global" where
  "wasm_ops w n =
     (if wg_points w < n then (False, w\<lparr>wg_exhausted := True\<rparr>)
      else (True, w\<lparr>wg_points := wg_points w - n\<rparr>))"

text \<open>\<^verbatim>\<open>get_remaining_points\<close> of the middleware, read as \<^verbatim>\<open>call_method\<close> reads it.\<close>

definition wg_remaining :: "wasmer_gas_global \<Rightarrow> u64" where
  "wg_remaining w = (if wg_exhausted w then 0 else wg_points w)"

section \<open>The environment and the state of a host function\<close>

record 'v env =
  env_call_counter :: u32
  env_is_view :: bool
  env_call_tx :: call_tx
  env_bd :: blockchain_params
  env_alloc :: "u32 \<Rightarrow> 'v \<Rightarrow> (u64 \<times> u32 option \<times> 'v) option"

record ('w, 'c, 'v) host_state =
  hs_ctx :: "('w, 'c) transition_context"
  hs_gas :: wasmer_gas_global
  hs_mem :: 'v

text \<open>A host function returns a \<^verbatim>\<open>Result\<close> or panics; \<open>hf_bind\<close> is the question mark operator.\<close>

type_synonym ('w, 'c, 'v, 'a) host_fn =
  "('w, 'c, 'v) host_state \<Rightarrow> ((func_error + 'a) \<times> ('w, 'c, 'v) host_state) option"

definition hf_return :: "'a \<Rightarrow> ('w, 'c, 'v, 'a) host_fn" where
  "hf_return a hs = Some (Inr a, hs)"

definition hf_err :: "func_error \<Rightarrow> ('w, 'c, 'v, 'a) host_fn" where
  "hf_err e hs = Some (Inl e, hs)"

definition hf_panic :: "('w, 'c, 'v, 'a) host_fn" where
  "hf_panic hs = None"

definition hf_bind ::
  "('w, 'c, 'v, 'a) host_fn \<Rightarrow> ('a \<Rightarrow> ('w, 'c, 'v, 'b) host_fn) \<Rightarrow> ('w, 'c, 'v, 'b) host_fn" where
  "hf_bind m f hs = do {
     (r, hs) \<leftarrow> m hs;
     case r of Inl e \<Rightarrow> Some (Inl e, hs) | Inr a \<Rightarrow> f a hs
   }"

section \<open>The host function gas meter\<close>

definition hf_remaining_gas :: "('w, 'c, 'v, u64) host_fn" where
  "hf_remaining_gas hs = do { g \<leftarrow> wg_gas (hs_gas hs); Some (Inr g, hs) }"

definition hf_deduct_gas :: "u64 \<Rightarrow> ('w, 'c, 'v, unit) host_fn" where
  "hf_deduct_gas amount hs = do {
     w \<leftarrow> subtract_gas (hs_gas hs) amount;
     Some (Inr (), hs\<lparr>hs_gas := w\<rparr>)
   }"

text \<open>\<^verbatim>\<open>charge\<close>: only the net deduction of an operation counts, its refund is not paid out.\<close>

definition hf_charge :: "'a operation_receipt \<Rightarrow> ('w, 'c, 'v, 'a) host_fn" where
  "hf_charge rcp hs = do {
     w \<leftarrow> subtract_gas (hs_gas hs) (fst (net_cost (snd rcp)));
     Some (Inr (fst rcp), hs\<lparr>hs_gas := w\<rparr>)
   }"

definition hs_cache :: "('w, 'c, 'v) host_state \<Rightarrow> 'w world_state_cache" where
  "hs_cache hs = gas_free_ws_cache (hs_ctx hs)"

definition set_hs_cache ::
  "('w, 'c, 'v) host_state \<Rightarrow> 'w world_state_cache \<Rightarrow> ('w, 'c, 'v) host_state" where
  "set_hs_cache hs s = hs\<lparr>hs_ctx := set_gas_free_ws_cache (hs_ctx hs) s\<rparr>"

definition hs_version :: "('w, 'c, 'v) host_state \<Rightarrow> txn_version" where
  "hs_version hs = gm_version (ctx_gas_meter (hs_ctx hs))"

definition hs_output :: "('w, 'c, 'v) host_state \<Rightarrow> command_output_cache" where
  "hs_output hs = output_cache_of_current_command (ctx_gas_meter (hs_ctx hs))"

definition set_hs_output ::
  "('w, 'c, 'v) host_state \<Rightarrow> command_output_cache \<Rightarrow> ('w, 'c, 'v) host_state" where
  "set_hs_output hs c =
     hs\<lparr>hs_ctx := (hs_ctx hs)\<lparr>ctx_gas_meter :=
       (ctx_gas_meter (hs_ctx hs))\<lparr>output_cache_of_current_command := c\<rparr>\<rparr>\<rparr>"

definition hf_ws_get_storage_data ::
  "('w, 'c, 'm, 'v) runtime \<Rightarrow> public_address \<Rightarrow> bytes \<Rightarrow> ('w, 'c, 'v, bytes option) host_fn" where
  "hf_ws_get_storage_data R address key hs = do {
     (rcp, s) \<leftarrow> op_ws_storage_data (rt_ws R) (hs_version hs) (hs_cache hs) address key;
     hf_bind (hf_charge rcp)
       (\<lambda>v. hf_return (case v of Some d \<Rightarrow> if d \<noteq> [] then Some d else None | None \<Rightarrow> None))
       (set_hs_cache hs s)
   }"

definition hf_ws_get_balance ::
  "('w, 'c, 'm, 'v) runtime \<Rightarrow> public_address \<Rightarrow> ('w, 'c, 'v, u64) host_fn" where
  "hf_ws_get_balance R address hs = do {
     (rcp, s) \<leftarrow> op_ws_balance (rt_ws R) (hs_cache hs) address;
     hf_charge rcp (set_hs_cache hs s)
   }"

definition hf_ws_set_storage_data ::
  "('w, 'c, 'm, 'v) runtime \<Rightarrow> public_address \<Rightarrow> bytes \<Rightarrow> bytes \<Rightarrow> ('w, 'c, 'v, unit) host_fn" where
  "hf_ws_set_storage_data R address key value hs = do {
     (rcp, s) \<leftarrow> op_ws_set_storage_data (rt_ws R) (hs_version hs) (hs_cache hs) address key value;
     hf_charge rcp (set_hs_cache hs s)
   }"

definition hf_ws_set_balance ::
  "('w, 'c, 'm, 'v) runtime \<Rightarrow> public_address \<Rightarrow> u64 \<Rightarrow> ('w, 'c, 'v, unit) host_fn" where
  "hf_ws_set_balance R address value hs = do {
     (rcp, s) \<leftarrow> op_ws_set_balance (rt_ws R) (hs_cache hs) address value;
     hf_charge rcp (set_hs_cache hs s)
   }"

text \<open>The directory behind the contract cache is shared by every clone of the context.\<close>

definition hf_ws_cached_contract ::
  "('w, 'c, 'm, 'v) runtime \<Rightarrow> public_address \<Rightarrow>
   ('w, 'c, 'v, 'm contract_module option) host_fn" where
  "hf_ws_cached_contract R address hs = do {
     (rcp, s, sc) \<leftarrow> op_ws_cached_contract (rt_ws R) (rt_wasmer R) (hs_cache hs)
       (sc_context (hs_ctx hs)) address;
     let hs = set_hs_cache hs s;
     hf_charge rcp (hs\<lparr>hs_ctx := (hs_ctx hs)\<lparr>sc_context := sc\<rparr>\<rparr>)
   }"

section \<open>Linear memory\<close>

text \<open>
  \<^verbatim>\<open>write_bytes_to_memory\<close>: the guest allocates, the value is written to the segment and the
  segment's offset to \<open>val_ptr_ptr\<close>. A segment that cannot be dereferenced is an error, a
  \<open>val_ptr_ptr\<close> that cannot be is a panic (\<^verbatim>\<open>unwrap\<close>), and so is the indexing of a segment shorter
  than the value, which a length beyond 32 bits leads to.
\<close>

definition write_bytes_to_memory ::
  "('w, 'c, 'm, 'v) runtime \<Rightarrow> 'v env \<Rightarrow> bytes \<Rightarrow> u32 \<Rightarrow> ('w, 'c, 'v, u32) host_fn" where
  "write_bytes_to_memory R env value val_ptr_ptr hs = do {
     (cost, ptr, mem) \<leftarrow> env_alloc env (length value mod 2 ^ 32) (hs_mem hs);
     let (ran, w) = wasm_ops (hs_gas hs) cost;
     let hs = hs\<lparr>hs_gas := w, hs_mem := mem\<rparr>;
     case (if ran then ptr else None) of
       None \<Rightarrow> Some (Inl FE_Runtime, hs)
     | Some segment_ptr \<Rightarrow>
         (case vm_deref_write (rt_vm R) mem segment_ptr (take (length value mod 2 ^ 32) value) of
           None \<Rightarrow> Some (Inl FE_Runtime, hs)
         | Some mem1 \<Rightarrow>
             if length value \<ge> 2 ^ 32 then None
             else do {
               mem2 \<leftarrow> vm_deref_write (rt_vm R) mem1 val_ptr_ptr (to_le_bytes 4 segment_ptr);
               Some (Inr (length value), hs\<lparr>hs_mem := mem2\<rparr>)
             })
   }"

definition read_bytes_from_memory ::
  "('w, 'c, 'm, 'v) runtime \<Rightarrow> u32 \<Rightarrow> u32 \<Rightarrow> ('w, 'c, 'v) host_state \<Rightarrow> func_error + bytes" where
  "read_bytes_from_memory R offset len hs =
     (case vm_deref_read (rt_vm R) (hs_mem hs) offset len of
        None \<Rightarrow> Inl FE_Runtime
      | Some bs \<Rightarrow> Inr bs)"

text \<open>The operation runs first and is charged whatever its outcome.\<close>

definition op_write_bytes ::
  "('w, 'c, 'm, 'v) runtime \<Rightarrow> 'v env \<Rightarrow> bytes \<Rightarrow> u32 \<Rightarrow> ('w, 'c, 'v) host_state \<Rightarrow>
   ((func_error + u32) operation_receipt \<times> ('w, 'c, 'v) host_state) option" where
  "op_write_bytes R env value val_ptr_ptr hs = do {
     let write_cost = wasm_memory_write_cost (length value);
     (ret, hs) \<leftarrow> write_bytes_to_memory R env value val_ptr_ptr hs;
     Some ((ret, cc_deduct write_cost), hs)
   }"

definition op_read_bytes ::
  "('w, 'c, 'm, 'v) runtime \<Rightarrow> u32 \<Rightarrow> u32 \<Rightarrow> ('w, 'c, 'v) host_state \<Rightarrow> (func_error + bytes) operation_receipt" where
  "op_read_bytes R offset len hs =
     (let read_cost = wasm_memory_read_cost len in (read_bytes_from_memory R offset len hs, cc_deduct read_cost))"

definition hf_write_bytes ::
  "('w, 'c, 'm, 'v) runtime \<Rightarrow> 'v env \<Rightarrow> bytes \<Rightarrow> u32 \<Rightarrow> ('w, 'c, 'v, u32) host_fn" where
  "hf_write_bytes R env value val_ptr_ptr hs = do {
     ((ret, cost), hs) \<leftarrow> op_write_bytes R env value val_ptr_ptr hs;
     (_, hs) \<leftarrow> hf_charge ((), cost) hs;
     Some (ret, hs)
   }"

definition hf_read_bytes ::
  "('w, 'c, 'm, 'v) runtime \<Rightarrow> u32 \<Rightarrow> u32 \<Rightarrow> ('w, 'c, 'v, bytes) host_fn" where
  "hf_read_bytes R offset len hs = do {
     let (ret, cost) = op_read_bytes R offset len hs;
     (_, hs) \<leftarrow> hf_charge ((), cost) hs;
     Some (ret, hs)
   }"

section \<open>Output and hashes\<close>

definition hf_append_log :: "log \<Rightarrow> ('w, 'c, 'v, unit) host_fn" where
  "hf_append_log l hs =
     (let (rcp, logs) = op_append_log (take_or_default [] (oc_logs (hs_output hs))) l
      in hf_charge rcp (set_hs_output hs ((hs_output hs)\<lparr>oc_logs := Some logs\<rparr>)))"

definition hf_set_return_value :: "bytes \<Rightarrow> ('w, 'c, 'v, unit) host_fn" where
  "hf_set_return_value v hs =
     (let (rcp, v') = op_set_return_value v
      in hf_charge rcp (set_hs_output hs ((hs_output hs)\<lparr>oc_return_value := Some v'\<rparr>)))"

definition hf_take_return_value :: "('w, 'c, 'v, bytes option) host_fn" where
  "hf_take_return_value hs =
     (let (v, c) = oc_take_return_value (hs_output hs) in Some (Inr v, set_hs_output hs c))"

definition op_sha256 :: "('m, 'v) vm_ops \<Rightarrow> bytes \<Rightarrow> bytes operation_receipt option" where
  "op_sha256 V input = do {
     cost \<leftarrow> mul_u64 CRYPTO_SHA256_PER_BYTE (length input);
     Some (sha256_digest V input, cc_deduct cost)
   }"

definition op_keccak256 :: "('m, 'v) vm_ops \<Rightarrow> bytes \<Rightarrow> bytes operation_receipt option" where
  "op_keccak256 V input = do {
     cost \<leftarrow> mul_u64 CRYPTO_KECCAK256_PER_BYTE (length input);
     Some (keccak256_digest V input, cc_deduct cost)
   }"

definition op_ripemd :: "('m, 'v) vm_ops \<Rightarrow> bytes \<Rightarrow> bytes operation_receipt option" where
  "op_ripemd V input = do {
     cost \<leftarrow> mul_u64 CRYPTO_RIPEMD160_PER_BYTE (length input);
     Some (ripemd160_digest V input, cc_deduct cost)
   }"

text \<open>\<open>None\<close> is a public key that is not a point of the curve.\<close>

definition op_verify_ed25519_signature ::
  "('m, 'v) vm_ops \<Rightarrow> bytes \<Rightarrow> bytes \<Rightarrow> bytes \<Rightarrow> bool option operation_receipt" where
  "op_verify_ed25519_signature V message signature pub_key =
     (ed25519_verify V message signature pub_key,
      cc_deduct (saturating_add 1400000 (saturating_mul (length message) CRYPTO_ED25519_PER_BYTE)))"

definition hf_digest :: "bytes operation_receipt option \<Rightarrow> ('w, 'c, 'v, bytes) host_fn" where
  "hf_digest m hs = do { rcp \<leftarrow> m; hf_charge rcp hs }"

definition hf_sha256 :: "('w, 'c, 'm, 'v) runtime \<Rightarrow> bytes \<Rightarrow> ('w, 'c, 'v, bytes) host_fn" where
  "hf_sha256 R input_bytes = hf_digest (op_sha256 (rt_vm R) input_bytes)"

definition hf_keccak256 :: "('w, 'c, 'm, 'v) runtime \<Rightarrow> bytes \<Rightarrow> ('w, 'c, 'v, bytes) host_fn" where
  "hf_keccak256 R input_bytes = hf_digest (op_keccak256 (rt_vm R) input_bytes)"

definition hf_ripemd :: "('w, 'c, 'm, 'v) runtime \<Rightarrow> bytes \<Rightarrow> ('w, 'c, 'v, bytes) host_fn" where
  "hf_ripemd R input_bytes = hf_digest (op_ripemd (rt_vm R) input_bytes)"

definition hf_verify_ed25519_signature ::
  "('w, 'c, 'm, 'v) runtime \<Rightarrow> bytes \<Rightarrow> bytes \<Rightarrow> bytes \<Rightarrow> ('w, 'c, 'v, bool option) host_fn" where
  "hf_verify_ed25519_signature R message signature pub_key =
     hf_charge (op_verify_ed25519_signature (rt_vm R) message signature pub_key)"

section \<open>What host functions may change\<close>

text \<open>
  \<open>hs_keeps\<close>: contracts and code are untouched, balances change only in \<open>A\<close>, storage only in \<open>S\<close>,
  deferred commands only grow by commands in \<open>D\<close>, and the points of the instance only go down.
\<close>

definition hs_keeps ::
  "'w ws_ops \<Rightarrow> public_address set \<Rightarrow> public_address set \<Rightarrow> (deferred_command \<Rightarrow> bool) \<Rightarrow>
   ('w, 'c, 'v) host_state \<Rightarrow> ('w, 'c, 'v) host_state \<Rightarrow> bool" where
  "hs_keeps W A S D hs hs' \<longleftrightarrow>
     ctx_frame W A {} S D (hs_ctx hs) (hs_ctx hs') \<and>
     wg_init (hs_gas hs') = wg_init (hs_gas hs) \<and>
     wg_points (hs_gas hs') \<le> wg_points (hs_gas hs) \<and>
     (wg_exhausted (hs_gas hs) \<longrightarrow> wg_exhausted (hs_gas hs'))"

definition hf_ok ::
  "'w ws_ops \<Rightarrow> public_address set \<Rightarrow> public_address set \<Rightarrow> (deferred_command \<Rightarrow> bool) \<Rightarrow>
   ('w, 'c, 'v, 'a) host_fn \<Rightarrow> bool" where
  "hf_ok W A S D m \<longleftrightarrow> (\<forall>hs r hs'. m hs = Some (r, hs') \<longrightarrow> hs_keeps W A S D hs hs')"

named_theorems hf_rules \<open>frame rules of host functions\<close>

lemma hs_keeps_refl [simp]: "hs_keeps W A S D hs hs"
  by (simp add: hs_keeps_def)

lemma hs_keeps_trans:
  "hs_keeps W A S D x y \<Longrightarrow> hs_keeps W A S D y z \<Longrightarrow> hs_keeps W A S D x z"
  by (auto simp: hs_keeps_def intro: ctx_frame_trans)

lemma hf_okD: "hf_ok W A S D m \<Longrightarrow> m hs = Some (r, hs') \<Longrightarrow> hs_keeps W A S D hs hs'"
  by (auto simp: hf_ok_def)

lemma hf_ok_basic [hf_rules]:
  "hf_ok W A S D (hf_return a)" "hf_ok W A S D (hf_err e)" "hf_ok W A S D hf_panic"
  by (auto simp: hf_ok_def hf_return_def hf_err_def hf_panic_def)

lemma hf_ok_bind [hf_rules]:
  "hf_ok W A S D m \<Longrightarrow> (\<And>a. hf_ok W A S D (f a)) \<Longrightarrow> hf_ok W A S D (hf_bind m f)"
  unfolding hf_ok_def[of _ _ _ _ "hf_bind m f"]
proof (intro allI impI)
  fix hs r hs'
  assume m: "hf_ok W A S D m" and f: "\<And>a. hf_ok W A S D (f a)"
    and "hf_bind m f hs = Some (r, hs')"
  then obtain x hs1 where *: "m hs = Some (x, hs1)"
    "(case x of Inl e \<Rightarrow> Some (Inl e, hs1) | Inr a \<Rightarrow> f a hs1) = Some (r, hs')"
    by (auto simp: hf_bind_def bind_convs)
  then have "hs_keeps W A S D hs1 hs'"
    using hf_okD[OF f] by (cases x) auto
  then show "hs_keeps W A S D hs hs'"
    using hf_okD[OF m *(1)] hs_keeps_trans by blast
qed

lemma hf_ok_if [hf_rules]:
  "(b \<Longrightarrow> hf_ok W A S D m) \<Longrightarrow> (\<not> b \<Longrightarrow> hf_ok W A S D n) \<Longrightarrow> hf_ok W A S D (if b then m else n)"
  by simp

lemma hf_ok_option [hf_rules]:
  "(x = None \<Longrightarrow> hf_ok W A S D m) \<Longrightarrow> (\<And>v. x = Some v \<Longrightarrow> hf_ok W A S D (f v)) \<Longrightarrow>
   hf_ok W A S D (case x of None \<Rightarrow> m | Some v \<Rightarrow> f v)"
  by (cases x) simp_all

lemma hf_ok_let [hf_rules]: "hf_ok W A S D (f x) \<Longrightarrow> hf_ok W A S D (Let x f)"
  by simp

lemma subtract_gas_le:
  "subtract_gas w n = Some w' \<Longrightarrow> wg_init w' = wg_init w \<and> wg_points w' \<le> wg_points w \<and>
     wg_exhausted w' = wg_exhausted w"
  by (auto simp: subtract_gas_def wg_gas_def bind_convs split: if_splits)

lemma hs_keeps_gas:
  "hs_keeps W A S D x y \<Longrightarrow> subtract_gas (hs_gas y) n = Some w \<Longrightarrow>
   hs_keeps W A S D x (y\<lparr>hs_gas := w\<rparr>)"
  by (auto simp: hs_keeps_def dest!: subtract_gas_le)

lemma hf_ok_gas [hf_rules]:
  "hf_ok W A S D hf_remaining_gas" "hf_ok W A S D (hf_deduct_gas n)" "hf_ok W A S D (hf_charge rcp)"
  by (auto simp: hf_ok_def hf_remaining_gas_def hf_deduct_gas_def hf_charge_def bind_convs
      intro: hs_keeps_gas[OF hs_keeps_refl])

lemma hs_keeps_cache:
  "wsc_frame W A {} S (hs_cache hs) s \<Longrightarrow> hs_keeps W A S D hs (set_hs_cache hs s)"
  by (simp add: hs_keeps_def set_hs_cache_def hs_cache_def set_gas_free_ws_cache_def
      gas_free_ws_cache_def ctx_frame_def)

text \<open>An operation on the cache, charged afterwards.\<close>

lemma hf_ok_cached:
  assumes "\<And>hs r s. op hs = Some (r, s) \<Longrightarrow> wsc_frame W A {} S (hs_cache hs) s"
    and "\<And>r. hf_ok W A S D (f r)"
  shows "hf_ok W A S D (\<lambda>hs. op hs \<bind> (\<lambda>(r, s). f r (set_hs_cache hs s)))"
  unfolding hf_ok_def
proof (intro allI impI)
  fix hs r hs'
  assume "op hs \<bind> (\<lambda>(r, s). f r (set_hs_cache hs s)) = Some (r, hs')"
  then obtain x s where "op hs = Some (x, s)" "f x (set_hs_cache hs s) = Some (r, hs')"
    by (auto simp: bind_convs)
  then show "hs_keeps W A S D hs hs'"
    using assms hs_keeps_cache hf_okD hs_keeps_trans by metis
qed

lemma hf_ok_get_storage [hf_rules]: "hf_ok (rt_ws R) A S D (hf_ws_get_storage_data R a k)"
  unfolding hf_ws_get_storage_data_def[abs_def]
  by (rule hf_ok_cached) (auto intro: op_frames hf_rules)

lemma hf_ok_get_balance [hf_rules]: "hf_ok (rt_ws R) A S D (hf_ws_get_balance R a)"
  unfolding hf_ws_get_balance_def[abs_def]
  by (rule hf_ok_cached) (auto intro: op_frames hf_rules)

lemma hf_ok_set_storage [hf_rules]:
  "a \<in> S \<Longrightarrow> hf_ok (rt_ws R) A S D (hf_ws_set_storage_data R a k v)"
  unfolding hf_ws_set_storage_data_def[abs_def]
  by (rule hf_ok_cached) (auto intro: op_frames hf_rules)

lemma hf_ok_set_balance [hf_rules]:
  "a \<in> A \<Longrightarrow> hf_ok (rt_ws R) A S D (hf_ws_set_balance R a v)"
  unfolding hf_ws_set_balance_def[abs_def]
  by (rule hf_ok_cached) (auto intro: op_frames hf_rules)

lemma unchecked_memory_limit [simp]:
  "sc_memory_limit (snd (module_from_bytecode_unchecked M a code sc)) = sc_memory_limit sc"
  by (simp add: module_from_bytecode_unchecked_def case_prod_beta Let_def split: sum.split)

lemma cached_contract_memory_limit:
  "op_ws_cached_contract W M s sc a = Some (r, s', sc') \<Longrightarrow> sc_memory_limit sc' = sc_memory_limit sc"
  by (cases "module_from_cache M a sc")
    (auto simp: op_ws_cached_contract_def bind_convs case_prod_beta Let_def
      split: option.split_asm)

lemma hf_ok_cached_contract [hf_rules]: "hf_ok (rt_ws R) A S D (hf_ws_cached_contract R a)"
  unfolding hf_ok_def
proof (intro allI impI)
  fix hs r hs'
  assume "hf_ws_cached_contract R a hs = Some (r, hs')"
  then obtain rcp s sc where op: "op_ws_cached_contract (rt_ws R) (rt_wasmer R) (hs_cache hs)
      (sc_context (hs_ctx hs)) a = Some (rcp, s, sc)"
    and ch: "hf_charge rcp ((set_hs_cache hs s)
      \<lparr>hs_ctx := (hs_ctx (set_hs_cache hs s))\<lparr>sc_context := sc\<rparr>\<rparr>) = Some (r, hs')"
    by (auto simp: hf_ws_cached_contract_def bind_convs Let_def)
  have "hs_keeps (rt_ws R) A S D hs (set_hs_cache hs s)"
    using op by (intro hs_keeps_cache op_frames)
  then have "hs_keeps (rt_ws R) A S D hs ((set_hs_cache hs s)
      \<lparr>hs_ctx := (hs_ctx (set_hs_cache hs s))\<lparr>sc_context := sc\<rparr>\<rparr>)"
    using cached_contract_memory_limit[OF op]
    by (auto simp: hs_keeps_def ctx_frame_def set_hs_cache_def)
  with ch show "hs_keeps (rt_ws R) A S D hs hs'"
    using hf_okD[OF hf_ok_gas(3)] hs_keeps_trans by blast
qed

lemma hs_keeps_output:
  "hs_keeps W A S D x y \<Longrightarrow> hs_keeps W A S D x (set_hs_output y c)"
  by (simp add: hs_keeps_def set_hs_output_def ctx_frame_def)

lemma hf_ok_output [hf_rules]:
  "hf_ok W A S D (hf_append_log l)" "hf_ok W A S D (hf_set_return_value v)"
  "hf_ok W A S D hf_take_return_value" "hf_ok W A S D (hf_digest m)"
  by (auto simp: hf_ok_def hf_append_log_def hf_set_return_value_def hf_take_return_value_def
      hf_digest_def bind_convs case_prod_beta Let_def
      dest!: hf_okD[OF hf_ok_gas(3)[of W A S D]]
      intro: hs_keeps_trans[OF hs_keeps_output[OF hs_keeps_refl]] hs_keeps_output)

lemma hf_ok_crypto [hf_rules]:
  "hf_ok W A S D (hf_sha256 R m)" "hf_ok W A S D (hf_keccak256 R m)" "hf_ok W A S D (hf_ripemd R m)"
  "hf_ok W A S D (hf_verify_ed25519_signature R m sig key)"
  unfolding hf_sha256_def hf_keccak256_def hf_ripemd_def hf_verify_ed25519_signature_def
  by (rule hf_ok_output(4) hf_ok_gas(3))+

lemma wasm_ops_le:
  "wg_init (snd (wasm_ops w n)) = wg_init w \<and> wg_points (snd (wasm_ops w n)) \<le> wg_points w \<and>
   (wg_exhausted w \<longrightarrow> wg_exhausted (snd (wasm_ops w n)))"
  by (simp add: wasm_ops_def)

lemma hs_keeps_ops [simp]: "hs_keeps W A S D x (x\<lparr>hs_gas := snd (wasm_ops (hs_gas x) n)\<rparr>)"
  by (simp add: hs_keeps_def wasm_ops_le)

lemma hs_keeps_mem [simp]: "hs_keeps W A S D x (y\<lparr>hs_mem := m\<rparr>) = hs_keeps W A S D x y"
  by (simp add: hs_keeps_def)

lemma hf_ok_write_memory: "hf_ok W A S D (write_bytes_to_memory R env v p)"
  by (auto simp: hf_ok_def write_bytes_to_memory_def bind_convs case_prod_beta Let_def
      split: option.split_asm if_split_asm)

lemma hf_ok_memory [hf_rules]:
  "hf_ok W A S D (hf_write_bytes R env v p)" "hf_ok W A S D (hf_read_bytes R q l)"
  by (auto simp: hf_ok_def hf_write_bytes_def hf_read_bytes_def op_write_bytes_def op_read_bytes_def bind_convs
      dest!: hf_okD[OF hf_ok_gas(3)[of W A S D]] hf_okD[OF hf_ok_write_memory[of W A S D]]
      intro: hs_keeps_trans)

end
