(* ===== verification/Host_Functions.thy ===== *)
theory Host_Functions
  imports Host_Gas
begin

text \<open>
  The host functions of \<^verbatim>\<open>src/contract/host_functions.rs\<close> and the import tables of
  \<^verbatim>\<open>src/contract/cbi_host_functions.rs\<close>. A function that returns a number answers it as an integer, one
  that returns nothing answers 0. \<open>child\<close> runs the contract that a guest calls; it is tied to the
  runner of contracts in the theory of instances.
\<close>

section \<open>Bytes of addresses and strings\<close>

definition address_to_bytes :: "public_address \<Rightarrow> bytes" where
  "address_to_bytes a = to_le_bytes 32 (unat a)"

definition address_of_bytes :: "bytes \<Rightarrow> public_address" where
  "address_of_bytes bs = word_of_nat (from_le_bytes bs)"

definition string_bytes :: "string \<Rightarrow> bytes" where
  "string_bytes s = map (\<lambda>c. word_of_nat (of_char c)) s"

section \<open>Storage and balance\<close>

definition host_set ::
  "('w, 'c, 'm, 'v) runtime \<Rightarrow> 'v env \<Rightarrow> u32 \<Rightarrow> u32 \<Rightarrow> u32 \<Rightarrow> u32 \<Rightarrow> ('w, 'c, 'v, int) host_fn" where
  "host_set R env key_ptr key_len val_ptr val_len =
     hf_bind (hf_read_bytes R key_ptr key_len) (\<lambda>key.
     hf_bind (hf_read_bytes R val_ptr val_len) (\<lambda>new_value.
     hf_bind (hf_ws_set_storage_data R (ct_target (env_call_tx env)) key new_value) (\<lambda>_.
     hf_return 0)))"

definition host_get_from ::
  "('w, 'c, 'm, 'v) runtime \<Rightarrow> 'v env \<Rightarrow> public_address \<Rightarrow> u32 \<Rightarrow> u32 \<Rightarrow> u32 \<Rightarrow>
   ('w, 'c, 'v, int) host_fn" where
  "host_get_from R env address key_ptr key_len val_ptr_ptr =
     hf_bind (hf_read_bytes R key_ptr key_len) (\<lambda>key.
     hf_bind (hf_ws_get_storage_data R address key) (\<lambda>value.
     case value of
       None \<Rightarrow> hf_return (-1)
     | Some v \<Rightarrow> hf_bind (hf_write_bytes R env v val_ptr_ptr) (\<lambda>len. hf_return (int len))))"

definition host_get ::
  "('w, 'c, 'm, 'v) runtime \<Rightarrow> 'v env \<Rightarrow> u32 \<Rightarrow> u32 \<Rightarrow> u32 \<Rightarrow> ('w, 'c, 'v, int) host_fn" where
  "host_get R env = host_get_from R env (ct_target (env_call_tx env))"

definition host_get_network_storage ::
  "('w, 'c, 'm, 'v) runtime \<Rightarrow> 'v env \<Rightarrow> u32 \<Rightarrow> u32 \<Rightarrow> u32 \<Rightarrow> ('w, 'c, 'v, int) host_fn" where
  "host_get_network_storage R env = host_get_from R env (NETWORK_ADDRESS (rt_net R))"

definition host_balance :: "('w, 'c, 'm, 'v) runtime \<Rightarrow> 'v env \<Rightarrow> ('w, 'c, 'v, int) host_fn" where
  "host_balance R env =
     hf_bind (hf_ws_get_balance R (ct_target (env_call_tx env))) (\<lambda>b. hf_return (int b))"

section \<open>Block and call data\<close>

definition host_block_height :: "'v env \<Rightarrow> ('w, 'c, 'v, int) host_fn" where
  "host_block_height env = hf_return (int (this_block_number (env_bd env)))"

definition host_block_timestamp :: "'v env \<Rightarrow> ('w, 'c, 'v, int) host_fn" where
  "host_block_timestamp env = hf_return (int (bp_timestamp (env_bd env)))"

definition host_write ::
  "('w, 'c, 'm, 'v) runtime \<Rightarrow> 'v env \<Rightarrow> bytes \<Rightarrow> u32 \<Rightarrow> ('w, 'c, 'v, int) host_fn" where
  "host_write R env v ptr_ptr = hf_bind (hf_write_bytes R env v ptr_ptr) (\<lambda>_. hf_return 0)"

definition host_write_len ::
  "('w, 'c, 'm, 'v) runtime \<Rightarrow> 'v env \<Rightarrow> bytes \<Rightarrow> u32 \<Rightarrow> ('w, 'c, 'v, int) host_fn" where
  "host_write_len R env v ptr_ptr = hf_bind (hf_write_bytes R env v ptr_ptr) (\<lambda>len. hf_return (int len))"

definition host_prev_block_hash ::
  "('w, 'c, 'm, 'v) runtime \<Rightarrow> 'v env \<Rightarrow> u32 \<Rightarrow> ('w, 'c, 'v, int) host_fn" where
  "host_prev_block_hash R env = host_write R env (address_to_bytes (prev_block_hash (env_bd env)))"

definition host_calling_account ::
  "('w, 'c, 'm, 'v) runtime \<Rightarrow> 'v env \<Rightarrow> u32 \<Rightarrow> ('w, 'c, 'v, int) host_fn" where
  "host_calling_account R env =
     host_write R env (address_to_bytes (signer (base_tx (env_call_tx env))))"

definition host_current_account ::
  "('w, 'c, 'm, 'v) runtime \<Rightarrow> 'v env \<Rightarrow> u32 \<Rightarrow> ('w, 'c, 'v, int) host_fn" where
  "host_current_account R env = host_write R env (address_to_bytes (ct_target (env_call_tx env)))"

definition host_method ::
  "('w, 'c, 'm, 'v) runtime \<Rightarrow> 'v env \<Rightarrow> u32 \<Rightarrow> ('w, 'c, 'v, int) host_fn" where
  "host_method R env = host_write_len R env (string_bytes (ct_method (env_call_tx env)))"

definition host_arguments ::
  "('w, 'c, 'm, 'v) runtime \<Rightarrow> 'v env \<Rightarrow> u32 \<Rightarrow> ('w, 'c, 'v, int) host_fn" where
  "host_arguments R env arguments_ptr_ptr =
     (case ct_arguments (env_call_tx env) of
        Some args \<Rightarrow> host_write_len R env (serialize_arguments (rt_vm R) args) arguments_ptr_ptr
      | None \<Rightarrow> hf_return 0)"

definition host_amount :: "'v env \<Rightarrow> ('w, 'c, 'v, int) host_fn" where
  "host_amount env =
     hf_return (case ct_amount (env_call_tx env) of Some a \<Rightarrow> int a | None \<Rightarrow> 0)"

definition host_is_internal_call :: "'v env \<Rightarrow> ('w, 'c, 'v, int) host_fn" where
  "host_is_internal_call env = hf_return (if env_call_counter env \<noteq> 0 then 1 else 0)"

definition host_transaction_hash ::
  "('w, 'c, 'm, 'v) runtime \<Rightarrow> 'v env \<Rightarrow> u32 \<Rightarrow> ('w, 'c, 'v, int) host_fn" where
  "host_transaction_hash R env =
     host_write R env (address_to_bytes (txn_hash (base_tx (env_call_tx env))))"

section \<open>Logs and return values\<close>

definition host_log ::
  "('w, 'c, 'm, 'v) runtime \<Rightarrow> 'v env \<Rightarrow> u32 \<Rightarrow> u32 \<Rightarrow> ('w, 'c, 'v, int) host_fn" where
  "host_log R env log_ptr log_len =
     hf_bind (hf_read_bytes R log_ptr log_len) (\<lambda>serialized_log.
     case deserialize_log (rt_vm R) serialized_log of
       None \<Rightarrow> hf_err FE_Runtime
     | Some l \<Rightarrow>
         let log_cost =
           fst (net_cost (cc_deduct (blockchain_log_cost (length (log_topic l)) (length (log_value l)))))
         in hf_bind hf_remaining_gas (\<lambda>gas.
            if log_cost > gas then
              hf_bind (hf_deduct_gas log_cost) (\<lambda>_. hf_err FE_GasExhaustionError)
            else hf_bind (hf_append_log l) (\<lambda>_. hf_return 0)))"

definition host_return_value ::
  "('w, 'c, 'm, 'v) runtime \<Rightarrow> 'v env \<Rightarrow> u32 \<Rightarrow> u32 \<Rightarrow> ('w, 'c, 'v, int) host_fn" where
  "host_return_value R env value_ptr value_len =
     hf_bind (hf_read_bytes R value_ptr value_len) (\<lambda>value.
     let ret_val_cost = fst (net_cost (cc_deduct (blockchain_storage_cost (length value))))
     in hf_bind hf_remaining_gas (\<lambda>gas.
        if ret_val_cost > gas then
          hf_bind (hf_deduct_gas ret_val_cost) (\<lambda>_. hf_err FE_GasExhaustionError)
        else hf_bind (hf_set_return_value value) (\<lambda>_. hf_return 0)))"

section \<open>Transfers and calls\<close>

definition transfer_from_contract ::
  "('w, 'c, 'm, 'v) runtime \<Rightarrow> public_address \<Rightarrow> u64 \<Rightarrow> public_address \<Rightarrow>
   ('w, 'c, 'v, unit) host_fn" where
  "transfer_from_contract R from amount recipient =
     hf_bind (hf_ws_get_balance R from) (\<lambda>from_balance.
     case checked_sub from_balance amount of
       None \<Rightarrow> hf_err FE_InsufficientBalance
     | Some from_address_new_balance \<Rightarrow>
         hf_bind (hf_ws_set_balance R from from_address_new_balance) (\<lambda>_.
         hf_bind (hf_ws_get_balance R recipient) (\<lambda>to_address_prev_balance.
         hf_ws_set_balance R recipient (saturating_add to_address_prev_balance amount))))"

definition host_transfer ::
  "('w, 'c, 'm, 'v) runtime \<Rightarrow> 'v env \<Rightarrow> u32 \<Rightarrow> ('w, 'c, 'v, int) host_fn" where
  "host_transfer R env transfer_input_ptr =
     hf_bind (hf_read_bytes R transfer_input_ptr 40) (\<lambda>transfer_bytes.
     if length transfer_bytes < 32 \<or> length (drop 32 transfer_bytes) \<noteq> 8 then hf_panic
     else
       let recipient = address_of_bytes (take 32 transfer_bytes);
           amount = from_le_bytes (drop 32 transfer_bytes)
       in hf_bind (transfer_from_contract R (ct_target (env_call_tx env)) amount recipient)
            (\<lambda>_. hf_return 0))"

text \<open>How a contract instance is run: instance, call counter, view flag, call, block, context.\<close>

type_synonym ('w, 'c, 'v) contract_runner =
  "'v wasm_instance \<Rightarrow> u32 \<Rightarrow> bool \<Rightarrow> call_tx \<Rightarrow> blockchain_params \<Rightarrow> ('w, 'c) transition_context \<Rightarrow>
   (('w, 'c) transition_context \<times> u64 \<times> method_call_error option) option"

definition run_child ::
  "('w, 'c, 'v) contract_runner \<Rightarrow> 'v wasm_instance \<Rightarrow> u32 \<Rightarrow> bool \<Rightarrow> call_tx \<Rightarrow> blockchain_params \<Rightarrow>
   ('w, 'c, 'v, u64 \<times> method_call_error option) host_fn" where
  "run_child child inst counter view tx bd hs = do {
     (ctx, gas, err) \<leftarrow> child inst counter view tx bd (hs_ctx hs);
     Some (Inr (gas, err), hs\<lparr>hs_ctx := ctx\<rparr>)
   }"

definition saturating_add_u32 :: "u32 \<Rightarrow> u32 \<Rightarrow> u32" where
  "saturating_add_u32 a b = min (a + b) U32_MAX"

definition child_call_tx ::
  "'v env \<Rightarrow> u64 \<Rightarrow> public_address \<Rightarrow> string \<Rightarrow> bytes list option \<Rightarrow> u64 option \<Rightarrow> call_tx" where
  "child_call_tx env gas target method args amount =
     \<lparr>base_tx = (base_tx (env_call_tx env))
        \<lparr>signer := ct_target (env_call_tx env), gas_limit := gas\<rparr>,
      ct_target = target, ct_method = method, ct_arguments = args, ct_amount = amount\<rparr>"

text \<open>The part of \<^verbatim>\<open>call\<close> from the instantiation of the target on.\<close>

definition host_run_contract ::
  "('w, 'c, 'm, 'v) runtime \<Rightarrow> ('w, 'c, 'v) contract_runner \<Rightarrow> 'v env \<Rightarrow> u32 \<Rightarrow>
   public_address \<Rightarrow> string \<Rightarrow> bytes list option \<Rightarrow> u64 option \<Rightarrow> 'm contract_module \<Rightarrow> u64 \<Rightarrow>
   ('w, 'c, 'v, int) host_fn" where
  "host_run_contract R child env return_ptr_ptr target method args amount contract_module gas =
     (case vm_instantiate (rt_vm R) contract_module (env_is_view env) of
       None \<Rightarrow> hf_err FE_ContractNotFound
     | Some inst \<Rightarrow>
         hf_bind (run_child child inst (saturating_add_u32 (env_call_counter env) 1)
           (env_is_view env) (child_call_tx env gas target method args amount) (env_bd env))
           (\<lambda>(consumed, child_call_error).
         hf_bind (hf_deduct_gas consumed) (\<lambda>_.
         case child_call_error of
           None \<Rightarrow> hf_bind hf_take_return_value (\<lambda>res.
             case res of Some v \<Rightarrow> host_write_len R env v return_ptr_ptr | None \<Rightarrow> hf_return 0)
         | Some e \<Rightarrow> hf_bind hf_remaining_gas (\<lambda>gas.
             if gas = 0 then hf_err FE_GasExhaustionError else hf_err (FE_MethodCallError e)))))"

definition host_call_contract ::
  "('w, 'c, 'm, 'v) runtime \<Rightarrow> ('w, 'c, 'v) contract_runner \<Rightarrow> 'v env \<Rightarrow> u32 \<Rightarrow>
   public_address \<Rightarrow> string \<Rightarrow> bytes list option \<Rightarrow> u64 option \<Rightarrow> ('w, 'c, 'v, int) host_fn" where
  "host_call_contract R child env return_ptr_ptr target method args amount =
     hf_bind (case amount of
                Some a \<Rightarrow> transfer_from_contract R (ct_target (env_call_tx env)) a target
              | None \<Rightarrow> hf_return ()) (\<lambda>_.
     hf_bind (hf_ws_cached_contract R target) (\<lambda>m.
     case m of
       None \<Rightarrow> hf_err FE_ContractNotFound
     | Some contract_module \<Rightarrow>
         hf_bind hf_remaining_gas
           (host_run_contract R child env return_ptr_ptr target method args amount contract_module)))"

definition host_call ::
  "('w, 'c, 'm, 'v) runtime \<Rightarrow> ('w, 'c, 'v) contract_runner \<Rightarrow> 'v env \<Rightarrow> u32 \<Rightarrow> u32 \<Rightarrow> u32 \<Rightarrow>
   ('w, 'c, 'v, int) host_fn" where
  "host_call R child env call_input_ptr call_input_len return_ptr_ptr =
     hf_bind (hf_read_bytes R call_input_ptr call_input_len) (\<lambda>call_command_bytes.
     case deserialize_command (rt_vm R) call_command_bytes of
       None \<Rightarrow> hf_err FE_Runtime
     | Some call_command \<Rightarrow>
         (case call_command of
            Call target method args amount \<Rightarrow>
              if env_is_view env \<and> amount \<noteq> None then hf_err FE_Internal
              else host_call_contract R child env return_ptr_ptr target method args amount
          | _ \<Rightarrow> hf_err FE_Internal))"

section \<open>Deferred commands\<close>

definition hf_append_deferred :: "deferred_command \<Rightarrow> ('w, 'c, 'v, unit) host_fn" where
  "hf_append_deferred d hs = Some (Inr (), hs\<lparr>hs_ctx := append_deferred_command (hs_ctx hs) d\<rparr>)"

definition host_defer ::
  "('w, 'c, 'm, 'v) runtime \<Rightarrow> 'v env \<Rightarrow> command_kind \<Rightarrow> u32 \<Rightarrow> u32 \<Rightarrow> ('w, 'c, 'v, int) host_fn" where
  "host_defer R env kind input_ptr input_len =
     hf_bind (hf_read_bytes R input_ptr input_len) (\<lambda>serialized_command.
     case deserialize_command (rt_vm R) serialized_command of
       None \<Rightarrow> hf_err FE_Runtime
     | Some command \<Rightarrow>
         if command_kind_of command \<noteq> kind then hf_err FE_Internal
         else hf_bind (hf_append_deferred
                \<lparr>contract_address = ct_target (env_call_tx env), dc_command = command\<rparr>)
                (\<lambda>_. hf_return 0))"

definition host_defer_create_deposit ::
  "('w, 'c, 'm, 'v) runtime \<Rightarrow> 'v env \<Rightarrow> u32 \<Rightarrow> u32 \<Rightarrow> ('w, 'c, 'v, int) host_fn" where
  "host_defer_create_deposit R env = host_defer R env KCreateDeposit"

definition host_defer_set_deposit_settings ::
  "('w, 'c, 'm, 'v) runtime \<Rightarrow> 'v env \<Rightarrow> u32 \<Rightarrow> u32 \<Rightarrow> ('w, 'c, 'v, int) host_fn" where
  "host_defer_set_deposit_settings R env = host_defer R env KSetDepositSettings"

definition host_defer_topup_deposit ::
  "('w, 'c, 'm, 'v) runtime \<Rightarrow> 'v env \<Rightarrow> u32 \<Rightarrow> u32 \<Rightarrow> ('w, 'c, 'v, int) host_fn" where
  "host_defer_topup_deposit R env = host_defer R env KTopUpDeposit"

definition host_defer_withdraw_deposit ::
  "('w, 'c, 'm, 'v) runtime \<Rightarrow> 'v env \<Rightarrow> u32 \<Rightarrow> u32 \<Rightarrow> ('w, 'c, 'v, int) host_fn" where
  "host_defer_withdraw_deposit R env = host_defer R env KWithdrawDeposit"

definition host_defer_stake_deposit ::
  "('w, 'c, 'm, 'v) runtime \<Rightarrow> 'v env \<Rightarrow> u32 \<Rightarrow> u32 \<Rightarrow> ('w, 'c, 'v, int) host_fn" where
  "host_defer_stake_deposit R env = host_defer R env KStakeDeposit"

definition host_defer_unstake_deposit ::
  "('w, 'c, 'm, 'v) runtime \<Rightarrow> 'v env \<Rightarrow> u32 \<Rightarrow> u32 \<Rightarrow> ('w, 'c, 'v, int) host_fn" where
  "host_defer_unstake_deposit R env = host_defer R env KUnstakeDeposit"

section \<open>Cryptography\<close>

definition host_sha256 ::
  "('w, 'c, 'm, 'v) runtime \<Rightarrow> 'v env \<Rightarrow> u32 \<Rightarrow> u32 \<Rightarrow> u32 \<Rightarrow> ('w, 'c, 'v, int) host_fn" where
  "host_sha256 R env msg_ptr msg_len digest_ptr_ptr =
     hf_bind (hf_read_bytes R msg_ptr msg_len) (\<lambda>input_bytes.
     hf_bind (hf_sha256 R input_bytes) (\<lambda>digest.
     host_write R env digest digest_ptr_ptr))"

definition host_keccak256 ::
  "('w, 'c, 'm, 'v) runtime \<Rightarrow> 'v env \<Rightarrow> u32 \<Rightarrow> u32 \<Rightarrow> u32 \<Rightarrow> ('w, 'c, 'v, int) host_fn" where
  "host_keccak256 R env msg_ptr msg_len digest_ptr_ptr =
     hf_bind (hf_read_bytes R msg_ptr msg_len) (\<lambda>input_bytes.
     hf_bind (hf_keccak256 R input_bytes) (\<lambda>digest.
     host_write R env digest digest_ptr_ptr))"

definition host_ripemd ::
  "('w, 'c, 'm, 'v) runtime \<Rightarrow> 'v env \<Rightarrow> u32 \<Rightarrow> u32 \<Rightarrow> u32 \<Rightarrow> ('w, 'c, 'v, int) host_fn" where
  "host_ripemd R env msg_ptr msg_len digest_ptr_ptr =
     hf_bind (hf_read_bytes R msg_ptr msg_len) (\<lambda>input_bytes.
     hf_bind (hf_ripemd R input_bytes) (\<lambda>digest.
     host_write R env digest digest_ptr_ptr))"

definition host_verify_ed25519_signature ::
  "('w, 'c, 'm, 'v) runtime \<Rightarrow> 'v env \<Rightarrow> u32 \<Rightarrow> u32 \<Rightarrow> u32 \<Rightarrow> u32 \<Rightarrow> ('w, 'c, 'v, int) host_fn" where
  "host_verify_ed25519_signature R env msg_ptr msg_len signature_ptr address_ptr =
     hf_bind (hf_read_bytes R msg_ptr msg_len) (\<lambda>message.
     hf_bind (hf_read_bytes R signature_ptr 64) (\<lambda>signature.
     hf_bind (hf_read_bytes R address_ptr 32) (\<lambda>address.
     if length signature \<noteq> 64 \<or> length address \<noteq> 32 then hf_panic
     else
       hf_bind (hf_verify_ed25519_signature R message signature address) (\<lambda>is_ok.
       case is_ok of
         None \<Rightarrow> hf_err FE_Internal
       | Some b \<Rightarrow> hf_return (if b then 1 else 0)))))"

section \<open>The import tables\<close>

fun create_importable ::
  "('w, 'c, 'm, 'v) runtime \<Rightarrow> ('w, 'c, 'v) contract_runner \<Rightarrow> 'v env \<Rightarrow> host_call \<Rightarrow>
   ('w, 'c, 'v, int) host_fn" where
  "create_importable R child env (H_set a b c d) = host_set R env a b c d"
| "create_importable R child env (H_get a b c) = host_get R env a b c"
| "create_importable R child env (H_get_network_storage a b c) = host_get_network_storage R env a b c"
| "create_importable R child env H_balance = host_balance R env"
| "create_importable R child env H_block_height = host_block_height env"
| "create_importable R child env H_block_timestamp = host_block_timestamp env"
| "create_importable R child env (H_prev_block_hash a) = host_prev_block_hash R env a"
| "create_importable R child env (H_calling_account a) = host_calling_account R env a"
| "create_importable R child env (H_current_account a) = host_current_account R env a"
| "create_importable R child env (H_method a) = host_method R env a"
| "create_importable R child env (H_arguments a) = host_arguments R env a"
| "create_importable R child env H_amount = host_amount env"
| "create_importable R child env H_is_internal_call = host_is_internal_call env"
| "create_importable R child env (H_transaction_hash a) = host_transaction_hash R env a"
| "create_importable R child env (H_call a b c) = host_call R child env a b c"
| "create_importable R child env (H_return_value a b) = host_return_value R env a b"
| "create_importable R child env (H_transfer a) = host_transfer R env a"
| "create_importable R child env (H_defer_create_deposit a b) = host_defer_create_deposit R env a b"
| "create_importable R child env (H_defer_set_deposit_settings a b) =
     host_defer_set_deposit_settings R env a b"
| "create_importable R child env (H_defer_topup_deposit a b) = host_defer_topup_deposit R env a b"
| "create_importable R child env (H_defer_withdraw_deposit a b) = host_defer_withdraw_deposit R env a b"
| "create_importable R child env (H_defer_stake_deposit a b) = host_defer_stake_deposit R env a b"
| "create_importable R child env (H_defer_unstake_deposit a b) = host_defer_unstake_deposit R env a b"
| "create_importable R child env (H_log a b) = host_log R env a b"
| "create_importable R child env (H_sha256 a b c) = host_sha256 R env a b c"
| "create_importable R child env (H_keccak256 a b c) = host_keccak256 R env a b c"
| "create_importable R child env (H_ripemd a b c) = host_ripemd R env a b c"
| "create_importable R child env (H_verify_ed25519_signature a b c d) =
     host_verify_ed25519_signature R env a b c d"

text \<open>The functions that the table for view calls replaces by stubs that fail.\<close>

fun not_callable :: "host_call \<Rightarrow> bool" where
  "not_callable (H_set a b c d) = True"
| "not_callable H_block_height = True"
| "not_callable H_block_timestamp = True"
| "not_callable (H_prev_block_hash a) = True"
| "not_callable (H_calling_account a) = True"
| "not_callable H_amount = True"
| "not_callable (H_transaction_hash a) = True"
| "not_callable (H_transfer a) = True"
| "not_callable (H_defer_create_deposit a b) = True"
| "not_callable (H_defer_set_deposit_settings a b) = True"
| "not_callable (H_defer_topup_deposit a b) = True"
| "not_callable (H_defer_withdraw_deposit a b) = True"
| "not_callable (H_defer_stake_deposit a b) = True"
| "not_callable (H_defer_unstake_deposit a b) = True"
| "not_callable f = False"

definition create_importable_view ::
  "('w, 'c, 'm, 'v) runtime \<Rightarrow> ('w, 'c, 'v) contract_runner \<Rightarrow> 'v env \<Rightarrow> host_call \<Rightarrow>
   ('w, 'c, 'v, int) host_fn" where
  "create_importable_view R child env f =
     (if not_callable f then hf_err FE_Internal else create_importable R child env f)"

definition importable ::
  "('w, 'c, 'm, 'v) runtime \<Rightarrow> ('w, 'c, 'v) contract_runner \<Rightarrow> 'v env \<Rightarrow> host_call \<Rightarrow>
   ('w, 'c, 'v, int) host_fn" where
  "importable R child env f =
     (if env_is_view env then create_importable_view R child env f
      else create_importable R child env f)"

section \<open>Frames\<close>

text \<open>The commands a contract may defer.\<close>

definition defer_ok :: "deferred_command \<Rightarrow> bool" where
  "defer_ok d \<longleftrightarrow> command_kind_of (dc_command d) \<in>
     {KCreateDeposit, KSetDepositSettings, KTopUpDeposit, KWithdrawDeposit, KStakeDeposit,
      KUnstakeDeposit}"

text \<open>In a view call nothing may change and nothing may be deferred.\<close>

definition call_frame ::
  "('w, 'c, 'm, 'v) runtime \<Rightarrow> bool \<Rightarrow> ('w, 'c) transition_context \<Rightarrow> ('w, 'c) transition_context \<Rightarrow> bool"
where
  "call_frame R view = ctx_frame (rt_ws R) (if view then {} else UNIV) {} (if view then {} else UNIV)
     (if view then (\<lambda>d. False) else defer_ok)"

definition runner_ok :: "('w, 'c, 'm, 'v) runtime \<Rightarrow> ('w, 'c, 'v) contract_runner \<Rightarrow> bool" where
  "runner_ok R child \<longleftrightarrow> (\<forall>inst n view tx bd ctx ctx' g e.
     child inst n view tx bd ctx = Some (ctx', g, e) \<longrightarrow> call_frame R view ctx ctx')"

definition env_ok :: "('w, 'c, 'm, 'v) runtime \<Rightarrow> bool \<Rightarrow> ('w, 'c, 'v, 'a) host_fn \<Rightarrow> bool" where
  "env_ok R view = hf_ok (rt_ws R) (if view then {} else UNIV) (if view then {} else UNIV)
     (if view then (\<lambda>d. False) else defer_ok)"

lemma hf_ok_prod [hf_rules]:
  "(\<And>a b. x = (a, b) \<Longrightarrow> hf_ok W A S D (f a b)) \<Longrightarrow> hf_ok W A S D (case x of (a, b) \<Rightarrow> f a b)"
  by (cases x) simp

lemma hf_ok_defer:
  "D d \<Longrightarrow> hf_ok W A S D (hf_append_deferred d)"
  by (auto simp: hf_ok_def hf_append_deferred_def hs_keeps_def intro: ctx_frame_defer)

lemma hf_ok_child:
  "runner_ok R child \<Longrightarrow> env_ok R view (run_child child inst n view tx bd)"
  by (fastforce simp: env_ok_def hf_ok_def run_child_def bind_convs hs_keeps_def runner_ok_def
      call_frame_def)

lemmas hf_reads = host_get_from_def host_get_def host_get_network_storage_def host_balance_def
  host_block_height_def host_block_timestamp_def host_write_def host_write_len_def
  host_prev_block_hash_def host_calling_account_def host_current_account_def host_method_def
  host_arguments_def host_amount_def host_is_internal_call_def host_transaction_hash_def
  host_log_def host_return_value_def host_sha256_def host_keccak256_def host_ripemd_def
  host_verify_ed25519_signature_def

lemma hf_ok_reads [hf_rules]:
  "hf_ok (rt_ws R) A S D (host_get R env a b c)"
  "hf_ok (rt_ws R) A S D (host_get_network_storage R env a b c)"
  "hf_ok (rt_ws R) A S D (host_balance R env)"
  "hf_ok (rt_ws R) A S D (host_block_height env)"
  "hf_ok (rt_ws R) A S D (host_block_timestamp env)"
  "hf_ok (rt_ws R) A S D (host_prev_block_hash R env a)"
  "hf_ok (rt_ws R) A S D (host_calling_account R env a)"
  "hf_ok (rt_ws R) A S D (host_current_account R env a)"
  "hf_ok (rt_ws R) A S D (host_method R env a)"
  "hf_ok (rt_ws R) A S D (host_arguments R env a)"
  "hf_ok (rt_ws R) A S D (host_amount env)"
  "hf_ok (rt_ws R) A S D (host_is_internal_call env)"
  "hf_ok (rt_ws R) A S D (host_transaction_hash R env a)"
  "hf_ok (rt_ws R) A S D (host_return_value R env a b)"
  "hf_ok (rt_ws R) A S D (host_log R env a b)"
  "hf_ok (rt_ws R) A S D (host_sha256 R env a b c)"
  "hf_ok (rt_ws R) A S D (host_keccak256 R env a b c)"
  "hf_ok (rt_ws R) A S D (host_ripemd R env a b c)"
  "hf_ok (rt_ws R) A S D (host_verify_ed25519_signature R env a b c d)"
  "hf_ok (rt_ws R) A S D (host_write_len R env v p)"
  unfolding hf_reads by (intro hf_rules)+

lemma hf_ok_transfer:
  "from \<in> A \<Longrightarrow> to \<in> A \<Longrightarrow> hf_ok (rt_ws R) A S D (transfer_from_contract R from n to)"
  unfolding transfer_from_contract_def by (intro hf_rules)

lemma env_ok_host_call_contract:
  assumes "runner_ok R child" "env_is_view env \<Longrightarrow> amount = None"
  shows "env_ok R (env_is_view env) (host_call_contract R child env p target m args amount)"
  using assms(2) hf_ok_child[OF assms(1)] unfolding host_call_contract_def host_run_contract_def env_ok_def
  by (intro hf_rules hf_ok_transfer) auto

lemma env_ok_bind:
  "env_ok R view m \<Longrightarrow> (\<And>a. env_ok R view (f a)) \<Longrightarrow> env_ok R view (hf_bind m f)"
  unfolding env_ok_def by (rule hf_ok_bind)

lemma env_ok_basic [simp]:
  "env_ok R view (hf_err e)" "env_ok R view (hf_return x)" "env_ok R view (hf_read_bytes R p l)"
  unfolding env_ok_def by (intro hf_rules)+

lemma env_ok_host_call:
  "runner_ok R child \<Longrightarrow> env_ok R (env_is_view env) (host_call R child env a b c)"
  unfolding host_call_def
  by (rule env_ok_bind) (auto split: option.split command.split intro!: env_ok_host_call_contract)

lemma env_ok_host_defer:
  "k \<in> {KCreateDeposit, KSetDepositSettings, KTopUpDeposit, KWithdrawDeposit,
     KStakeDeposit, KUnstakeDeposit} \<Longrightarrow> env_ok R False (host_defer R env k a b)"
  unfolding host_defer_def env_ok_def
  by (intro hf_rules hf_ok_defer) (auto simp: defer_ok_def)

lemma env_ok_host_defers [simp]:
  "env_ok R False (host_defer_create_deposit R env a b)"
  "env_ok R False (host_defer_set_deposit_settings R env a b)"
  "env_ok R False (host_defer_topup_deposit R env a b)"
  "env_ok R False (host_defer_withdraw_deposit R env a b)"
  "env_ok R False (host_defer_stake_deposit R env a b)"
  "env_ok R False (host_defer_unstake_deposit R env a b)"
  by (simp_all add: env_ok_host_defer host_defer_create_deposit_def
      host_defer_set_deposit_settings_def host_defer_topup_deposit_def
      host_defer_withdraw_deposit_def host_defer_stake_deposit_def host_defer_unstake_deposit_def)

lemma env_ok_reads [simp]:
  "env_ok R view (host_get R env a b c)" "env_ok R view (host_get_network_storage R env a b c)"
  "env_ok R view (host_balance R env)" "env_ok R view (host_block_height env)"
  "env_ok R view (host_block_timestamp env)" "env_ok R view (host_prev_block_hash R env a)"
  "env_ok R view (host_calling_account R env a)" "env_ok R view (host_current_account R env a)"
  "env_ok R view (host_method R env a)" "env_ok R view (host_arguments R env a)"
  "env_ok R view (host_amount env)" "env_ok R view (host_is_internal_call env)"
  "env_ok R view (host_transaction_hash R env a)" "env_ok R view (host_return_value R env a b)"
  "env_ok R view (host_log R env a b)" "env_ok R view (host_sha256 R env a b c)"
  "env_ok R view (host_keccak256 R env a b c)" "env_ok R view (host_ripemd R env a b c)"
  "env_ok R view (host_verify_ed25519_signature R env a b c d)"
  unfolding env_ok_def by (intro hf_rules)+

lemma env_ok_writes [simp]:
  "env_ok R False (host_set R env a b c d)" "env_ok R False (host_transfer R env a)"
  unfolding env_ok_def host_set_def host_transfer_def
  by (intro hf_rules hf_ok_transfer UNIV_I | simp)+

lemma env_ok_create_importable:
  assumes "runner_ok R child" "\<not> env_is_view env"
  shows "env_ok R False (create_importable R child env f)"
  using env_ok_host_call[OF assms(1), of env] assms(2) by (cases f) simp_all

lemma env_ok_create_importable_view:
  assumes "runner_ok R child" "env_is_view env"
  shows "env_ok R True (create_importable_view R child env f)"
  using env_ok_host_call[OF assms(1), of env] assms(2)
  by (cases f) (simp_all add: create_importable_view_def)

lemma env_ok_importable:
  "runner_ok R child \<Longrightarrow> env_ok R (env_is_view env) (importable R child env f)"
  using env_ok_create_importable[of R child env f] env_ok_create_importable_view[of R child env f]
  by (simp add: importable_def)

end
