(* ===== verification/Contract_Instance.thy ===== *)
theory Contract_Instance
  imports Host_Functions
begin

text \<open>
  Running a contract: the instance of \<^verbatim>\<open>src/contract/wasmer/instance.rs\<close> and
  \<^verbatim>\<open>src/contract/instance.rs\<close>, with the environment of \<^verbatim>\<open>src/contract/wasmer/env.rs\<close>. The guest runs
  against the import table; a call of another contract runs that contract in turn. The recursion is
  bounded by a depth, and the lemmas show that a depth of the gas limit plus one is always enough
  when guests pay for their opcodes, so that the bound is never what ends a call.
\<close>

section \<open>The runner\<close>

text \<open>\<open>Inl\<close> is a trap, with the error of the host function that raised it, if one did.\<close>

primrec run_guest ::
  "('w, 'c, 'm, 'v) runtime \<Rightarrow> ('w, 'c, 'v) contract_runner \<Rightarrow> 'v env \<Rightarrow> 'v guest \<Rightarrow>
   ('w, 'c, 'v) host_state \<Rightarrow> ((func_error option + unit) \<times> ('w, 'c, 'v) host_state) option" where
  "run_guest R child env G_Return hs = Some (Inr (), hs)"
| "run_guest R child env G_Trap hs = Some (Inl None, hs)"
| "run_guest R child env (G_Ops n g) hs =
     (if fst (wasm_ops (hs_gas hs) n)
      then run_guest R child env g (hs\<lparr>hs_gas := snd (wasm_ops (hs_gas hs) n)\<rparr>)
      else Some (Inl None, hs\<lparr>hs_gas := snd (wasm_ops (hs_gas hs) n)\<rparr>))"
| "run_guest R child env (G_Host f mem k) hs =
     importable R child env f (hs\<lparr>hs_mem := mem\<rparr>) \<bind> (\<lambda>(r, hs).
       case r of
         Inl e \<Rightarrow> Some (Inl (Some e), hs)
       | Inr v \<Rightarrow> run_guest R child env (k v (hs_mem hs)) hs)"

definition call_method ::
  "('w, 'c, 'm, 'v) runtime \<Rightarrow> ('w, 'c, 'v) contract_runner \<Rightarrow> 'v env \<Rightarrow> 'v wasm_instance \<Rightarrow>
   ('w, 'c, 'v) host_state \<Rightarrow>
   ((u64 \<times> method_call_error option) \<times> ('w, 'c, 'v) host_state) option" where
  "call_method R child env inst hs =
     (case inst_entrypoint inst of
        None \<Rightarrow> Some ((wg_remaining (hs_gas hs), Some MCE_NoExportedMethod), hs)
      | Some entry \<Rightarrow> do {
          (execution_result, hs) \<leftarrow> run_guest R child env entry hs;
          let remaining_gas = wg_remaining (hs_gas hs);
          Some ((remaining_gas,
            case execution_result of
              Inr _ \<Rightarrow> None
            | Inl e \<Rightarrow> if remaining_gas = 0 then Some MCE_GasExhaustion else Some (MCE_Runtime e)), hs)
        })"

definition env_new ::
  "'v wasm_instance \<Rightarrow> u32 \<Rightarrow> bool \<Rightarrow> call_tx \<Rightarrow> blockchain_params \<Rightarrow> 'v env" where
  "env_new inst counter view tx bd =
     \<lparr>env_call_counter = counter, env_is_view = view, env_call_tx = tx, env_bd = bd,
      env_alloc = inst_alloc inst\<rparr>"

fun contract_call ::
  "('w, 'c, 'm, 'v) runtime \<Rightarrow> nat \<Rightarrow> ('w, 'c, 'v) contract_runner" where
  "contract_call R 0 inst counter view tx bd ctx = None"
| "contract_call R (Suc depth) inst counter view tx bd ctx = do {
     let hs = \<lparr>hs_ctx = ctx, hs_gas = wg_initialize (wg_new (gas_limit (base_tx tx))),
               hs_mem = inst_memory inst\<rparr>;
     ((remaining_gas, call_error), hs) \<leftarrow>
       call_method R (contract_call R depth) (env_new inst counter view tx bd) inst hs;
     _ \<leftarrow> wg_deinit (hs_gas hs);
     let total_gas = saturating_sub (gas_limit (base_tx tx)) remaining_gas;
     Some (hs_ctx hs, total_gas, call_error)
   }"

section \<open>What a call may change\<close>

definition env_keeps ::
  "('w, 'c, 'm, 'v) runtime \<Rightarrow> bool \<Rightarrow> ('w, 'c, 'v) host_state \<Rightarrow> ('w, 'c, 'v) host_state \<Rightarrow> bool" where
  "env_keeps R view = hs_keeps (rt_ws R) (if view then {} else UNIV) (if view then {} else UNIV)
     (if view then (\<lambda>d. False) else defer_ok)"

lemma env_keeps_trans: "env_keeps R v x y \<Longrightarrow> env_keeps R v y z \<Longrightarrow> env_keeps R v x z"
  unfolding env_keeps_def by (rule hs_keeps_trans)

lemma env_keeps_simps [simp]:
  "env_keeps R v x x" "env_keeps R v x (x\<lparr>hs_gas := snd (wasm_ops (hs_gas x) n)\<rparr>)"
  "env_keeps R v (x\<lparr>hs_mem := m\<rparr>) y = env_keeps R v x y"
  by (simp_all add: env_keeps_def) (simp add: hs_keeps_def)

lemma importable_keeps:
  "runner_ok R child \<Longrightarrow> importable R child env f hs = Some (r, hs') \<Longrightarrow>
   env_keeps R (env_is_view env) hs hs'"
  using env_ok_importable[of R child env f] unfolding env_ok_def env_keeps_def by (rule hf_okD)

lemma run_guest_keeps:
  assumes "runner_ok R child"
  shows "run_guest R child env g hs = Some (r, hs') \<Longrightarrow> env_keeps R (env_is_view env) hs hs'"
proof (induction g arbitrary: hs)
  case (G_Ops n g)
  show ?case
  proof (cases "fst (wasm_ops (hs_gas hs) n)")
    case True
    with G_Ops.prems have "run_guest R child env g (hs\<lparr>hs_gas := snd (wasm_ops (hs_gas hs) n)\<rparr>)
        = Some (r, hs')"
      by simp
    then show ?thesis
      using env_keeps_trans[OF env_keeps_simps(2) G_Ops.IH] by blast
  next
    case False
    with G_Ops.prems show ?thesis
      by auto
  qed
next
  case (G_Host f mem k)
  then obtain x hs1 where imp: "importable R child env f (hs\<lparr>hs_mem := mem\<rparr>) = Some (x, hs1)"
    and rest: "(case x of Inl e \<Rightarrow> Some (Inl (Some e), hs1)
       | Inr v \<Rightarrow> run_guest R child env (k v (hs_mem hs1)) hs1) = Some (r, hs')"
    by (auto simp: bind_convs)
  have "env_keeps R (env_is_view env) hs hs1"
    using importable_keeps[OF assms imp] by simp
  moreover have "env_keeps R (env_is_view env) hs1 hs'"
    using rest G_Host.IH[OF rangeI rangeI] by (cases x) auto
  ultimately show ?case
    by (rule env_keeps_trans)
qed auto

lemma call_method_keeps:
  assumes "runner_ok R child" "call_method R child env inst hs = Some (r, hs')"
  shows "env_keeps R (env_is_view env) hs hs'"
  using assms(2) run_guest_keeps[OF assms(1)]
  by (auto simp: call_method_def bind_convs Let_def split: option.split_asm)

lemma contract_call_ok: "runner_ok R (contract_call R depth)"
proof (induction depth)
  case 0
  then show ?case
    by (simp add: runner_ok_def)
next
  case (Suc depth)
  show ?case
    unfolding runner_ok_def
  proof (intro allI impI)
    fix inst n view tx bd ctx ctx' g e
    assume "contract_call R (Suc depth) inst n view tx bd ctx = Some (ctx', g, e)"
    then obtain r hs' where "call_method R (contract_call R depth) (env_new inst n view tx bd) inst
        \<lparr>hs_ctx = ctx, hs_gas = wg_initialize (wg_new (gas_limit (base_tx tx))),
         hs_mem = inst_memory inst\<rparr> = Some (r, hs')" and ctx': "ctx' = hs_ctx hs'"
      by (auto simp: bind_convs Let_def)
    then have "env_keeps R view \<lparr>hs_ctx = ctx, hs_gas = wg_initialize (wg_new (gas_limit (base_tx tx))),
         hs_mem = inst_memory inst\<rparr> hs'"
      using call_method_keeps[OF Suc.IH] by (fastforce simp: env_new_def)
    then show "call_frame R view ctx ctx'"
      by (simp add: call_frame_def env_keeps_def hs_keeps_def ctx')
  qed
qed

lemmas contract_call_frame = contract_call_ok[unfolded runner_ok_def, rule_format]

section \<open>Calls end\<close>

text \<open>
  A guest pays for opcodes before every call of a host function: \<open>paid\<close> tells whether it did
  since the last one. Wasmer's metering charges every opcode, the call instruction among them.
\<close>

primrec metered :: "bool \<Rightarrow> 'v guest \<Rightarrow> bool" where
  "metered paid G_Return = True"
| "metered paid G_Trap = True"
| "metered paid (G_Ops n g) = metered (paid \<or> 0 < n) g"
| "metered paid (G_Host f mem k) = (paid \<and> (\<forall>r mem'. metered False (k r mem')))"

definition metered_instance :: "'v wasm_instance \<Rightarrow> bool" where
  "metered_instance inst \<longleftrightarrow> (\<forall>g. inst_entrypoint inst = Some g \<longrightarrow> metered False g)"

definition metering_law :: "('w, 'c, 'm, 'v) runtime \<Rightarrow> bool" where
  "metering_law R \<longleftrightarrow>
     (\<forall>cm view inst. vm_instantiate (rt_vm R) cm view = Some inst \<longrightarrow> metered_instance inst)"

text \<open>Two runners that agree on every call with less than \<open>n\<close> gas.\<close>

definition runners_agree ::
  "nat \<Rightarrow> ('w, 'c, 'v) contract_runner \<Rightarrow> ('w, 'c, 'v) contract_runner \<Rightarrow> bool" where
  "runners_agree n c d \<longleftrightarrow> (\<forall>inst k view tx bd ctx. metered_instance inst \<longrightarrow>
     gas_limit (base_tx tx) < n \<longrightarrow> c inst k view tx bd ctx = d inst k view tx bd ctx)"

lemma hf_bind_cong:
  "m hs = m' hs \<Longrightarrow> (\<And>a hs1. m' hs = Some (Inr a, hs1) \<Longrightarrow> f a hs1 = f' a hs1) \<Longrightarrow>
   hf_bind m f hs = hf_bind m' f' hs"
  by (cases "m' hs") (auto simp: hf_bind_def split: sum.split)

lemma points_mono:
  "hf_ok W A S D m \<Longrightarrow> m hs = Some (r, hs') \<Longrightarrow> wg_points (hs_gas hs') \<le> wg_points (hs_gas hs)"
  by (drule hf_okD) (auto simp: hs_keeps_def)

lemma remaining_gas_points: "hf_remaining_gas hs = Some (Inr g, hs') \<Longrightarrow> g = wg_points (hs_gas hs)"
  by (auto simp: hf_remaining_gas_def wg_gas_def bind_convs split: if_splits)

lemma host_run_contract_agree:
  assumes "runners_agree n c d" "metering_law R" "gas < n"
  shows "host_run_contract R c env p target m args amount cm gas hs =
    host_run_contract R d env p target m args amount cm gas hs"
  using assms unfolding host_run_contract_def
  by (auto simp: runners_agree_def metering_law_def run_child_def child_call_tx_def
      split: option.split intro!: hf_bind_cong)

lemma host_call_contract_agree:
  assumes agree: "runners_agree n c d" and law: "metering_law R"
    and points: "wg_points (hs_gas hs) < n"
  shows "host_call_contract R c env p target m args amount hs =
    host_call_contract R d env p target m args amount hs"
  unfolding host_call_contract_def
proof (intro hf_bind_cong[OF refl])
  let ?t = "case amount of Some a \<Rightarrow> transfer_from_contract R (ct_target (env_call_tx env)) a target
    | None \<Rightarrow> hf_return ()"
  fix u hs1 cm hs2
  assume 1: "?t hs = Some (Inr u, hs1)" and 2: "hf_ws_cached_contract R target hs1 = Some (Inr cm, hs2)"
  have "hf_ok (rt_ws R) UNIV UNIV (\<lambda>_. True) ?t"
    by (intro hf_rules hf_ok_transfer UNIV_I)
  then have "wg_points (hs_gas hs1) \<le> wg_points (hs_gas hs)"
    using 1 by (rule points_mono)
  then have "wg_points (hs_gas hs2) < n"
    using points_mono[OF hf_ok_cached_contract[of R UNIV UNIV "\<lambda>_. True"] 2] points by simp
  then have "hf_bind hf_remaining_gas (host_run_contract R c env p target m args amount cm') hs2 =
      hf_bind hf_remaining_gas (host_run_contract R d env p target m args amount cm') hs2" for cm'
    using remaining_gas_points host_run_contract_agree[OF agree law]
    by (intro hf_bind_cong[OF refl]) fastforce
  then show "(case cm of None \<Rightarrow> hf_err FE_ContractNotFound
      | Some cm \<Rightarrow> hf_bind hf_remaining_gas (host_run_contract R c env p target m args amount cm)) hs2 =
    (case cm of None \<Rightarrow> hf_err FE_ContractNotFound
      | Some cm \<Rightarrow> hf_bind hf_remaining_gas (host_run_contract R d env p target m args amount cm)) hs2"
    by (cases cm) simp_all
qed

lemma host_call_agree:
  assumes agree: "runners_agree n c d" and law: "metering_law R"
    and points: "wg_points (hs_gas hs) < n"
  shows "host_call R c env p l q hs = host_call R d env p l q hs"
proof -
  have "wg_points (hs_gas hs1) < n" if "hf_read_bytes R p l hs = Some (r, hs1)" for r hs1
    using points_mono[OF hf_ok_memory(2)[of "rt_ws R" UNIV UNIV "\<lambda>_. True"] that] points by simp
  then show ?thesis
    unfolding host_call_def
    by (intro hf_bind_cong[OF refl])
      (auto simp: host_call_contract_agree[OF agree law] split: option.split command.split)
qed

lemma importable_agree:
  assumes "runners_agree n c d" "metering_law R" "wg_points (hs_gas hs) < n"
  shows "importable R c env f hs = importable R d env f hs"
  using host_call_agree[OF assms]
  by (cases f) (simp_all add: importable_def create_importable_view_def)

lemma run_guest_agree:
  assumes "runners_agree n c d" "metering_law R" "runner_ok R d"
  shows "metered paid g \<Longrightarrow> wg_points (hs_gas hs) + (if paid then 1 else 0) \<le> n \<Longrightarrow>
    run_guest R c env g hs = run_guest R d env g hs"
proof (induction g arbitrary: hs paid)
  case (G_Ops k g)
  let ?hs = "hs\<lparr>hs_gas := snd (wasm_ops (hs_gas hs) k)\<rparr>"
  have "wg_points (hs_gas ?hs) + (if paid \<or> 0 < k then 1 else 0) \<le> n"
    if "fst (wasm_ops (hs_gas hs) k)"
    using G_Ops.prems(2) that by (auto simp: wasm_ops_def split: if_splits)
  then show ?case
    using G_Ops.IH[of "paid \<or> 0 < k" ?hs] G_Ops.prems(1) by simp
next
  case (G_Host f mem k)
  have imp: "importable R c env f (hs\<lparr>hs_mem := mem\<rparr>) = importable R d env f (hs\<lparr>hs_mem := mem\<rparr>)"
    using G_Host.prems by (intro importable_agree[OF assms(1,2)]) simp
  have "run_guest R c env (k v (hs_mem hs1)) hs1 = run_guest R d env (k v (hs_mem hs1)) hs1"
    if "importable R d env f (hs\<lparr>hs_mem := mem\<rparr>) = Some (Inr v, hs1)" for v hs1
  proof (rule G_Host.IH[OF rangeI rangeI])
    show "metered False (k v (hs_mem hs1))"
      using G_Host.prems(1) by simp
    show "wg_points (hs_gas hs1) + (if False then 1 else 0) \<le> n"
      using G_Host.prems importable_keeps[OF assms(3) that] by (simp add: env_keeps_def hs_keeps_def)
  qed
  then show ?case
    using imp
    by (cases "importable R d env f (hs\<lparr>hs_mem := mem\<rparr>)") (auto split: sum.split)
qed auto

lemma contract_calls_agree:
  assumes "metering_law R"
  shows "n \<le> i \<Longrightarrow> n \<le> j \<Longrightarrow> runners_agree n (contract_call R i) (contract_call R j)"
proof (induction n arbitrary: i j)
  case 0
  then show ?case
    by (simp add: runners_agree_def)
next
  case (Suc n)
  then obtain i' j' where ij: "i = Suc i'" "j = Suc j'" "n \<le> i'" "n \<le> j'"
    by (metis Suc_le_D Suc_le_mono)
  have "run_guest R (contract_call R i') env g hs = run_guest R (contract_call R j') env g hs"
    if "metered False g" "wg_points (hs_gas hs) \<le> n" for env g hs
    using run_guest_agree[OF Suc.IH[OF ij(3,4)] assms contract_call_ok that(1)] that(2) by simp
  then have "call_method R (contract_call R i') env inst hs = call_method R (contract_call R j') env inst hs"
    if "metered_instance inst" "wg_points (hs_gas hs) \<le> n" for env inst hs
    using that by (auto simp: call_method_def metered_instance_def split: option.split)
  then show ?case
    by (auto simp: runners_agree_def ij(1,2) wg_initialize_def wg_new_def Let_def)
qed

end
