(* ===== verification/Execution_State.thy ===== *)
theory Execution_State
  imports Contract_Instance
begin

text \<open>
  The execution state of \<^verbatim>\<open>src/execution/state.rs\<close>, its finalization into receipts in both versions,
  and the ways a command aborts (\<^verbatim>\<open>src/execution/abort.rs\<close>). The trait \<^verbatim>\<open>FinalizeState\<close> is a record of
  its version-specific parts with one instance per version.

  The contract of a command is the locale \<open>atomic_command\<close>: what a command may change when it
  succeeds, and that it leaves nothing behind when it fails. Every command is an instance of it.
\<close>

section \<open>The state\<close>

record ('w, 'c, 'e) execution_state =
  txn_meta :: txn_metadata
  bd :: blockchain_params
  ctx :: "('w, 'c) transition_context"
  receipt_buf :: "'e list"

definition es_new ::
  "txn_metadata \<Rightarrow> blockchain_params \<Rightarrow> ('w, 'c) transition_context \<Rightarrow> ('w, 'c, 'e) execution_state" where
  "es_new meta params c = \<lparr>txn_meta = meta, bd = params, ctx = c, receipt_buf = []\<rparr>"

definition es_gm :: "('w, 'c, 'e) execution_state \<Rightarrow> 'w gas_meter" where
  "es_gm st = ctx_gas_meter (ctx st)"

definition es_cache :: "('w, 'c, 'e) execution_state \<Rightarrow> 'w world_state_cache" where
  "es_cache st = gas_free_ws_cache (ctx st)"

definition set_es_gm ::
  "('w, 'c, 'e) execution_state \<Rightarrow> 'w gas_meter \<Rightarrow> ('w, 'c, 'e) execution_state" where
  "set_es_gm st g = st\<lparr>ctx := (ctx st)\<lparr>ctx_gas_meter := g\<rparr>\<rparr>"

definition set_es_cache ::
  "('w, 'c, 'e) execution_state \<Rightarrow> 'w world_state_cache \<Rightarrow> ('w, 'c, 'e) execution_state" where
  "set_es_cache st s = st\<lparr>ctx := set_gas_free_ws_cache (ctx st) s\<rparr>"

text \<open>A call of a method of the gas meter, with a result or without.\<close>

definition on_gm ::
  "('w gas_meter \<Rightarrow> ('a \<times> 'w gas_meter) option) \<Rightarrow> ('w, 'c, 'e) execution_state \<Rightarrow>
   ('a \<times> ('w, 'c, 'e) execution_state) option" where
  "on_gm f st = do { (v, g) \<leftarrow> f (es_gm st); Some (v, set_es_gm st g) }"

definition on_gm_set ::
  "('w gas_meter \<Rightarrow> 'w gas_meter option) \<Rightarrow> ('w, 'c, 'e) execution_state \<Rightarrow>
   ('w, 'c, 'e) execution_state option" where
  "on_gm_set f st = do { g \<leftarrow> f (es_gm st); Some (set_es_gm st g) }"

section \<open>Aborting\<close>

definition abort ::
  "('w, 'c, 'e) execution_state \<Rightarrow> transition_error \<Rightarrow>
   (cmd_result \<times> ('w, 'c, 'e) execution_state) option" where
  "abort st e = Some (Inl e, st\<lparr>ctx := revert_changes (ctx st)\<rparr>)"

definition abort_if_gas_exhausted ::
  "('w, 'c, 'e) execution_state \<Rightarrow> (cmd_result \<times> ('w, 'c, 'e) execution_state) option" where
  "abort_if_gas_exhausted st =
     (if gas_limit (txn_meta st) < total_gas_used (es_gm st)
      then Some (Inl ExecutionProperGasExhausted, st\<lparr>ctx := revert_changes (ctx st)\<rparr>)
      else Some (Ok, st))"

section \<open>Finalization\<close>

text \<open>The version-specific parts of \<^verbatim>\<open>FinalizeState\<close> and \<^verbatim>\<open>ProcessReceipts\<close>.\<close>

record ('e, 'r) finalize_ops =
  f_command_receipt :: "command_kind \<Rightarrow> cmd_result \<Rightarrow> u64 \<Rightarrow> command_output \<Rightarrow> 'e"
  f_push_deferred :: "'e list \<Rightarrow> 'e \<Rightarrow> 'e list"
  f_into_receipt :: "'e list \<Rightarrow> u64 \<Rightarrow> command_kind list \<Rightarrow> 'r option"

definition command_receipt_v1_of ::
  "command_kind \<Rightarrow> cmd_result \<Rightarrow> u64 \<Rightarrow> command_output \<Rightarrow> command_receipt_v1" where
  "command_receipt_v1_of kind res gas_used out =
     \<lparr>r1_exit_code = (case res of Inr _ \<Rightarrow> Success_V1 | Inl e \<Rightarrow> exit_code_v1_of e),
      r1_gas_used = gas_used, r1_return_values = co_return_value out, r1_logs = co_logs out\<rparr>"

definition command_receipt_v2_of ::
  "command_kind \<Rightarrow> cmd_result \<Rightarrow> u64 \<Rightarrow> command_output \<Rightarrow> command_receipt_v2" where
  "command_receipt_v2_of kind res gas_used out =
     create_executed_cmd_rcp_v2 kind
       (case res of Inr _ \<Rightarrow> Ok_V2 | Inl e \<Rightarrow> exit_code_v2_of e) gas_used out"

definition finalize_v1 :: "(command_receipt_v1, receipt_v1) finalize_ops" where
  "finalize_v1 =
     \<lparr>f_command_receipt = command_receipt_v1_of,
      f_push_deferred = push_deferred_command_receipt_v1,
      f_into_receipt = (\<lambda>buf gas kinds. Some (into_receipt_v1 buf gas kinds))\<rparr>"

definition finalize_v2 :: "(command_receipt_v2, receipt_v2) finalize_ops" where
  "finalize_v2 =
     \<lparr>f_command_receipt = command_receipt_v2_of,
      f_push_deferred = push_deferred_command_receipt_v2,
      f_into_receipt = into_receipt_v2\<rparr>"

definition finalize_receipt ::
  "('w, 'c, 'm, 'v) runtime \<Rightarrow> ('e, 'r) finalize_ops \<Rightarrow> ('w, 'c, 'e) execution_state \<Rightarrow>
   ('w \<times> 'r) option" where
  "finalize_receipt R F st = do {
     let gas_used = total_gas_used_for_executed_commands (es_gm st);
     w \<leftarrow> commit_to_world_state (rt_ws R) (es_cache st);
     r \<leftarrow> f_into_receipt F (receipt_buf st) gas_used (command_kinds (txn_meta st));
     Some (w, r)
   }"

definition finalize_cmd_receipt_collect_deferred ::
  "('e, 'r) finalize_ops \<Rightarrow> ('w, 'c, 'e) execution_state \<Rightarrow> command_kind \<Rightarrow> cmd_result \<Rightarrow>
   deferred_command list option \<times> ('w, 'c, 'e) execution_state" where
  "finalize_cmd_receipt_collect_deferred F st kind res =
     (let ((gas_used, command_output, deferred), c) = complete_cmd_execution (ctx st);
          rcp = f_command_receipt F kind res gas_used command_output
      in (deferred, st\<lparr>ctx := c, receipt_buf := push_command_receipt (receipt_buf st) rcp\<rparr>))"

definition finalize_deferred_cmd_receipt ::
  "('e, 'r) finalize_ops \<Rightarrow> ('w, 'c, 'e) execution_state \<Rightarrow> command_kind \<Rightarrow> cmd_result \<Rightarrow>
   ('w, 'c, 'e) execution_state" where
  "finalize_deferred_cmd_receipt F st kind res =
     (let ((gas_used, command_output, _), c) = complete_cmd_execution (ctx st);
          rcp = f_command_receipt F kind res gas_used command_output
      in st\<lparr>ctx := c, receipt_buf := f_push_deferred F (receipt_buf st) rcp\<rparr>)"

section \<open>Frames\<close>

definition es_frame ::
  "'w ws_ops \<Rightarrow> public_address set \<Rightarrow> public_address set \<Rightarrow> public_address set \<Rightarrow>
   (deferred_command \<Rightarrow> bool) \<Rightarrow> ('w, 'c, 'e) execution_state \<Rightarrow> ('w, 'c, 'e) execution_state \<Rightarrow> bool"
where
  "es_frame W A C S D st st' \<longleftrightarrow>
     txn_meta st' = txn_meta st \<and> bd st' = bd st \<and> receipt_buf st' = receipt_buf st \<and>
     ctx_frame W A C S D (ctx st) (ctx st')"

text \<open>What both outcomes of a command keep.\<close>

definition es_keeps ::
  "'w ws_ops \<Rightarrow> (deferred_command \<Rightarrow> bool) \<Rightarrow> ('w, 'c, 'e) execution_state \<Rightarrow>
   ('w, 'c, 'e) execution_state \<Rightarrow> bool" where
  "es_keeps W D st st' \<longleftrightarrow>
     txn_meta st' = txn_meta st \<and> bd st' = bd st \<and> receipt_buf st' = receipt_buf st \<and>
     wsc_step W (es_cache st) (es_cache st') \<and>
     gm_version (es_gm st') = gm_version (es_gm st) \<and>
     gm_gas_limit (es_gm st') = gm_gas_limit (es_gm st) \<and>
     gas_used_for_txn_inclusion (es_gm st') = gas_used_for_txn_inclusion (es_gm st) \<and>
     gas_used_for_executed_commands (es_gm st') = gas_used_for_executed_commands (es_gm st) \<and>
     (\<exists>ds. deferred_commands (ctx st') = deferred_commands (ctx st) @ ds \<and> list_all D ds)"

lemma es_frame_refl [simp]: "es_frame W A C S D st st"
  by (simp add: es_frame_def)

lemma es_frame_trans:
  "es_frame W A C S D x y \<Longrightarrow> es_frame W A C S D y z \<Longrightarrow> es_frame W A C S D x z"
  by (auto simp: es_frame_def intro: ctx_frame_trans)

lemma es_frame_keeps: "es_frame W A C S D st st' \<Longrightarrow> es_keeps W D st st'"
  by (auto simp: es_frame_def es_keeps_def ctx_frame_def gm_frame_def es_gm_def es_cache_def
      gas_free_ws_cache_def dest: wsc_frame_step)

lemma es_keeps_abort:
  assumes "es_keeps W D st st'"
  shows "es_keeps W D st (st'\<lparr>ctx := revert_changes (ctx st')\<rparr>)"
proof -
  have "wsc_step W (es_cache st) (wsc_revert (es_cache st'))"
    using assms by (auto simp: es_keeps_def intro: wsc_step_trans[OF _ wsc_step_revert])
  then show ?thesis
    using assms
    by (simp add: es_keeps_def revert_changes_def set_gas_free_ws_cache_def es_gm_def es_cache_def
        gas_free_ws_cache_def)
qed

lemma es_frame_set_gm:
  "es_frame W A C S D x y \<Longrightarrow> gm_frame W A C S (es_gm y) g \<Longrightarrow> es_frame W A C S D x (set_es_gm y g)"
  by (simp add: es_frame_def set_es_gm_def es_gm_def ctx_frame_gm_step)

text \<open>Verification conditions of the meter's methods: the frame is carried along.\<close>

lemma on_gm_post:
  assumes "es_frame W A C S D st0 st" "post (f (es_gm st)) (\<lambda>(v, g). gm_frame W A C S (es_gm st) g)"
    and "\<And>v st'. es_frame W A C S D st0 st' \<Longrightarrow> Q (v, st')"
  shows "post (on_gm f st) Q"
  using assms es_frame_set_gm[OF assms(1)] by (auto simp: post_def on_gm_def bind_convs)

lemma on_gm_set_post:
  assumes "es_frame W A C S D st0 st" "post (f (es_gm st)) (gm_frame W A C S (es_gm st))"
    and "\<And>st'. es_frame W A C S D st0 st' \<Longrightarrow> Q st'"
  shows "post (on_gm_set f st) Q"
  using assms es_frame_set_gm[OF assms(1)] by (auto simp: post_def on_gm_set_def bind_convs)

section \<open>The contract of a command\<close>

definition cmd_post ::
  "'w ws_ops \<Rightarrow> public_address set \<Rightarrow> public_address set \<Rightarrow> public_address set \<Rightarrow>
   (deferred_command \<Rightarrow> bool) \<Rightarrow> ('w, 'c, 'e) execution_state \<Rightarrow>
   cmd_result \<times> ('w, 'c, 'e) execution_state \<Rightarrow> bool" where
  "cmd_post W A C S D st = (\<lambda>(r, st'). es_keeps W D st st' \<and>
     (case r of
        Inr _ \<Rightarrow> es_frame W A C S D st st' \<and> total_gas_used (es_gm st') \<le> gas_limit (txn_meta st)
      | Inl _ \<Rightarrow> wsc_clean (es_cache st')))"

lemma abort_post:
  "es_frame W A C S D st0 st \<Longrightarrow> post (abort st e) (cmd_post W A C S D st0)"
  using es_keeps_abort[OF es_frame_keeps, of W A C S D st0 st]
  by (simp add: abort_def cmd_post_def es_cache_def post_def)

lemma abort_if_gas_exhausted_post:
  "es_frame W A C S D st0 st \<Longrightarrow> post (abort_if_gas_exhausted st) (cmd_post W A C S D st0)"
  using es_keeps_abort[OF es_frame_keeps, of W A C S D st0 st] es_frame_keeps[of W A C S D st0 st]
  by (auto simp: abort_if_gas_exhausted_def cmd_post_def es_cache_def post_def not_less)
    (simp add: es_frame_def)

text \<open>
  \<open>atomic_command\<close>: a command that succeeds has changed no more than its frame allows and is within
  the gas limit; one that fails leaves no pending write of this or any earlier command. Either way
  the world state below, the metadata and the booked gas are as before.
\<close>

locale atomic_command =
  fixes W :: "'w ws_ops" and A C S :: "('w, 'c, 'e) execution_state \<Rightarrow> public_address set"
    and D :: "deferred_command \<Rightarrow> bool"
    and run :: "('w, 'c, 'e) execution_state \<Rightarrow> (cmd_result \<times> ('w, 'c, 'e) execution_state) option"
  assumes run_post: "post (run st) (cmd_post W (A st) (C st) (S st) D st)"
begin

lemma keeps: "run st = Some (r, st') \<Longrightarrow> es_keeps W D st st'"
  using postD[OF run_post, of st "(r, st')"] by (simp add: cmd_post_def)

lemma success_frame: "run st = Some (Ok, st') \<Longrightarrow> es_frame W (A st) (C st) (S st) D st st'"
  using postD[OF run_post, of st "(Ok, st')"] by (simp add: cmd_post_def)

lemma success_gas: "run st = Some (Ok, st') \<Longrightarrow> total_gas_used (es_gm st') \<le> gas_limit (txn_meta st)"
  using postD[OF run_post, of st "(Ok, st')"] by (simp add: cmd_post_def)

lemma failure_clean: "run st = Some (Inl e, st') \<Longrightarrow> wsc_clean (es_cache st')"
  using postD[OF run_post, of st "(Inl e, st')"] by (simp add: cmd_post_def)

lemma failure_commits_nothing:
  "run st = Some (Inl e, st') \<Longrightarrow> commit_to_world_state W (es_cache st') = Some (ws (es_cache st))"
  using failure_clean[of st e st'] keeps[of st "Inl e" st']
  by (auto simp: es_keeps_def commit_clean dest: wsc_step_ws)

end

end
