(* ===== verification/Example_Runtime.thy ===== *)
theory Example_Runtime
  imports Contract_Instance
begin

text \<open>
  One instance of every parameter of the model, on which the witnesses of the properties are
  evaluated: the key-value world state, a contract cache of two maps, a linear memory that is a
  list of bytes, a guest that sets its return value, and a network account that stores each field
  under a key of its own.
\<close>

section \<open>A network account\<close>

definition akey :: "public_address \<Rightarrow> bytes" where
  "akey a = to_le_bytes 1 (unat a)"

definition na_get_u64 :: "bytes \<Rightarrow> u64 option na_prog" where
  "na_get_u64 k = NA_Get k (\<lambda>v. NA_Return (map_option from_le_bytes v))"

definition na_set_u64 :: "bytes \<Rightarrow> u64 \<Rightarrow> unit na_prog" where
  "na_set_u64 k n = NA_Set k (to_le_bytes 8 n) (NA_Return ())"

definition na_has :: "bytes \<Rightarrow> bool na_prog" where
  "na_has k = NA_Contains k NA_Return"

definition na_unset :: "bytes \<Rightarrow> unit na_prog" where
  "na_unset k = NA_Delete k (NA_Return ())"

definition kv_pool_api :: "('h \<Rightarrow> bytes) \<Rightarrow> 'h pool_api" where
  "kv_pool_api key =
     \<lparr>p_exists = (\<lambda>h. na_has (key h @ [0])),
      p_operator = (\<lambda>h. NA_Get (key h @ [0]) (\<lambda>v. NA_Return (map_option (word_of_nat \<circ> from_le_bytes) v))),
      p_power = (\<lambda>h. na_get_u64 (key h @ [1])),
      p_commission_rate = (\<lambda>h. na_get_u64 (key h @ [2])),
      p_operator_stake = (\<lambda>h. NA_Get (key h @ [3]) (\<lambda>v. NA_Return (map_option
         (\<lambda>bs. if length bs = 1 then None
               else Some \<lparr>owner = word_of_nat (from_le_bytes (drop 8 bs)),
                          stake_power = from_le_bytes (take 8 bs)\<rparr>) v))),
      p_set_operator = (\<lambda>h a. NA_Set (key h @ [0]) (akey a) (NA_Return ())),
      p_set_power = (\<lambda>h n. na_set_u64 (key h @ [1]) n),
      p_set_commission_rate = (\<lambda>h n. na_set_u64 (key h @ [2]) n),
      p_set_operator_stake = (\<lambda>h st. NA_Set (key h @ [3])
         (case st of None \<Rightarrow> [0] | Some s \<Rightarrow> to_le_bytes 8 (stake_power s) @ akey (owner s)) (NA_Return ())),
      p_delete = (\<lambda>h. na_unset (key h @ [0])),
      ds_length = (\<lambda>h. NA_Return 0),
      ds_get = (\<lambda>h i. NA_Return None),
      ds_get_by = (\<lambda>h a. NA_Get (key h @ [4] @ akey a) (\<lambda>v. NA_Return (map_option
         (\<lambda>bs. \<lparr>owner = a, stake_power = from_le_bytes bs\<rparr>) v))),
      ds_unordered_values = (\<lambda>h. NA_Return []),
      ds_change_key = (\<lambda>h s. na_set_u64 (key h @ [4] @ akey (owner s)) (stake_power s)),
      ds_insert_extract = (\<lambda>h s. NA_Set (key h @ [4] @ akey (owner s)) (to_le_bytes 8 (stake_power s))
         (NA_Return (Inr None))),
      ds_remove_item = (\<lambda>h a. na_unset (key h @ [4] @ akey a))\<rparr>"

definition kv_deposits_api :: deposits_api where
  "kv_deposits_api =
     \<lparr>d_exists = (\<lambda>p a. na_has ([2] @ akey p @ akey a @ [0])),
      d_balance = (\<lambda>p a. na_get_u64 ([2] @ akey p @ akey a @ [0])),
      d_auto_stake_rewards = (\<lambda>p a. NA_Get ([2] @ akey p @ akey a @ [1])
         (\<lambda>v. NA_Return (map_option (\<lambda>bs. bs = [1]) v))),
      d_set_balance = (\<lambda>p a n. na_set_u64 ([2] @ akey p @ akey a @ [0]) n),
      d_set_auto_stake_rewards = (\<lambda>p a b. NA_Set ([2] @ akey p @ akey a @ [1])
         (if b then [1] else [0]) (NA_Return ())),
      d_delete = (\<lambda>p a. na_unset ([2] @ akey p @ akey a @ [0]))\<rparr>"

definition kv_nvp_api :: nvp_api where
  "kv_nvp_api =
     \<lparr>nvp_length = NA_Return 0,
      nvp_get = (\<lambda>i. NA_Return None),
      nvp_get_by = (\<lambda>a. NA_Get ([3] @ akey a) (\<lambda>v. NA_Return (map_option
         (\<lambda>bs. \<lparr>pk_operator = a, pk_power = from_le_bytes bs\<rparr>) v))),
      nvp_change_key = (\<lambda>k. na_set_u64 ([3] @ akey (pk_operator k)) (pk_power k)),
      nvp_insert_extract = (\<lambda>k. NA_Set ([3] @ akey (pk_operator k)) (to_le_bytes 8 (pk_power k))
         (NA_Return (Inr None))),
      nvp_remove_item = (\<lambda>a. na_unset ([3] @ akey a))\<rparr>"

definition kv_validator_set_api :: "byte \<Rightarrow> validator_set_api" where
  "kv_validator_set_api t =
     \<lparr>vs_length = NA_Return 0,
      vs_pool_at = (\<lambda>i. NA_Return None),
      vs_pool = (\<lambda>a. NA_Return None),
      vs_clear = NA_Return (),
      vs_push = (\<lambda>p ss. NA_Return ())\<rparr>"

definition kv_network :: network_account where
  "kv_network =
     \<lparr>NETWORK_ADDRESS = 0,
      pools = kv_pool_api (\<lambda>a. [1] @ akey a),
      vs_pools = kv_pool_api (\<lambda>h. [5] @ h),
      deposits = kv_deposits_api,
      nvp = kv_nvp_api,
      vp = kv_validator_set_api 6,
      pvp = kv_validator_set_api 7,
      na_current_epoch = NA_Get [8] (\<lambda>v. NA_Return (case v of Some bs \<Rightarrow> from_le_bytes bs | None \<Rightarrow> 0)),
      na_set_current_epoch = (\<lambda>n. na_set_u64 [8] n)\<rparr>"

lemmas kv_network_defs = kv_network_def kv_pool_api_def kv_deposits_api_def kv_nvp_api_def
  kv_validator_set_api_def na_get_u64_def na_set_u64_def na_has_def na_unset_def akey_def

lemma to_le_bytes_8:
  "to_le_bytes 8 n = [word_of_nat (n mod 256), word_of_nat (n div 256 mod 256),
     word_of_nat (n div 65536 mod 256), word_of_nat (n div 16777216 mod 256),
     word_of_nat (n div 4294967296 mod 256), word_of_nat (n div 1099511627776 mod 256),
     word_of_nat (n div 281474976710656 mod 256), word_of_nat (n div 72057594037927936 mod 256)]"
proof -
  have "(8::nat) = Suc (Suc (Suc (Suc (Suc (Suc (Suc (Suc 0)))))))"
    by simp
  then show ?thesis
    by (simp only: to_le_bytes.simps div_mult2_eq[symmetric]) simp
qed

section \<open>A virtual machine\<close>

text \<open>Every contract costs ten points, returns the first two bytes of its memory and ends.\<close>

definition flat_vm :: "(nat, bytes) vm_ops" where
  "flat_vm =
     \<lparr>vm_instantiate = (\<lambda>cm view. Some
        \<lparr>inst_entrypoint = Some (G_Ops 10 (G_Host (H_return_value 0 2) [7, 8, 0, 0, 0, 0, 0, 0]
           (\<lambda>_ _. G_Return))),
         inst_memory = replicate 8 0,
         inst_alloc = (\<lambda>n mem. Some (1, Some (length mem), mem @ replicate n 0))\<rparr>),
      vm_deref_read = (\<lambda>mem p n. if p + n \<le> length mem then Some (take n (drop p mem)) else None),
      vm_deref_write = (\<lambda>mem p bs. if p + length bs \<le> length mem
         then Some (take p mem @ bs @ drop (p + length bs) mem) else None),
      deserialize_command = (\<lambda>bs. None),
      deserialize_log = (\<lambda>bs. None),
      serialize_arguments = concat,
      sha256_digest = (\<lambda>bs. replicate 32 0),
      keccak256_digest = (\<lambda>bs. replicate 32 0),
      ripemd160_digest = (\<lambda>bs. replicate 20 0),
      ed25519_verify = (\<lambda>m s a. Some False)\<rparr>"

definition kv_runtime :: "(kv_world, dir, nat, bytes) runtime" where
  "kv_runtime =
     \<lparr>rt_ws = kv_ops, rt_wasmer = dir_ops, rt_vm = flat_vm, rt_net = kv_network,
      contract_address_v1 = (\<lambda>a n. word_of_nat (100 + n)),
      contract_address_v2 = (\<lambda>a n i. word_of_nat (100 + n + i))\<rparr>"

lemma rt_ws_kv [simp]: "rt_ws kv_runtime = kv_ops"
  by (simp add: kv_runtime_def)

lemma kv_runtime_metering: "metering_law kv_runtime"
  by (auto simp: metering_law_def metered_instance_def kv_runtime_def flat_vm_def)

text \<open>Evaluating the operations on the key-value world state.\<close>

lemmas kv_world_evals = kv_ops_def kv_zero_def wsc_new_def cd_default_def

lemmas cache_evals = wsc_ops cd_get_def cd_set_def cd_contains_def wsc_contains_storage_data_def
  cache_len_u64_def cache_len_u32_def cache_len_bytes_def

lemmas op_evals = op_ws_balance_def op_ws_set_balance_def op_ws_storage_data_def
  op_ws_set_storage_data_def op_ws_contains_storage_data_def op_ws_cbi_version_def
  op_ws_set_cbi_version_def op_ws_cached_contract_code_def op_ws_set_contract_code_def
  op_ws_cached_contract_def account_set_cost_def storage_trie_traversed_key_len_def

lemmas cost_evals = get_cost_traverse_def get_cost_read_def set_cost_delete_old_value_def
  set_cost_write_new_value_def set_cost_rehash_def discount_code_read_def gas_consts cc_simps sat_defs
  U64_MAX_def gu_charge_def

lemmas meter_evals = gm_op_defs gm_charge_def gm_new_def gm_nas_def

text \<open>Evaluating a contract call.\<close>

lemmas host_evals = host_return_value_def hf_bind_def hf_return_def hf_err_def hf_read_bytes_def op_read_bytes_def op_write_bytes_def
  hf_charge_def hf_set_return_value_def hf_remaining_gas_def read_bytes_from_memory_def
  subtract_gas_def wg_gas_def wasm_memory_read_cost_def ceil_div_8_def op_set_return_value_def
  blockchain_storage_cost_def importable_def create_importable_view_def set_hs_output_def hs_output_def

lemmas call_evals = call_method_def wg_initialize_def wg_new_def wasm_ops_def wg_deinit_def
  wg_remaining_def env_new_def

definition example_instance :: "bytes wasm_instance" where
  "example_instance = the (vm_instantiate flat_vm
     \<lparr>cm_store = None, cm_module = 0, cm_metadata = \<lparr>md_cbi_version = 0, md_bytecode_length = 0\<rparr>\<rparr> True)"

definition example_meta :: "txn_version \<Rightarrow> u64 \<Rightarrow> command_kind list \<Rightarrow> txn_metadata" where
  "example_meta ver limit kinds =
     \<lparr>version = ver, command_kinds = kinds, signer = 1, txn_hash = 0, nonce = 0, gas_limit = limit,
      priority_fee_per_gas = 1, txn_size = 200\<rparr>"

definition example_call :: "u64 \<Rightarrow> call_tx" where
  "example_call gas =
     \<lparr>base_tx = example_meta V1 gas [KCall], ct_target = 5, ct_method = ''f'', ct_arguments = None,
      ct_amount = None\<rparr>"

definition example_block :: blockchain_params where
  "example_block =
     \<lparr>this_block_number = 1, prev_block_hash = 0, this_base_fee = 8, bp_timestamp = 0, random_bytes = 0,
      proposer_address = 2, treasury_address = 3, cur_view = 0, bp_validator_performance = None\<rparr>"

lemma example_instance_metered: "metered_instance example_instance"
  by (simp add: metered_instance_def example_instance_def flat_vm_def)

lemma example_call_runs:
  "\<exists>ctx' g. contract_call kv_runtime (Suc depth) example_instance 0 True (example_call 1000) bd ctx =
     Some (ctx', g, None)"
  by (simp add: example_instance_def example_call_def example_meta_def kv_runtime_def flat_vm_def
      host_evals call_evals cost_evals Let_def)

end
