(* ===== verification/Example_State.thy ===== *)
theory Example_State
  imports Execution_State Example_Runtime
begin

text \<open>
  Execution states of the example runtime, on which the witnesses are evaluated: account 1 signs
  and owns a billion grays, account 2 proposes the block and account 3 is the treasury.
\<close>

definition example_world :: kv_world where
  "example_world = kv_zero\<lparr>kv_balance := (\<lambda>_. 0)(1 := 1000000000)\<rparr>"

definition example_state ::
  "txn_version \<Rightarrow> u64 \<Rightarrow> command_kind list \<Rightarrow> (kv_world, dir, 'e) execution_state" where
  "example_state ver limit kinds =
     es_new (example_meta ver limit kinds) example_block (ctx_new ver example_world limit)"

lemmas state_evals = example_state_def example_meta_def example_world_def es_new_def ctx_new_def
  on_gm_def on_gm_set_def es_gm_def set_es_gm_def abort_if_gas_exhausted_def abort_def
  total_gas_used_def total_gas_used_for_executed_commands_def gu_chargeable_cost_def

text \<open>A state with no receipt version, for the commands alone.\<close>

definition cmd_state :: "txn_version \<Rightarrow> u64 \<Rightarrow> (kv_world, dir, unit) execution_state" where
  "cmd_state ver limit = example_state ver limit []"

text \<open>All evaluation rules of the world state, the cache, the operations, the meter and the state.\<close>

lemmas runtime_evals = cmd_state_def state_evals meter_evals op_evals cache_evals kv_world_evals cost_evals
  kv_runtime_def

lemma example_state_inv [simp]: "wsc_inv W (es_cache (example_state ver limit kinds))"
  by (simp add: example_state_def es_new_def ctx_new_def es_cache_def gas_free_ws_cache_def gm_new_def)

lemma example_state_meta [simp]: "signer (txn_meta (example_state ver limit kinds)) = 1"
  by (simp add: example_state_def es_new_def example_meta_def)

lemma cmd_state_simps [simp]:
  "wsc_inv W (es_cache (cmd_state ver limit))" "signer (txn_meta (cmd_state ver limit)) = 1"
  by (simp_all add: cmd_state_def)

lemma cmd_state_balance [simp]:
  "wsc_balance_view kv_ops (es_cache (cmd_state ver limit)) a =
     Some (if a = 1 then 1000000000 else 0)"
  by (simp add: cmd_state_def wsc_balance_view_def state_evals kv_world_evals es_cache_def
      gas_free_ws_cache_def gm_new_def)

end
