(* ===== verification/Contract_Properties.thy ===== *)
theory Contract_Properties
  imports Example_Runtime
begin

text \<open>
  What holds of every contract call, whatever the guest code does: calls end, they are confined,
  and a view call changes nothing.
\<close>

text \<open>C17: Nested contract calls are bounded by gas: when guests pay for their opcodes, running a
  call with any depth beyond its gas limit gives the same outcome, so the depth of one more than the
  gas limit is enough for every call and a missing answer is a panic, never an exhausted bound.\<close>

theorem call_depth_bounded_by_gas:
  assumes "metering_law R" "metered_instance inst" "gas_limit (base_tx tx) < depth"
  shows "contract_call R depth inst n view tx bd ctx =
    contract_call R (Suc (gas_limit (base_tx tx))) inst n view tx bd ctx"
  using contract_calls_agree[OF assms(1), of "Suc (gas_limit (base_tx tx))" depth
      "Suc (gas_limit (base_tx tx))"] assms(2,3)
  by (simp add: runners_agree_def)

theorem call_depth_bounded_by_gas_witness:
  "contract_call kv_runtime 5000 example_instance 0 True (example_call 100) example_block
     (ctx_new V1 kv_zero 1000) =
   contract_call kv_runtime 101 example_instance 0 True (example_call 100) example_block
     (ctx_new V1 kv_zero 1000)"
  using call_depth_bounded_by_gas[OF kv_runtime_metering example_instance_metered,
      of "example_call 100" 5000 0 True example_block "ctx_new V1 kv_zero 1000"]
  by (simp add: example_call_def example_meta_def eval_nat_numeral del: contract_call.simps)

text \<open>C16: Contract code is confined. Whatever a guest does and however deep it calls, a contract call
  that returns has not touched the world state below the cache, no contract's code or CBI version
  and none of the gas already booked; it consumed at most its gas limit, and the commands it
  deferred are deposit commands. A view call has moreover changed no balance, no storage and no
  deferred command that a reader can see.\<close>

theorem contract_call_confined:
  fixes ctx ctx' :: "('w, 'c) transition_context"
  defines "s \<equiv> gas_free_ws_cache ctx" and "s' \<equiv> gas_free_ws_cache ctx'"
  assumes "contract_call R depth inst n view tx bd ctx = Some (ctx', g, e)"
  shows "ws s' = ws s \<and> wsc_cbi_view (rt_ws R) s' = wsc_cbi_view (rt_ws R) s \<and>
    wsc_code_view (rt_ws R) s' = wsc_code_view (rt_ws R) s \<and>
    total_gas_used_for_executed_commands (ctx_gas_meter ctx') =
      total_gas_used_for_executed_commands (ctx_gas_meter ctx) \<and>
    g \<le> gas_limit (base_tx tx) \<and>
    (\<exists>ds. deferred_commands ctx' = deferred_commands ctx @ ds \<and> list_all defer_ok ds) \<and>
    (view \<longrightarrow> wsc_balance_view (rt_ws R) s' = wsc_balance_view (rt_ws R) s \<and>
       wsc_storage_view (rt_ws R) s' = wsc_storage_view (rt_ws R) s \<and>
       deferred_commands ctx' = deferred_commands ctx)"
proof -
  have frame: "call_frame R view ctx ctx'"
    using contract_call_frame[OF assms(3)] .
  have "g \<le> gas_limit (base_tx tx)"
    using assms(3) by (cases depth) (auto simp: bind_convs Let_def)
  moreover have "ws s' = ws s"
    using ctx_frame_wsc[OF frame[unfolded call_frame_def]]
    by (auto simp: s_def s'_def dest: wsc_frame_step wsc_step_ws)
  ultimately show ?thesis
    using frame executed_frame
    by (cases view) (auto simp: call_frame_def ctx_frame_def gm_frame_def wsc_frame_def s_def s'_def
        gas_free_ws_cache_def fun_eq_iff total_gas_used_for_executed_commands_def list_all_iff)
qed

theorem contract_call_confined_witness:
  "\<exists>ctx' g. contract_call kv_runtime 101 example_instance 0 True (example_call 1000) example_block
     (ctx_new V1 kv_zero 1000) = Some (ctx', g, None) \<and> g \<le> 1000 \<and>
     wsc_balance_view kv_ops (gas_free_ws_cache ctx') =
       wsc_balance_view kv_ops (gas_free_ws_cache (ctx_new V1 kv_zero 1000 :: (kv_world, dir) transition_context))"
proof -
  obtain ctx' g where run: "contract_call kv_runtime 101 example_instance 0 True (example_call 1000)
      example_block (ctx_new V1 kv_zero 1000) = Some (ctx', g, None)"
    using example_call_runs[of 100 example_block "ctx_new V1 kv_zero 1000"] by auto
  show ?thesis
    using run contract_call_confined[OF run] by (auto simp: example_call_def example_meta_def)
qed

end
