(* ===== verification/Account_Commands.thy ===== *)
theory Account_Commands
  imports Example_State Contract_Properties
begin

text \<open>
  The account commands of \<^verbatim>\<open>src/commands/account.rs\<close>: transfer, call and deploy. The two
  constructs \<^verbatim>\<open>CallInstance\<close> and \<^verbatim>\<open>DeployInstance\<close> are the pairs of functions of the same names.
\<close>

section \<open>Verification conditions of the meter\<close>

named_theorems es_rules \<open>frame rules of calls on the execution state\<close>

lemma es_contains [es_rules]:
  "es_frame W A C S D st0 st \<Longrightarrow> (\<And>v st'. es_frame W A C S D st0 st' \<Longrightarrow> Q (v, st')) \<Longrightarrow>
   post (on_gm (\<lambda>g. gm_ws_contains_storage_data W g a k) st) Q"
  by (erule on_gm_post) (auto simp: post_def intro: gm_frames)

lemma es_balance [es_rules]:
  "es_frame W A C S D st0 st \<Longrightarrow> (\<And>v st'. es_frame W A C S D st0 st' \<Longrightarrow> Q (v, st')) \<Longrightarrow>
   post (on_gm (\<lambda>g. gm_ws_balance W g a) st) Q"
  by (erule on_gm_post) (auto simp: post_def intro: gm_frames)

lemma es_cbi [es_rules]:
  "es_frame W A C S D st0 st \<Longrightarrow> (\<And>v st'. es_frame W A C S D st0 st' \<Longrightarrow> Q (v, st')) \<Longrightarrow>
   post (on_gm (\<lambda>g. gm_ws_cbi_version W g a) st) Q"
  by (erule on_gm_post) (auto simp: post_def intro: gm_frames)

lemma es_set_balance [es_rules]:
  "es_frame W A C S D st0 st \<Longrightarrow> a \<in> A \<Longrightarrow> (\<And>st'. es_frame W A C S D st0 st' \<Longrightarrow> Q st') \<Longrightarrow>
   post (on_gm_set (\<lambda>g. gm_ws_set_balance W g a v) st) Q"
  by (erule on_gm_set_post) (auto simp: post_def intro: gm_frames)

lemma es_set_cbi [es_rules]:
  "es_frame W A C S D st0 st \<Longrightarrow> a \<in> C \<Longrightarrow> (\<And>st'. es_frame W A C S D st0 st' \<Longrightarrow> Q st') \<Longrightarrow>
   post (on_gm_set (\<lambda>g. gm_ws_set_cbi_version W g a v) st) Q"
  by (erule on_gm_set_post) (auto simp: post_def intro: gm_frames)

lemma es_set_code [es_rules]:
  "es_frame W A C S D st0 st \<Longrightarrow> a \<in> C \<Longrightarrow> (\<And>st'. es_frame W A C S D st0 st' \<Longrightarrow> Q st') \<Longrightarrow>
   post (on_gm_set (\<lambda>g. gm_ws_set_code W g a v) st) Q"
  by (erule on_gm_set_post) (auto simp: post_def intro: gm_frames)

section \<open>Transfer\<close>

definition transfer ::
  "('w, 'c, 'm, 'v) runtime \<Rightarrow> ('w, 'c, 'e) execution_state \<Rightarrow> public_address \<Rightarrow> u64 \<Rightarrow>
   (cmd_result \<times> ('w, 'c, 'e) execution_state) option" where
  "transfer R st recipient amount = do {
     let from = signer (txn_meta st);
     (origin_balance, st) \<leftarrow> on_gm (\<lambda>g. gm_ws_balance (rt_ws R) g from) st;
     if origin_balance < amount then abort st NotEnoughBalanceForTransfer
     else do {
       st \<leftarrow> on_gm_set (\<lambda>g. gm_ws_set_balance (rt_ws R) g from (origin_balance - amount)) st;
       (recipient_balance, st) \<leftarrow> on_gm (\<lambda>g. gm_ws_balance (rt_ws R) g recipient) st;
       st \<leftarrow> on_gm_set (\<lambda>g. gm_ws_set_balance (rt_ws R) g recipient
               (saturating_add recipient_balance amount)) st;
       abort_if_gas_exhausted st
     }
   }"

section \<open>Call\<close>

definition call_instance_instantiate ::
  "('w, 'c, 'm, 'v) runtime \<Rightarrow> ('w, 'c, 'e) execution_state \<Rightarrow> bool \<Rightarrow> public_address \<Rightarrow> string \<Rightarrow>
   bytes list option \<Rightarrow> u64 option \<Rightarrow>
   ((transition_error + 'v wasm_instance \<times> call_tx) \<times> ('w, 'c, 'e) execution_state) option" where
  "call_instance_instantiate R st is_view target method args amount = do {
     (cbi, st) \<leftarrow> on_gm (\<lambda>g. gm_ws_cbi_version (rt_ws R) g target) st;
     if \<not> (case cbi of Some ver \<Rightarrow> is_cbi_compatible ver | None \<Rightarrow> False)
     then Some (Inl InvalidCBI, st)
     else do {
       (m, g, sc) \<leftarrow> gm_ws_cached_contract (rt_ws R) (rt_wasmer R) (es_gm st) target (sc_context (ctx st));
       let st = st\<lparr>ctx := (ctx st)\<lparr>ctx_gas_meter := g, sc_context := sc\<rparr>\<rparr>;
       case m of
         None \<Rightarrow> Some (Inl NoContractcode, st)
       | Some contract_module \<Rightarrow>
           (case checked_sub (gas_limit (txn_meta st)) (total_gas_used (es_gm st)) of
              None \<Rightarrow> Some (Inl ExecutionProperGasExhausted, st)
            | Some gas_limit_for_execution \<Rightarrow>
                let tx = \<lparr>base_tx = (txn_meta st)\<lparr>gas_limit := gas_limit_for_execution\<rparr>,
                          ct_target = target, ct_method = method, ct_arguments = args,
                          ct_amount = amount\<rparr>
                in (case vm_instantiate (rt_vm R) contract_module is_view of
                      None \<Rightarrow> Some (Inl CannotCompile, st)
                    | Some inst \<Rightarrow> Some (Inr (inst, tx), st)))
     }
   }"

definition call_instance_call ::
  "('w, 'c, 'm, 'v) runtime \<Rightarrow> ('w, 'c, 'e) execution_state \<Rightarrow> bool \<Rightarrow> 'v wasm_instance \<Rightarrow> call_tx \<Rightarrow>
   (transition_error option \<times> ('w, 'c, 'e) execution_state) option" where
  "call_instance_call R st is_view inst tx = do {
     (c, wasm_exec_gas, call_error) \<leftarrow>
       contract_call R (Suc (gas_limit (base_tx tx))) inst 0 is_view tx (bd st) (ctx st);
     let st = st\<lparr>ctx := c\<rparr>;
     let st = set_es_gm st (manually_charge_gas (es_gm st) wasm_exec_gas);
     if gas_limit (txn_meta st) < total_gas_used (es_gm st)
     then Some (Some ExecutionProperGasExhausted, st)
     else Some (map_option transition_error_of call_error, st)
   }"

text \<open>The part of \<^verbatim>\<open>call\<close> after the transfer of the amount.\<close>

definition call_contract ::
  "('w, 'c, 'm, 'v) runtime \<Rightarrow> ('w, 'c, 'e) execution_state \<Rightarrow> bool \<Rightarrow> public_address \<Rightarrow> string \<Rightarrow>
   bytes list option \<Rightarrow> u64 option \<Rightarrow> (cmd_result \<times> ('w, 'c, 'e) execution_state) option" where
  "call_contract R st is_view target method args amount = do {
     (instance, st) \<leftarrow> call_instance_instantiate R st is_view target method args amount;
     case instance of
       Inl transition_err \<Rightarrow> abort st transition_err
     | Inr (inst, tx) \<Rightarrow> do {
         (err, st) \<leftarrow> call_instance_call R st is_view inst tx;
         case err of
           Some e \<Rightarrow> abort st e
         | None \<Rightarrow> abort_if_gas_exhausted st
       }
   }"

definition call ::
  "('w, 'c, 'm, 'v) runtime \<Rightarrow> ('w, 'c, 'e) execution_state \<Rightarrow> bool \<Rightarrow> public_address \<Rightarrow> string \<Rightarrow>
   bytes list option \<Rightarrow> u64 option \<Rightarrow> (cmd_result \<times> ('w, 'c, 'e) execution_state) option" where
  "call R st is_view target method args amount =
     (case amount of
        None \<Rightarrow> call_contract R st is_view target method args amount
      | Some value \<Rightarrow> do {
          let from = signer (txn_meta st);
          (origin_balance, st) \<leftarrow> on_gm (\<lambda>g. gm_ws_balance (rt_ws R) g from) st;
          if origin_balance < value then abort st NotEnoughBalanceForTransfer
          else do {
            st \<leftarrow> on_gm_set (\<lambda>g. gm_ws_set_balance (rt_ws R) g from (origin_balance - value)) st;
            (target_balance, st) \<leftarrow> on_gm (\<lambda>g. gm_ws_balance (rt_ws R) g target) st;
            st \<leftarrow> on_gm_set (\<lambda>g. gm_ws_set_balance (rt_ws R) g target
                    (saturating_add target_balance value)) st;
            call_contract R st is_view target method args amount
          }
        })"

section \<open>Deploy\<close>

definition deploy_address ::
  "('w, 'c, 'm, 'v) runtime \<Rightarrow> txn_metadata \<Rightarrow> u32 \<Rightarrow> public_address" where
  "deploy_address R meta cmd_index =
     (case version meta of
        V1 \<Rightarrow> contract_address_v1 R (signer meta) (nonce meta)
      | V2 \<Rightarrow> contract_address_v2 R (signer meta) (nonce meta) cmd_index)"

definition deploy_instance_instantiate ::
  "('w, 'c, 'm, 'v) runtime \<Rightarrow> ('w, 'c, 'e) execution_state \<Rightarrow> bytes \<Rightarrow> u32 \<Rightarrow> public_address \<Rightarrow>
   ((transition_error + 'm contract_module) \<times> ('w, 'c, 'e) execution_state) option" where
  "deploy_instance_instantiate R st bytecode cbi_version address =
     (if \<not> is_cbi_compatible cbi_version then Some (Inl OtherDeployError, st)
      else do {
        (exist_cbi_version, st) \<leftarrow> on_gm (\<lambda>g. gm_ws_cbi_version (rt_ws R) g address) st;
        if exist_cbi_version \<noteq> None then Some (Inl ContractAlreadyExists, st)
        else
          (case module_from_bytecode_checked (rt_wasmer R) bytecode (sc_memory_limit (sc_context (ctx st))) of
             Inl DisallowedOpcodePresent \<Rightarrow> Some (Inl DisallowedOpcode, st)
           | Inl Else \<Rightarrow> Some (Inl CannotCompile, st)
           | Inr m \<Rightarrow>
               (case module_validate_proper_contract (rt_wasmer R) m of
                  Inl MethodNotFound \<Rightarrow> Some (Inl NoExportedContractMethod, st)
                | Inl InstantiateError \<Rightarrow> Some (Inl CannotCompile, st)
                | Inr _ \<Rightarrow> Some (Inr m, st)))
      })"

definition deploy_instance_deploy ::
  "('w, 'c, 'm, 'v) runtime \<Rightarrow> ('w, 'c, 'e) execution_state \<Rightarrow> 'm contract_module \<Rightarrow> bytes \<Rightarrow> u32 \<Rightarrow>
   public_address \<Rightarrow> (transition_error option \<times> ('w, 'c, 'e) execution_state) option" where
  "deploy_instance_deploy R st m contract cbi_version address = do {
     let sc = sc_context (ctx st);
     let sc = sc\<lparr>sc_cache := map_option (module_cache_to (rt_wasmer R) m address) (sc_cache sc)\<rparr>;
     let st = st\<lparr>ctx := (ctx st)\<lparr>sc_context := sc\<rparr>\<rparr>;
     st \<leftarrow> on_gm_set (\<lambda>g. gm_ws_set_code (rt_ws R) g address contract) st;
     st \<leftarrow> on_gm_set (\<lambda>g. gm_ws_set_cbi_version (rt_ws R) g address cbi_version) st;
     Some (if gas_limit (txn_meta st) < total_gas_used (es_gm st)
           then Some ExecutionProperGasExhausted else None, st)
   }"

definition deploy ::
  "('w, 'c, 'm, 'v) runtime \<Rightarrow> ('w, 'c, 'e) execution_state \<Rightarrow> u32 \<Rightarrow> bytes \<Rightarrow> u32 \<Rightarrow>
   (cmd_result \<times> ('w, 'c, 'e) execution_state) option" where
  "deploy R st cmd_index contract cbi_version = do {
     let address = deploy_address R (txn_meta st) cmd_index;
     (instance, st) \<leftarrow> deploy_instance_instantiate R st contract cbi_version address;
     case instance of
       Inl err \<Rightarrow> abort st err
     | Inr m \<Rightarrow> do {
         (err, st) \<leftarrow> deploy_instance_deploy R st m contract cbi_version address;
         case err of
           Some e \<Rightarrow> abort st e
         | None \<Rightarrow> abort_if_gas_exhausted st
       }
   }"

section \<open>The commands are atomic\<close>

lemmas cmd_rules = post_rules abort_post abort_if_gas_exhausted_post es_rules

lemma transfer_post:
  "signer (txn_meta st) \<in> A \<Longrightarrow> recipient \<in> A \<Longrightarrow>
   post (transfer R st recipient amount) (cmd_post (rt_ws R) A C S D st)"
  unfolding transfer_def
  by (assumption | rule cmd_rules | rule es_frame_refl)+

lemma es_cached_contract:
  assumes "es_frame W A C S D st0 st"
    and "\<And>m g sc. es_frame W A C S D st0 (st\<lparr>ctx := (ctx st)\<lparr>ctx_gas_meter := g, sc_context := sc\<rparr>\<rparr>) \<Longrightarrow>
      Q (m, g, sc)"
  shows "post (gm_ws_cached_contract W M (es_gm st) a (sc_context (ctx st))) Q"
proof (rule postI)
  fix x
  assume x: "gm_ws_cached_contract W M (es_gm st) a (sc_context (ctx st)) = Some x"
  obtain m g sc where [simp]: "x = (m, g, sc)"
    by (cases x) auto
  have "gm_frame W A C S (es_gm st) g"
    using x by (auto intro: gm_frames)
  moreover have "sc_memory_limit sc = sc_memory_limit (sc_context (ctx st))"
    using x by (auto simp: gm_ws_cached_contract_def bind_convs dest: cached_contract_memory_limit)
  ultimately show "Q x"
    using assms(1) by (auto intro!: assms(2) intro: gm_frame_trans
        simp: es_frame_def ctx_frame_def es_gm_def)
qed

lemma es_instantiate:
  "es_frame (rt_ws R) A C S D st0 st \<Longrightarrow>
   (\<And>r st'. es_frame (rt_ws R) A C S D st0 st' \<Longrightarrow> Q (r, st')) \<Longrightarrow>
   post (call_instance_instantiate R st v target m args amount) Q"
  unfolding call_instance_instantiate_def Let_def
  by (assumption | rule cmd_rules es_cached_contract | erule meta_allE meta_mp)+

text \<open>A view call needs no permission, any other call may change balances and storage.\<close>

definition may_call ::
  "bool \<Rightarrow> public_address set \<Rightarrow> public_address set \<Rightarrow> (deferred_command \<Rightarrow> bool) \<Rightarrow> bool" where
  "may_call view A S D \<longleftrightarrow> view \<or> A = UNIV \<and> S = UNIV \<and> D = defer_ok"

lemma es_run_contract:
  assumes "es_frame (rt_ws R) A C S D st0 st" "may_call v A S D"
    and "\<And>r st'. es_frame (rt_ws R) A C S D st0 st' \<Longrightarrow> Q (r, st')"
  shows "post (call_instance_call R st v inst tx) Q"
proof -
  have "es_frame (rt_ws R) A C S D st0
      (set_es_gm (st\<lparr>ctx := c\<rparr>) (manually_charge_gas (es_gm (st\<lparr>ctx := c\<rparr>)) g))"
    if "contract_call R (Suc (gas_limit (base_tx tx))) inst 0 v tx (bd st) (ctx st) = Some (c, g, e)"
    for c g e
  proof -
    have "ctx_frame (rt_ws R) A C S D (ctx st) c"
      using contract_call_frame[OF that] assms(2)
      by (auto simp: call_frame_def may_call_def split: if_splits elim!: ctx_frame_mono)
    then have "es_frame (rt_ws R) A C S D st0 (st\<lparr>ctx := c\<rparr>)"
      using assms(1) by (auto simp: es_frame_def intro: ctx_frame_trans)
    then show ?thesis
      by (rule es_frame_set_gm) simp
  qed
  then show ?thesis
    using assms(3) by (auto simp: call_instance_call_def post_def bind_convs Let_def
        simp del: contract_call.simps split: if_splits)
qed

lemma call_contract_post:
  "es_frame (rt_ws R) A C S D st0 st \<Longrightarrow> may_call v A S D \<Longrightarrow>
   post (call_contract R st v target m args amount) (cmd_post (rt_ws R) A C S D st0)"
  unfolding call_contract_def
  by (assumption | rule cmd_rules es_instantiate es_run_contract)+

lemma call_post:
  assumes "may_call v A S D" "v \<Longrightarrow> amount = None"
  shows "post (call R st v target m args amount) (cmd_post (rt_ws R) A C S D st)"
proof (cases amount)
  case None
  then show ?thesis
    using call_contract_post[OF es_frame_refl assms(1)] by (simp add: call_def)
next
  case (Some amt)
  then have mem: "signer (txn_meta st) \<in> A" "target \<in> A"
    using assms by (auto simp: may_call_def)
  show ?thesis
    unfolding call_def Some option.case
    by (insert assms(1) mem, (assumption | rule cmd_rules call_contract_post | rule es_frame_refl)+)
qed

lemma es_deploy_instantiate:
  assumes "es_frame (rt_ws R) A C S D st0 st"
    and "\<And>r st'. es_frame (rt_ws R) A C S D st0 st' \<Longrightarrow> Q (r, st')"
  shows "post (deploy_instance_instantiate R st contract cbi a) Q"
  unfolding deploy_instance_instantiate_def
  using assms
  by (auto intro!: post_rules es_cbi[OF assms(1)] split: sum.split module_build_error.split
      contract_validate_error.split)

lemma deploy_post:
  assumes "deploy_address R (txn_meta st) i \<in> C"
  shows "post (deploy R st i contract cbi) (cmd_post (rt_ws R) A C S D st)"
proof -
  have cached: "es_frame (rt_ws R) A C S D st (st'\<lparr>ctx := (ctx st')\<lparr>sc_context :=
      (sc_context (ctx st'))\<lparr>sc_cache := c\<rparr>\<rparr>\<rparr>)" if "es_frame (rt_ws R) A C S D st st'" for st' c
    using that by (simp add: es_frame_def ctx_frame_def)
  show ?thesis
    unfolding deploy_def deploy_instance_deploy_def Let_def
    by (insert assms, (assumption | rule cmd_rules cached es_deploy_instantiate | rule es_frame_refl)+)
qed

interpretation transfer_cmd: atomic_command "rt_ws R" "\<lambda>st. {signer (txn_meta st), recipient}"
  "\<lambda>st. {}" "\<lambda>st. {}" "\<lambda>d. False" "\<lambda>st. transfer R st recipient amount"
  for R :: "('w, 'c, 'm, 'v) runtime" and recipient amount
  by unfold_locales (rule transfer_post; simp)

interpretation call_cmd: atomic_command "rt_ws R" "\<lambda>st. UNIV" "\<lambda>st. {}" "\<lambda>st. UNIV" defer_ok
  "\<lambda>st. call R st False target m args amount"
  for R :: "('w, 'c, 'm, 'v) runtime" and target m args amount
  by unfold_locales (rule call_post; simp add: may_call_def)

interpretation view_cmd: atomic_command "rt_ws R" "\<lambda>st. {}" "\<lambda>st. {}" "\<lambda>st. {}" "\<lambda>d. False"
  "\<lambda>st. call R st True target m args None"
  for R :: "('w, 'c, 'm, 'v) runtime" and target m args
  by unfold_locales (rule call_post; simp add: may_call_def)

interpretation deploy_cmd: atomic_command "rt_ws R" "\<lambda>st. {}"
  "\<lambda>st. {deploy_address R (txn_meta st) i}" "\<lambda>st. {}" "\<lambda>d. False"
  "\<lambda>st. deploy R st i contract cbi"
  for R :: "('w, 'c, 'm, 'v) runtime" and i contract cbi
  by unfold_locales (rule deploy_post; simp)

section \<open>What the commands do\<close>

lemma es_frame_views:
  "es_frame W {} {} {} D st st' \<Longrightarrow>
   wsc_balance_view W (es_cache st') = wsc_balance_view W (es_cache st) \<and>
   wsc_cbi_view W (es_cache st') = wsc_cbi_view W (es_cache st) \<and>
   wsc_code_view W (es_cache st') = wsc_code_view W (es_cache st) \<and>
   wsc_storage_view W (es_cache st') = wsc_storage_view W (es_cache st)"
  by (auto simp: es_frame_def ctx_frame_def gm_frame_def wsc_frame_def es_cache_def
      gas_free_ws_cache_def fun_eq_iff)

lemma es_frame_inv: "es_frame W A C S D st st' \<Longrightarrow> wsc_inv W (es_cache st) \<Longrightarrow> wsc_inv W (es_cache st')"
  by (auto simp: es_keeps_def dest!: es_frame_keeps intro: wsc_step_inv)

lemma es_balance_view:
  assumes "on_gm (\<lambda>g. gm_ws_balance W g a) st = Some (v, st')" "wsc_inv W (es_cache st)"
  shows "wsc_balance_view W (es_cache st) a = Some v"
    "wsc_balance_view W (es_cache st') = wsc_balance_view W (es_cache st)"
    "wsc_inv W (es_cache st')"
proof -
  have "es_frame W {} {} {} (\<lambda>d. False) st st'"
    using assms(1)
    by (auto simp: on_gm_def bind_convs intro!: es_frame_set_gm[OF es_frame_refl] intro: gm_frames)
  then show "wsc_balance_view W (es_cache st') = wsc_balance_view W (es_cache st)"
    "wsc_inv W (es_cache st')"
    using es_frame_views es_frame_inv assms(2) by blast+
  show "wsc_balance_view W (es_cache st) a = Some v"
    using assms op_balance_view
    by (auto simp: on_gm_def gm_ws_balance_def bind_convs es_cache_def gas_free_ws_cache_def es_gm_def
        wsc_inv_def)
qed

lemma es_set_balance_view:
  assumes "on_gm_set (\<lambda>g. gm_ws_set_balance W g a v) st = Some st'" "wsc_inv W (es_cache st)"
  shows "wsc_balance_view W (es_cache st') = (wsc_balance_view W (es_cache st))(a := Some v)"
    "wsc_inv W (es_cache st')"
proof -
  have frame: "es_frame W {a} {} {} (\<lambda>d. False) st st'"
    using assms(1)
    by (auto simp: on_gm_set_def bind_convs intro!: es_frame_set_gm[OF es_frame_refl] intro: gm_frames)
  then show "wsc_inv W (es_cache st')"
    using es_frame_inv assms(2) by blast
  have "wsc_balance_view W (es_cache st') a = Some v"
    using assms(1) op_set_balance_view
    by (auto simp: on_gm_set_def gm_ws_set_balance_def bind_convs es_cache_def gas_free_ws_cache_def
        es_gm_def set_es_gm_def gm_charge_def)
  moreover have "wsc_balance_view W (es_cache st') b = wsc_balance_view W (es_cache st) b" if "b \<noteq> a" for b
    using frame that by (auto simp: es_frame_def ctx_frame_def gm_frame_def wsc_frame_def es_cache_def
        gas_free_ws_cache_def)
  ultimately show "wsc_balance_view W (es_cache st') = (wsc_balance_view W (es_cache st))(a := Some v)"
    by (simp add: fun_eq_iff)
qed

lemma exhausted_ok: "abort_if_gas_exhausted st = Some (Ok, st') \<Longrightarrow> st' = st"
  by (auto simp: abort_if_gas_exhausted_def split: if_splits)

text \<open>C20: A transfer that succeeds moves exactly its amount: the signer had at least the amount and has
  that much less, the recipient has that much more up to the largest balance, every other balance
  is as before; a transfer to oneself changes nothing.\<close>

theorem transfer_exact:
  fixes R :: "('w, 'c, 'm, 'v) runtime" and st st' :: "('w, 'c, 'e) execution_state"
  defines "view \<equiv> \<lambda>st. wsc_balance_view (rt_ws R) (es_cache st)"
  assumes "transfer R st recipient amount = Some (Ok, st')" and "wsc_inv (rt_ws R) (es_cache st)"
  shows "\<exists>b c. view st (signer (txn_meta st)) = Some b \<and> amount \<le> b \<and>
    (if recipient = signer (txn_meta st) then Some (b - amount) else view st recipient) = Some c \<and>
    view st' = (view st)(signer (txn_meta st) := Some (b - amount),
      recipient := Some (saturating_add c amount)) \<and>
    (recipient = signer (txn_meta st) \<longrightarrow> b \<le> U64_MAX \<longrightarrow> view st' = view st)"
proof -
  let ?from = "signer (txn_meta st)" and ?W = "rt_ws R"
  obtain b st1 st2 c st3 where
    1: "on_gm (\<lambda>g. gm_ws_balance ?W g ?from) st = Some (b, st1)" and le: "\<not> b < amount" and
    2: "on_gm_set (\<lambda>g. gm_ws_set_balance ?W g ?from (b - amount)) st1 = Some st2" and
    3: "on_gm (\<lambda>g. gm_ws_balance ?W g recipient) st2 = Some (c, st3)" and
    4: "on_gm_set (\<lambda>g. gm_ws_set_balance ?W g recipient (saturating_add c amount)) st3 = Some st'"
    using assms(2)
    by (auto simp: transfer_def bind_convs Let_def abort_def split: if_split_asm dest: exhausted_ok)
  note v1 = es_balance_view[OF 1 assms(3)] and v2 = es_set_balance_view[OF 2]
  note v3 = es_balance_view[OF 3] and v4 = es_set_balance_view[OF 4]
  have eqs: "view st ?from = Some b"
    "(if recipient = ?from then Some (b - amount) else view st recipient) = Some c"
    "view st' = (view st)(?from := Some (b - amount), recipient := Some (saturating_add c amount))"
    using v1 v2 v3 v4 by (simp_all add: view_def split: if_splits)
  moreover have "view st' = view st" if "recipient = ?from" "b \<le> U64_MAX"
    using eqs that le by (auto simp: saturating_add_exact fun_eq_iff)
  ultimately show ?thesis
    using le by (auto simp del: fun_upd_apply simp add: not_less)
qed

theorem transfer_exact_witness:
  "\<exists>st'. transfer kv_runtime (cmd_state V1 1000000) 7 100 = Some (Ok, st') \<and>
     wsc_balance_view kv_ops (es_cache st') =
       (wsc_balance_view kv_ops (es_cache (cmd_state V1 1000000)))
         (1 := Some 999999900, 7 := Some 100)"
proof -
  let ?st = "cmd_state V1 1000000"
  obtain st' where run: "transfer kv_runtime ?st 7 100 = Some (Ok, st')"
    by (simp add: transfer_def runtime_evals cong: eval_congs)
  show ?thesis
    using run transfer_exact[OF run] by (auto simp: saturating_add_def U64_MAX_def)
qed

text \<open>What the writes of a deployment leave for a reader.\<close>

lemma es_cbi_view:
  assumes "on_gm (\<lambda>g. gm_ws_cbi_version W g a) st = Some (v, st')" "wsc_inv W (es_cache st)"
  shows "wsc_cbi_view W (es_cache st) a = Some v" "wsc_inv W (es_cache st')"
    "txn_meta st' = txn_meta st"
proof -
  have frame: "es_frame W {} {} {} (\<lambda>d. False) st st'"
    using assms(1)
    by (auto simp: on_gm_def bind_convs intro!: es_frame_set_gm[OF es_frame_refl] intro: gm_frames)
  show "wsc_inv W (es_cache st')" "txn_meta st' = txn_meta st"
    using frame es_frame_inv[OF frame assms(2)] by (simp_all add: es_frame_def)
  show "wsc_cbi_view W (es_cache st) a = Some v"
    using assms cbi.get_answer[of W "es_cache st" a v]
    by (auto simp: on_gm_def gm_ws_cbi_version_def op_ws_cbi_version_def bind_convs es_cache_def
        gas_free_ws_cache_def es_gm_def wsc_inv_def)
qed

lemma es_set_code_view:
  "on_gm_set (\<lambda>g. gm_ws_set_code W g a c) st = Some st' \<Longrightarrow> wsc_code_view W (es_cache st') a = Some (Some c)"
  by (auto simp: on_gm_set_def gm_ws_set_code_def op_ws_set_contract_code_def bind_convs es_cache_def
      gas_free_ws_cache_def es_gm_def set_es_gm_def gm_charge_def code.put_view Let_def)

lemma es_set_cbi_view:
  assumes "on_gm_set (\<lambda>g. gm_ws_set_cbi_version W g a v) st = Some st'"
  shows "wsc_cbi_view W (es_cache st') a = Some (Some v)"
    "wsc_code_view W (es_cache st') = wsc_code_view W (es_cache st)"
  using assms
  by (auto simp: on_gm_set_def gm_ws_set_cbi_version_def op_ws_set_cbi_version_def
      op_ws_cbi_version_def bind_convs es_cache_def gas_free_ws_cache_def es_gm_def set_es_gm_def
      gm_charge_def cbi.put_view Let_def)
    (auto simp: wsc_code_view_def wsc_cbi_version_def wsc_set_cbi_version_def bind_convs)

text \<open>C21: Deploying never overwrites a contract: when it succeeds, no contract was at the address,
  and afterwards the address holds exactly the deployed bytecode with the CBI version that was given,
  which the runtime supports.\<close>

theorem deploy_creates:
  fixes st st' :: "('w, 'c, 'e) execution_state"
  assumes "deploy R st i contract cbi = Some (Ok, st')" and "wsc_inv (rt_ws R) (es_cache st)"
  shows "wsc_cbi_view (rt_ws R) (es_cache st) (deploy_address R (txn_meta st) i) = Some None \<and>
    wsc_cbi_view (rt_ws R) (es_cache st') (deploy_address R (txn_meta st) i) = Some (Some cbi) \<and>
    wsc_code_view (rt_ws R) (es_cache st') (deploy_address R (txn_meta st) i) = Some (Some contract) \<and>
    cbi \<le> CBI_VERSION"
proof -
  let ?a = "deploy_address R (txn_meta st) i" and ?W = "rt_ws R"
  obtain m st1 where inst: "deploy_instance_instantiate R st contract cbi ?a = Some (Inr m, st1)"
    and dep: "deploy_instance_deploy R st1 m contract cbi ?a = Some (None, st')"
  proof -
    obtain x st1 where x: "deploy_instance_instantiate R st contract cbi ?a = Some (x, st1)"
      using assms(1) by (auto simp: deploy_def bind_convs Let_def)
    then show ?thesis
      using that assms(1)
      by (cases x) (auto simp: deploy_def abort_def bind_convs Let_def split: option.split_asm
          dest: exhausted_ok)
  qed
  have "is_cbi_compatible cbi" and cbi: "on_gm (\<lambda>g. gm_ws_cbi_version ?W g ?a) st = Some (None, st1)"
    using inst
    by (auto simp: deploy_instance_instantiate_def bind_convs split: if_split_asm sum.split_asm
        module_build_error.split_asm contract_validate_error.split_asm)
  moreover obtain st2 st3 where
    "on_gm_set (\<lambda>g. gm_ws_set_code ?W g ?a contract) st2 = Some st3"
    "on_gm_set (\<lambda>g. gm_ws_set_cbi_version ?W g ?a cbi) st3 = Some st'"
    using dep by (auto simp: deploy_instance_deploy_def bind_convs Let_def)
  ultimately show ?thesis
    using es_cbi_view[OF cbi assms(2)] es_set_code_view[of ?W ?a contract st2 st3]
      es_set_cbi_view[of ?W ?a cbi st3 st']
    by (simp add: is_cbi_compatible_def)
qed

theorem deploy_creates_witness:
  "\<exists>st'. deploy kv_runtime (cmd_state V1 10000000) 0 [1, 2] 0 = Some (Ok, st') \<and>
     wsc_code_view kv_ops (es_cache st') 100 = Some (Some [1, 2])"
proof -
  let ?st = "cmd_state V1 10000000"
  obtain st' where run: "deploy kv_runtime ?st 0 [1, 2] 0 = Some (Ok, st')"
    by (simp add: deploy_def deploy_instance_instantiate_def deploy_instance_deploy_def
        deploy_address_def module_from_bytecode_checked_def from_wasm_bytecode_checked_def
        module_validate_proper_contract_def module_validate_entry_point_def dir_ops_def
        CONTRACT_METHOD_def is_cbi_compatible_def CBI_VERSION_def sc_default_def runtime_evals
        cong: eval_congs)
  have "deploy_address kv_runtime (txn_meta ?st) 0 = 100"
    by (simp add: deploy_address_def cmd_state_def state_evals kv_runtime_def)
  then show ?thesis
    using run deploy_creates[OF run] by auto
qed

end
