(* ===== verification/Staking_Commands.thy ===== *)
theory Staking_Commands
  imports Account_Commands
begin

text \<open>
  The staking commands of \<^verbatim>\<open>src/commands/staking.rs\<close>. The three helpers at the end of that file are
  generic over \<^verbatim>\<open>NetworkAccountStorage\<close>, so they are over any implementation \<open>I\<close> here; next epoch runs
  them on the gas-free one. An \<^verbatim>\<open>unwrap\<close> of a missing field of the network account is a panic.
\<close>

section \<open>Helpers\<close>

definition stake_of_pool ::
  "network_account \<Rightarrow> 's nas \<Rightarrow> public_address \<Rightarrow> public_address \<Rightarrow> 's \<Rightarrow> (u64 option \<times> 's) option" where
  "stake_of_pool N I operator own s =
     (if operator = own then do {
        (r, s) \<leftarrow> run_na I (p_operator_stake (pools N) operator) s;
        Some (case r of Some (Some stk) \<Rightarrow> Some (stake_power stk) | _ \<Rightarrow> None, s)
      } else do {
        (r, s) \<leftarrow> run_na I (ds_get_by (pools N) operator own) s;
        Some (map_option stake_power r, s)
      })"

definition reduce_stake_power ::
  "network_account \<Rightarrow> 's nas \<Rightarrow> public_address \<Rightarrow> u64 \<Rightarrow> public_address \<Rightarrow> u64 \<Rightarrow> u64 \<Rightarrow> 's \<Rightarrow>
   (u64 \<times> 's) option" where
  "reduce_stake_power N I operator pool_power own stk reduce_amount s = do {
     (amount_unstaked, s) \<leftarrow>
       (if stk \<le> reduce_amount then do {
          (_, s) \<leftarrow> (if operator = own
                      then run_na I (p_set_operator_stake (pools N) operator None) s
                      else run_na I (ds_remove_item (pools N) operator own) s);
          Some (stk, s)
        } else do {
          let new_state = \<lparr>owner = own, stake_power = stk - reduce_amount\<rparr>;
          (_, s) \<leftarrow> (if operator = own
                      then run_na I (p_set_operator_stake (pools N) operator (Some new_state)) s
                      else run_na I (ds_change_key (pools N) operator new_state) s);
          Some (reduce_amount, s)
        });
     let new_pool_power = saturating_sub pool_power amount_unstaked;
     (_, s) \<leftarrow> run_na I (p_set_power (pools N) operator new_pool_power) s;
     (pool_key, s) \<leftarrow> run_na I (nvp_get_by (nvp N) operator) s;
     case pool_key of
       Some k \<Rightarrow> do {
         (_, s) \<leftarrow> (if new_pool_power = 0 then run_na I (nvp_remove_item (nvp N) operator) s
                     else run_na I (nvp_change_key (nvp N) (k\<lparr>pk_power := new_pool_power\<rparr>)) s);
         Some (amount_unstaked, s)
       }
     | None \<Rightarrow>
         if new_pool_power > 0 then do {
           (_, s) \<leftarrow> run_na I (nvp_insert_extract (nvp N)
             \<lparr>pk_operator = operator, pk_power = new_pool_power\<rparr>) s;
           Some (amount_unstaked, s)
         } else Some (amount_unstaked, s)
   }"

text \<open>\<open>Inl ()\<close> is \<^verbatim>\<open>Err(())\<close>; the inner result is the power to add to the pool.\<close>

definition increase_stake ::
  "network_account \<Rightarrow> 's nas \<Rightarrow> public_address \<Rightarrow> public_address \<Rightarrow> u64 option \<Rightarrow> u64 \<Rightarrow> bool \<Rightarrow> 's \<Rightarrow>
   ((unit + u64) \<times> 's) option" where
  "increase_stake N I operator own stk to_increase exit_on_insert_fail s =
     (if operator = own then do {
        let cur = (case stk of Some p \<Rightarrow> p | None \<Rightarrow> 0);
        (_, s) \<leftarrow> run_na I (p_set_operator_stake (pools N) operator
          (Some \<lparr>owner = operator, stake_power = saturating_add cur to_increase\<rparr>)) s;
        Some (Inr to_increase, s)
      } else
        (case stk of
           Some cur \<Rightarrow> do {
             (_, s) \<leftarrow> run_na I (ds_change_key (pools N) operator
               \<lparr>owner = own, stake_power = saturating_add cur to_increase\<rparr>) s;
             Some (Inr to_increase, s)
           }
         | None \<Rightarrow> do {
             (r, s) \<leftarrow> run_na I (ds_insert_extract (pools N) operator
               \<lparr>owner = own, stake_power = to_increase\<rparr>) s;
             case r of
               Inr (Some replaced_stake) \<Rightarrow>
                 Some (Inr (saturating_sub to_increase (stake_power replaced_stake)), s)
             | Inr None \<Rightarrow> Some (Inr to_increase, s)
             | Inl _ \<Rightarrow> if exit_on_insert_fail then Some (Inl (), s) else Some (Inr to_increase, s)
           }))"

definition increase_stake_power ::
  "network_account \<Rightarrow> 's nas \<Rightarrow> public_address \<Rightarrow> u64 \<Rightarrow> public_address \<Rightarrow> u64 option \<Rightarrow> u64 \<Rightarrow> bool \<Rightarrow>
   's \<Rightarrow> ((unit + unit) \<times> 's) option" where
  "increase_stake_power N I operator pool_power own stk to_increase exit_on_insert_fail s = do {
     (power_to_add, s) \<leftarrow> increase_stake N I operator own stk to_increase exit_on_insert_fail s;
     case power_to_add of
       Inl _ \<Rightarrow> Some (Inl (), s)
     | Inr power_to_add \<Rightarrow> do {
         let new_pool_power = saturating_add pool_power power_to_add;
         (_, s) \<leftarrow> run_na I (p_set_power (pools N) operator new_pool_power) s;
         (pool_key, s) \<leftarrow> run_na I (nvp_get_by (nvp N) operator) s;
         case pool_key of
           Some k \<Rightarrow> do {
             (_, s) \<leftarrow> run_na I (nvp_change_key (nvp N) (k\<lparr>pk_power := new_pool_power\<rparr>)) s;
             Some (Inr (), s)
           }
         | None \<Rightarrow> do {
             (_, s) \<leftarrow> run_na I (nvp_insert_extract (nvp N)
               \<lparr>pk_operator = operator, pk_power = new_pool_power\<rparr>) s;
             Some (Inr (), s)
           }
       }
   }"

text \<open>The power that a validator set locks of a deposit, as \<^verbatim>\<open>withdraw_deposit\<close> reads it twice.\<close>

definition locked_power_in ::
  "network_account \<Rightarrow> 's nas \<Rightarrow> validator_set_api \<Rightarrow> public_address \<Rightarrow> public_address \<Rightarrow> 's \<Rightarrow>
   (u64 \<times> 's) option" where
  "locked_power_in N I vs operator own s = do {
     (p, s) \<leftarrow> run_na I (vs_pool vs operator) s;
     case p of
       None \<Rightarrow> Some (0, s)
     | Some h \<Rightarrow>
         if operator = own then do {
           (r, s) \<leftarrow> run_na I (p_operator_stake (vs_pools N) h) s;
           Some (case r of Some (Some stk) \<Rightarrow> stake_power stk | _ \<Rightarrow> 0, s)
         } else do {
           (r, s) \<leftarrow> run_na I (ds_get_by (vs_pools N) h own) s;
           Some (case r of Some stk \<Rightarrow> stake_power stk | None \<Rightarrow> 0, s)
         }
   }"

section \<open>Calls on the network account\<close>

definition es_nas :: "('w, 'c, 'm, 'v) runtime \<Rightarrow> 'w gas_meter nas" where
  "es_nas R = gm_nas (rt_ws R) (NETWORK_ADDRESS (rt_net R))"

definition na ::
  "('w, 'c, 'm, 'v) runtime \<Rightarrow> 'a na_prog \<Rightarrow> ('w, 'c, 'e) execution_state \<Rightarrow>
   ('a \<times> ('w, 'c, 'e) execution_state) option" where
  "na R p st = on_gm (run_na (es_nas R) p) st"

section \<open>Pools\<close>

definition create_pool ::
  "('w, 'c, 'm, 'v) runtime \<Rightarrow> public_address \<Rightarrow> ('w, 'c, 'e) execution_state \<Rightarrow> u8 \<Rightarrow>
   (cmd_result \<times> ('w, 'c, 'e) execution_state) option" where
  "create_pool R operator st commission_rate =
     (let pool = pools (rt_net R) in
      if commission_rate > 100 then abort st InvalidPoolPolicy
      else do {
        (exists, st) \<leftarrow> na R (p_exists pool operator) st;
        if exists then abort st PoolAlreadyExists
        else do {
          (_, st) \<leftarrow> na R (p_set_operator pool operator operator) st;
          (_, st) \<leftarrow> na R (p_set_power pool operator 0) st;
          (_, st) \<leftarrow> na R (p_set_commission_rate pool operator commission_rate) st;
          (_, st) \<leftarrow> na R (p_set_operator_stake pool operator None) st;
          (_, st) \<leftarrow> na R (nvp_insert_extract (nvp (rt_net R))
            \<lparr>pk_operator = operator, pk_power = 0\<rparr>) st;
          abort_if_gas_exhausted st
        }
      })"

definition set_pool_settings ::
  "('w, 'c, 'm, 'v) runtime \<Rightarrow> public_address \<Rightarrow> ('w, 'c, 'e) execution_state \<Rightarrow> u8 \<Rightarrow>
   (cmd_result \<times> ('w, 'c, 'e) execution_state) option" where
  "set_pool_settings R operator st new_commission_rate =
     (let pool = pools (rt_net R) in
      if new_commission_rate > 100 then abort st InvalidPoolPolicy
      else do {
        (exists, st) \<leftarrow> na R (p_exists pool operator) st;
        if \<not> exists then abort st PoolNotExists
        else do {
          (rate, st) \<leftarrow> na R (p_commission_rate pool operator) st;
          if rate = Some new_commission_rate then abort st InvalidPoolPolicy
          else do {
            (_, st) \<leftarrow> na R (p_set_commission_rate pool operator new_commission_rate) st;
            abort_if_gas_exhausted st
          }
        }
      })"

definition delete_pool ::
  "('w, 'c, 'm, 'v) runtime \<Rightarrow> public_address \<Rightarrow> ('w, 'c, 'e) execution_state \<Rightarrow>
   (cmd_result \<times> ('w, 'c, 'e) execution_state) option" where
  "delete_pool R operator st = do {
     (exists, st) \<leftarrow> na R (p_exists (pools (rt_net R)) operator) st;
     if \<not> exists then abort st PoolNotExists
     else do {
       (_, st) \<leftarrow> na R (nvp_remove_item (nvp (rt_net R)) operator) st;
       (_, st) \<leftarrow> na R (p_delete (pools (rt_net R)) operator) st;
       abort_if_gas_exhausted st
     }
   }"

section \<open>Deposits\<close>

definition create_deposit ::
  "('w, 'c, 'm, 'v) runtime \<Rightarrow> public_address \<Rightarrow> ('w, 'c, 'e) execution_state \<Rightarrow> public_address \<Rightarrow> u64 \<Rightarrow>
   bool \<Rightarrow> (cmd_result \<times> ('w, 'c, 'e) execution_state) option" where
  "create_deposit R own st operator balance auto_stake_rewards = do {
     (exists, st) \<leftarrow> na R (p_exists (pools (rt_net R)) operator) st;
     if \<not> exists then abort st PoolNotExists
     else do {
       (exists, st) \<leftarrow> na R (d_exists (deposits (rt_net R)) operator own) st;
       if exists then abort st DepositsAlreadyExists
       else do {
         (owner_balance, st) \<leftarrow> on_gm (\<lambda>g. gm_ws_balance (rt_ws R) g own) st;
         if owner_balance < balance then abort st NotEnoughBalanceForTransfer
         else do {
           st \<leftarrow> on_gm_set (\<lambda>g. gm_ws_set_balance (rt_ws R) g own (owner_balance - balance)) st;
           (_, st) \<leftarrow> na R (d_set_balance (deposits (rt_net R)) operator own balance) st;
           (_, st) \<leftarrow> na R (d_set_auto_stake_rewards (deposits (rt_net R)) operator own
             auto_stake_rewards) st;
           abort_if_gas_exhausted st
         }
       }
     }
   }"

definition set_deposit_settings ::
  "('w, 'c, 'm, 'v) runtime \<Rightarrow> public_address \<Rightarrow> ('w, 'c, 'e) execution_state \<Rightarrow> public_address \<Rightarrow>
   bool \<Rightarrow> (cmd_result \<times> ('w, 'c, 'e) execution_state) option" where
  "set_deposit_settings R own st operator new_auto_stake_rewards = do {
     (exists, st) \<leftarrow> na R (d_exists (deposits (rt_net R)) operator own) st;
     if \<not> exists then abort st DepositsNotExists
     else do {
       (auto, st) \<leftarrow> na R (d_auto_stake_rewards (deposits (rt_net R)) operator own) st;
       if auto = Some new_auto_stake_rewards then abort st InvalidDepositPolicy
       else do {
         (_, st) \<leftarrow> na R (d_set_auto_stake_rewards (deposits (rt_net R)) operator own
           new_auto_stake_rewards) st;
         abort_if_gas_exhausted st
       }
     }
   }"

definition topup_deposit ::
  "('w, 'c, 'm, 'v) runtime \<Rightarrow> public_address \<Rightarrow> ('w, 'c, 'e) execution_state \<Rightarrow> public_address \<Rightarrow>
   u64 \<Rightarrow> (cmd_result \<times> ('w, 'c, 'e) execution_state) option" where
  "topup_deposit R own st operator amount = do {
     (exists, st) \<leftarrow> na R (d_exists (deposits (rt_net R)) operator own) st;
     if \<not> exists then abort st DepositsNotExists
     else do {
       (owner_balance, st) \<leftarrow> on_gm (\<lambda>g. gm_ws_balance (rt_ws R) g own) st;
       if owner_balance < amount then abort st NotEnoughBalanceForTransfer
       else do {
         st \<leftarrow> on_gm_set (\<lambda>g. gm_ws_set_balance (rt_ws R) g own (owner_balance - amount)) st;
         (r, st) \<leftarrow> na R (d_balance (deposits (rt_net R)) operator own) st;
         deposit_balance \<leftarrow> r;
         (_, st) \<leftarrow> na R (d_set_balance (deposits (rt_net R)) operator own
           (saturating_add deposit_balance amount)) st;
         abort_if_gas_exhausted st
       }
     }
   }"

text \<open>
  How the last three commands end: the gas for the answer is checked first, then the amount is
  stored as a return value (version 1) or in the receipt field that \<open>set_v2\<close> sets (version 2).
\<close>

definition finish_with_amount ::
  "('w, 'c, 'e) execution_state \<Rightarrow> ('w gas_meter \<Rightarrow> u64 \<Rightarrow> 'w gas_meter) \<Rightarrow> u64 \<Rightarrow>
   (cmd_result \<times> ('w, 'c, 'e) execution_state) option" where
  "finish_with_amount st set_v2 amount =
     (let ret_val_bytes = to_le_bytes 8 amount;
          ret_val_cost = (case version (txn_meta st) of
              V1 \<Rightarrow> fst (net_cost (cc_deduct (blockchain_storage_cost (length ret_val_bytes))))
            | V2 \<Rightarrow> fst (net_cost (cc_deduct (blockchain_storage_cost 8))))
      in if saturating_add (total_gas_used (es_gm st)) ret_val_cost > gas_limit (txn_meta st)
         then abort_if_gas_exhausted (set_es_gm st (manually_charge_gas (es_gm st) ret_val_cost))
         else abort_if_gas_exhausted (set_es_gm st
           (case version (txn_meta st) of
              V1 \<Rightarrow> gm_set_return_value (es_gm st) ret_val_bytes
            | V2 \<Rightarrow> set_v2 (es_gm st) amount)))"

text \<open>Step 5 of \<^verbatim>\<open>withdraw_deposit\<close>.\<close>

definition cap_stake ::
  "network_account \<Rightarrow> 's nas \<Rightarrow> public_address \<Rightarrow> public_address \<Rightarrow> u64 \<Rightarrow> 's \<Rightarrow> (unit \<times> 's) option" where
  "cap_stake N I operator own new_deposit_balance s = do {
     (stk, s) \<leftarrow> stake_of_pool N I operator own s;
     case stk of
       None \<Rightarrow> Some ((), s)
     | Some p \<Rightarrow>
         if new_deposit_balance < p then do {
           (prev_pool_power, s) \<leftarrow> run_na I (p_power (pools N) operator) s;
           case prev_pool_power of
             None \<Rightarrow> Some ((), s)
           | Some pw \<Rightarrow> do {
               (_, s) \<leftarrow> reduce_stake_power N I operator pw own p (p - new_deposit_balance) s;
               Some ((), s)
             }
         } else Some ((), s)
   }"

text \<open>Step 2 of \<^verbatim>\<open>withdraw_deposit\<close>: the amount that is withdrawn.\<close>

definition withdrawal_of :: "u64 \<Rightarrow> u64 \<Rightarrow> u64 \<Rightarrow> u64 \<Rightarrow> u64" where
  "withdrawal_of max_amount deposit_balance prev_epoch_locked_power cur_epoch_locked_power =
     (let locked_power = max prev_epoch_locked_power cur_epoch_locked_power
      in min max_amount (saturating_sub deposit_balance locked_power))"

text \<open>Steps 4 to 6 of \<^verbatim>\<open>withdraw_deposit\<close>.\<close>

definition pay_out ::
  "('w, 'c, 'm, 'v) runtime \<Rightarrow> public_address \<Rightarrow> ('w, 'c, 'e) execution_state \<Rightarrow> public_address \<Rightarrow>
   u64 \<Rightarrow> u64 \<Rightarrow> u64 \<Rightarrow> (cmd_result \<times> ('w, 'c, 'e) execution_state) option" where
  "pay_out R own st operator deposit_balance new_deposit_balance withdrawal_amount = do {
     let N = rt_net R;
     (_, st) \<leftarrow> (if new_deposit_balance = 0
                  then na R (d_delete (deposits N) operator own) st
                  else na R (d_set_balance (deposits N) operator own new_deposit_balance) st);
     (owner_balance, st) \<leftarrow> on_gm (\<lambda>g. gm_ws_balance (rt_ws R) g own) st;
     st \<leftarrow> on_gm_set (\<lambda>g. gm_ws_set_balance (rt_ws R) g own
             (saturating_add owner_balance (deposit_balance - new_deposit_balance))) st;
     (_, st) \<leftarrow> on_gm (cap_stake N (es_nas R) operator own new_deposit_balance) st;
     finish_with_amount st gm_set_amount_withdrawn withdrawal_amount
   }"

definition withdraw_deposit ::
  "('w, 'c, 'm, 'v) runtime \<Rightarrow> public_address \<Rightarrow> ('w, 'c, 'e) execution_state \<Rightarrow> public_address \<Rightarrow>
   u64 \<Rightarrow> (cmd_result \<times> ('w, 'c, 'e) execution_state) option" where
  "withdraw_deposit R own st operator max_amount = do {
     let N = rt_net R;
     (exists, st) \<leftarrow> na R (d_exists (deposits N) operator own) st;
     if \<not> exists then abort st DepositsNotExists
     else do {
       (r, st) \<leftarrow> na R (d_balance (deposits N) operator own) st;
       deposit_balance \<leftarrow> r;
       (prev_epoch_locked_power, st) \<leftarrow> on_gm (locked_power_in N (es_nas R) (pvp N) operator own) st;
       (cur_epoch_locked_power, st) \<leftarrow> on_gm (locked_power_in N (es_nas R) (vp N) operator own) st;
       let withdrawal_amount = withdrawal_of max_amount deposit_balance prev_epoch_locked_power
             cur_epoch_locked_power;
       let new_deposit_balance = saturating_sub deposit_balance withdrawal_amount;
       if new_deposit_balance = deposit_balance then abort st InvalidStakeAmount
       else pay_out R own st operator deposit_balance new_deposit_balance withdrawal_amount
     }
   }"

definition stake_deposit ::
  "('w, 'c, 'm, 'v) runtime \<Rightarrow> public_address \<Rightarrow> ('w, 'c, 'e) execution_state \<Rightarrow> public_address \<Rightarrow>
   u64 \<Rightarrow> (cmd_result \<times> ('w, 'c, 'e) execution_state) option" where
  "stake_deposit R own st operator max_amount = do {
     let N = rt_net R;
     (exists, st) \<leftarrow> na R (d_exists (deposits N) operator own) st;
     if \<not> exists then abort st DepositsNotExists
     else do {
       (r, st) \<leftarrow> na R (d_balance (deposits N) operator own) st;
       deposit_balance \<leftarrow> r;
       (exists, st) \<leftarrow> na R (p_exists (pools N) operator) st;
       if \<not> exists then abort st PoolNotExists
       else do {
         (r, st) \<leftarrow> na R (p_power (pools N) operator) st;
         prev_pool_power \<leftarrow> r;
         (stk, st) \<leftarrow> on_gm (stake_of_pool N (es_nas R) operator own) st;
         let to_increase = min max_amount
               (saturating_sub deposit_balance (case stk of Some p \<Rightarrow> p | None \<Rightarrow> 0));
         if to_increase = 0 then abort st InvalidStakeAmount
         else do {
           (res, st) \<leftarrow> on_gm (increase_stake_power N (es_nas R) operator prev_pool_power own stk
             to_increase True) st;
           case res of
             Inl _ \<Rightarrow> abort st InvalidStakeAmount
           | Inr _ \<Rightarrow> finish_with_amount st gm_set_amount_staked to_increase
         }
       }
     }
   }"

definition unstake_deposit ::
  "('w, 'c, 'm, 'v) runtime \<Rightarrow> public_address \<Rightarrow> ('w, 'c, 'e) execution_state \<Rightarrow> public_address \<Rightarrow>
   u64 \<Rightarrow> (cmd_result \<times> ('w, 'c, 'e) execution_state) option" where
  "unstake_deposit R own st operator max_amount = do {
     let N = rt_net R;
     (exists, st) \<leftarrow> na R (d_exists (deposits N) operator own) st;
     if \<not> exists then abort st DepositsNotExists
     else do {
       (exists, st) \<leftarrow> na R (p_exists (pools N) operator) st;
       if \<not> exists then abort st PoolNotExists
       else do {
         (r, st) \<leftarrow> na R (p_power (pools N) operator) st;
         prev_pool_power \<leftarrow> r;
         (stk, st) \<leftarrow> on_gm (stake_of_pool N (es_nas R) operator own) st;
         case stk of
           None \<Rightarrow> abort st PoolHasNoStakes
         | Some p \<Rightarrow> do {
             (amount_unstaked, st) \<leftarrow> on_gm (reduce_stake_power N (es_nas R) operator prev_pool_power
               own p max_amount) st;
             finish_with_amount st gm_set_amount_unstaked amount_unstaked
           }
       }
     }
   }"

section \<open>Frames of the helpers\<close>

context network_account_storage
begin

lemma stake_of_pool_post:
  "keeps s0 s \<Longrightarrow> post (stake_of_pool N I operator own s) (\<lambda>(r, s'). keeps s0 s')"
  unfolding stake_of_pool_def by (assumption | rule post_rules run_post | simp only: prod.case)+

lemma reduce_stake_power_post:
  "keeps s0 s \<Longrightarrow> post (reduce_stake_power N I operator pw own stk n s) (\<lambda>(r, s'). keeps s0 s')"
  unfolding reduce_stake_power_def by (assumption | rule post_rules run_post | simp only: prod.case)+

lemma increase_stake_post:
  "keeps s0 s \<Longrightarrow> post (increase_stake N I operator own stk n b s) (\<lambda>(r, s'). keeps s0 s')"
  unfolding increase_stake_def by (assumption | rule post_rules run_post | simp only: prod.case)+

lemma increase_stake_power_post:
  "keeps s0 s \<Longrightarrow> post (increase_stake_power N I operator pw own stk n b s) (\<lambda>(r, s'). keeps s0 s')"
  unfolding increase_stake_power_def
  by (assumption | rule post_rules run_post post_mono[OF increase_stake_post] | simp only: prod.case)+

lemma locked_power_post:
  "keeps s0 s \<Longrightarrow> post (locked_power_in N I vs operator own s) (\<lambda>(r, s'). keeps s0 s')"
  unfolding locked_power_in_def by (assumption | rule post_rules run_post | simp only: prod.case)+

lemma cap_stake_post:
  "keeps s0 s \<Longrightarrow> post (cap_stake N I operator own n s) (\<lambda>(r, s'). keeps s0 s')"
  unfolding cap_stake_def
  by (assumption | rule post_rules run_post post_mono[OF stake_of_pool_post]
      post_mono[OF reduce_stake_power_post] | simp only: prod.case)+

end

section \<open>The commands are atomic\<close>

lemma es_storage:
  assumes "\<And>g. post (f g) (\<lambda>(r, g'). gm_frame (rt_ws R) A C (insert (NETWORK_ADDRESS (rt_net R)) S) g g')"
    and "es_frame (rt_ws R) A C S D st0 st" "NETWORK_ADDRESS (rt_net R) \<in> S"
    and "\<And>r st'. es_frame (rt_ws R) A C S D st0 st' \<Longrightarrow> Q (r, st')"
  shows "post (on_gm f st) Q"
proof (rule on_gm_post)
  show "post (f (es_gm st)) (\<lambda>(r, g). gm_frame (rt_ws R) A C S (es_gm st) g)"
    using assms(1)[of "es_gm st"] assms(3) by (simp add: insert_absorb)
qed (rule assms)+

lemma es_na [es_rules]:
  "es_frame (rt_ws R) A C S D st0 st \<Longrightarrow> NETWORK_ADDRESS (rt_net R) \<in> S \<Longrightarrow>
   (\<And>r st'. es_frame (rt_ws R) A C S D st0 st' \<Longrightarrow> Q (r, st')) \<Longrightarrow> post (na R p st) Q"
  unfolding na_def es_nas_def
  by (rule es_storage[OF gmn.run_post]) auto

lemma es_stake_of_pool [es_rules]:
  "es_frame (rt_ws R) A C S D st0 st \<Longrightarrow> NETWORK_ADDRESS (rt_net R) \<in> S \<Longrightarrow>
   (\<And>r st'. es_frame (rt_ws R) A C S D st0 st' \<Longrightarrow> Q (r, st')) \<Longrightarrow>
   post (on_gm (stake_of_pool N (es_nas R) operator own) st) Q"
  unfolding es_nas_def by (rule es_storage[OF gmn.stake_of_pool_post[OF gm_frame_refl]])

lemma es_reduce [es_rules]:
  "es_frame (rt_ws R) A C S D st0 st \<Longrightarrow> NETWORK_ADDRESS (rt_net R) \<in> S \<Longrightarrow>
   (\<And>r st'. es_frame (rt_ws R) A C S D st0 st' \<Longrightarrow> Q (r, st')) \<Longrightarrow>
   post (on_gm (reduce_stake_power N (es_nas R) operator pw own stk n) st) Q"
  unfolding es_nas_def by (rule es_storage[OF gmn.reduce_stake_power_post[OF gm_frame_refl]])

lemma es_increase [es_rules]:
  "es_frame (rt_ws R) A C S D st0 st \<Longrightarrow> NETWORK_ADDRESS (rt_net R) \<in> S \<Longrightarrow>
   (\<And>r st'. es_frame (rt_ws R) A C S D st0 st' \<Longrightarrow> Q (r, st')) \<Longrightarrow>
   post (on_gm (increase_stake_power N (es_nas R) operator pw own stk n b) st) Q"
  unfolding es_nas_def by (rule es_storage[OF gmn.increase_stake_power_post[OF gm_frame_refl]])

lemma es_locked [es_rules]:
  "es_frame (rt_ws R) A C S D st0 st \<Longrightarrow> NETWORK_ADDRESS (rt_net R) \<in> S \<Longrightarrow>
   (\<And>r st'. es_frame (rt_ws R) A C S D st0 st' \<Longrightarrow> Q (r, st')) \<Longrightarrow>
   post (on_gm (locked_power_in N (es_nas R) vs operator own) st) Q"
  unfolding es_nas_def by (rule es_storage[OF gmn.locked_power_post[OF gm_frame_refl]])

lemma es_cap_stake [es_rules]:
  "es_frame (rt_ws R) A C S D st0 st \<Longrightarrow> NETWORK_ADDRESS (rt_net R) \<in> S \<Longrightarrow>
   (\<And>r st'. es_frame (rt_ws R) A C S D st0 st' \<Longrightarrow> Q (r, st')) \<Longrightarrow>
   post (on_gm (cap_stake N (es_nas R) operator own n) st) Q"
  unfolding es_nas_def by (rule es_storage[OF gmn.cap_stake_post[OF gm_frame_refl]])

lemmas es_helpers = es_na es_stake_of_pool es_reduce es_increase es_locked es_cap_stake

lemma finish_with_amount_post:
  assumes "es_frame W A C S D st0 st" "\<And>g. gm_frame W A C S g (set_v2 g amount)"
  shows "post (finish_with_amount st set_v2 amount) (cmd_post W A C S D st0)"
  unfolding finish_with_amount_def Let_def using assms(2)
  by (auto intro!: post_rules abort_if_gas_exhausted_post es_frame_set_gm[OF assms(1)]
      split: txn_version.split)

lemma post_unwrap: "(\<And>v. m = Some v \<Longrightarrow> Q v) \<Longrightarrow> post m Q"
  by (simp add: post_def)

lemma set_amount_frames [simp]:
  "gm_frame W A C S g (gm_set_amount_withdrawn g n)" "gm_frame W A C S g (gm_set_amount_staked g n)"
  "gm_frame W A C S g (gm_set_amount_unstaked g n)"
  by simp_all

lemma create_pool_post:
  "NETWORK_ADDRESS (rt_net R) \<in> S \<Longrightarrow>
   post (create_pool R operator st rate) (cmd_post (rt_ws R) A C S D st)"
  unfolding create_pool_def Let_def
  by (assumption | rule cmd_rules es_na | rule es_frame_refl)+

lemma set_pool_settings_post:
  "NETWORK_ADDRESS (rt_net R) \<in> S \<Longrightarrow>
   post (set_pool_settings R operator st rate) (cmd_post (rt_ws R) A C S D st)"
  unfolding set_pool_settings_def Let_def
  by (assumption | rule cmd_rules es_na | rule es_frame_refl)+

lemma delete_pool_post:
  "NETWORK_ADDRESS (rt_net R) \<in> S \<Longrightarrow>
   post (delete_pool R operator st) (cmd_post (rt_ws R) A C S D st)"
  unfolding delete_pool_def
  by (assumption | rule cmd_rules es_na | rule es_frame_refl)+

lemma create_deposit_post:
  "own \<in> A \<Longrightarrow> NETWORK_ADDRESS (rt_net R) \<in> S \<Longrightarrow>
   post (create_deposit R own st operator n auto) (cmd_post (rt_ws R) A C S D st)"
  unfolding create_deposit_def
  by (assumption | rule cmd_rules es_na | rule es_frame_refl)+

lemma set_deposit_settings_post:
  "NETWORK_ADDRESS (rt_net R) \<in> S \<Longrightarrow>
   post (set_deposit_settings R own st operator auto) (cmd_post (rt_ws R) A C S D st)"
  unfolding set_deposit_settings_def
  by (assumption | rule cmd_rules es_na | rule es_frame_refl)+

lemma topup_deposit_post:
  "own \<in> A \<Longrightarrow> NETWORK_ADDRESS (rt_net R) \<in> S \<Longrightarrow>
   post (topup_deposit R own st operator n) (cmd_post (rt_ws R) A C S D st)"
  unfolding topup_deposit_def
  by (assumption | rule cmd_rules es_na | rule es_frame_refl post_unwrap)+

lemma withdraw_deposit_post:
  "own \<in> A \<Longrightarrow> NETWORK_ADDRESS (rt_net R) \<in> S \<Longrightarrow>
   post (withdraw_deposit R own st operator n) (cmd_post (rt_ws R) A C S D st)"
  unfolding withdraw_deposit_def pay_out_def Let_def
  by (assumption | rule cmd_rules es_helpers finish_with_amount_post set_amount_frames
      | rule es_frame_refl post_unwrap)+

lemma stake_deposit_post:
  "NETWORK_ADDRESS (rt_net R) \<in> S \<Longrightarrow>
   post (stake_deposit R own st operator n) (cmd_post (rt_ws R) A C S D st)"
  unfolding stake_deposit_def Let_def
  by (assumption | rule cmd_rules es_helpers finish_with_amount_post set_amount_frames
      | rule es_frame_refl post_unwrap)+

lemma unstake_deposit_post:
  "NETWORK_ADDRESS (rt_net R) \<in> S \<Longrightarrow>
   post (unstake_deposit R own st operator n) (cmd_post (rt_ws R) A C S D st)"
  unfolding unstake_deposit_def Let_def
  by (assumption | rule cmd_rules es_helpers finish_with_amount_post set_amount_frames
      | rule es_frame_refl post_unwrap)+

interpretation create_pool_cmd: atomic_command "rt_ws R" "\<lambda>st. {}" "\<lambda>st. {}"
  "\<lambda>st. {NETWORK_ADDRESS (rt_net R)}" "\<lambda>d. False" "\<lambda>st. create_pool R operator st n"
  for R :: "('w, 'c, 'm, 'v) runtime" and own operator :: public_address and n :: u64 and auto :: bool
  by unfold_locales (rule create_pool_post; simp)

interpretation set_pool_settings_cmd: atomic_command "rt_ws R" "\<lambda>st. {}" "\<lambda>st. {}"
  "\<lambda>st. {NETWORK_ADDRESS (rt_net R)}" "\<lambda>d. False" "\<lambda>st. set_pool_settings R operator st n"
  for R :: "('w, 'c, 'm, 'v) runtime" and own operator :: public_address and n :: u64 and auto :: bool
  by unfold_locales (rule set_pool_settings_post; simp)

interpretation delete_pool_cmd: atomic_command "rt_ws R" "\<lambda>st. {}" "\<lambda>st. {}"
  "\<lambda>st. {NETWORK_ADDRESS (rt_net R)}" "\<lambda>d. False" "\<lambda>st. delete_pool R operator st"
  for R :: "('w, 'c, 'm, 'v) runtime" and own operator :: public_address and n :: u64 and auto :: bool
  by unfold_locales (rule delete_pool_post; simp)

interpretation create_deposit_cmd: atomic_command "rt_ws R" "\<lambda>st. {own}" "\<lambda>st. {}"
  "\<lambda>st. {NETWORK_ADDRESS (rt_net R)}" "\<lambda>d. False" "\<lambda>st. create_deposit R own st operator n auto"
  for R :: "('w, 'c, 'm, 'v) runtime" and own operator :: public_address and n :: u64 and auto :: bool
  by unfold_locales (rule create_deposit_post; simp)

interpretation set_deposit_settings_cmd: atomic_command "rt_ws R" "\<lambda>st. {}" "\<lambda>st. {}"
  "\<lambda>st. {NETWORK_ADDRESS (rt_net R)}" "\<lambda>d. False" "\<lambda>st. set_deposit_settings R own st operator auto"
  for R :: "('w, 'c, 'm, 'v) runtime" and own operator :: public_address and n :: u64 and auto :: bool
  by unfold_locales (rule set_deposit_settings_post; simp)

interpretation topup_deposit_cmd: atomic_command "rt_ws R" "\<lambda>st. {own}" "\<lambda>st. {}"
  "\<lambda>st. {NETWORK_ADDRESS (rt_net R)}" "\<lambda>d. False" "\<lambda>st. topup_deposit R own st operator n"
  for R :: "('w, 'c, 'm, 'v) runtime" and own operator :: public_address and n :: u64 and auto :: bool
  by unfold_locales (rule topup_deposit_post; simp)

interpretation withdraw_deposit_cmd: atomic_command "rt_ws R" "\<lambda>st. {own}" "\<lambda>st. {}"
  "\<lambda>st. {NETWORK_ADDRESS (rt_net R)}" "\<lambda>d. False" "\<lambda>st. withdraw_deposit R own st operator n"
  for R :: "('w, 'c, 'm, 'v) runtime" and own operator :: public_address and n :: u64 and auto :: bool
  by unfold_locales (rule withdraw_deposit_post; simp)

interpretation stake_deposit_cmd: atomic_command "rt_ws R" "\<lambda>st. {}" "\<lambda>st. {}"
  "\<lambda>st. {NETWORK_ADDRESS (rt_net R)}" "\<lambda>d. False" "\<lambda>st. stake_deposit R own st operator n"
  for R :: "('w, 'c, 'm, 'v) runtime" and own operator :: public_address and n :: u64 and auto :: bool
  by unfold_locales (rule stake_deposit_post; simp)

interpretation unstake_deposit_cmd: atomic_command "rt_ws R" "\<lambda>st. {}" "\<lambda>st. {}"
  "\<lambda>st. {NETWORK_ADDRESS (rt_net R)}" "\<lambda>d. False" "\<lambda>st. unstake_deposit R own st operator n"
  for R :: "('w, 'c, 'm, 'v) runtime" and own operator :: public_address and n :: u64 and auto :: bool
  by unfold_locales (rule unstake_deposit_post; simp)

lemma set_output_cache [simp]:
  "ws_cache (gm_set_return_value g v) = ws_cache g"
  "ws_cache (gm_set_amount_withdrawn g n) = ws_cache g"
  "ws_cache (gm_set_amount_staked g n) = ws_cache g"
  "ws_cache (gm_set_amount_unstaked g n) = ws_cache g"
  "ws_cache (manually_charge_gas g n) = ws_cache g"
  by (simp_all add: gm_set_defs gm_charge_def manually_charge_gas_def)

end
