(* ===== verification/Staking_Ledger.thy ===== *)
theory Staking_Ledger
  imports Staking_Commands
begin

text \<open>
  The staking ledger: what the storage of the network account means to the staking commands. The
  views of the network account belong to \<^verbatim>\<open>pchain_world_state\<close> and are a parameter of the model;
  \<open>ledger_laws\<close> states what the commands rely on, one law per method: a read answers a field of the
  ledger and a write changes that field only. The helpers of \<^verbatim>\<open>src/commands/staking.rs\<close>, which are
  generic over the storage, are then shown to do what their comments say on the ledger.
\<close>

section \<open>The ledger\<close>

text \<open>
  A pool is stored field by field, the stakes of its delegators by owner, a deposit by the pool's
  operator and by owner. A pool exists when its operator is set, a deposit when its balance is. The
  pools of the two validator sets are read through handles.
\<close>

record ledger =
  l_operator :: "public_address \<Rightarrow> public_address option"
  l_power :: "public_address \<Rightarrow> u64 option"
  l_rate :: "public_address \<Rightarrow> u8 option"
  l_operator_stake :: "public_address \<Rightarrow> stake option option"
  l_delegated :: "public_address \<Rightarrow> public_address \<Rightarrow> u64 option"
  l_deposit :: "public_address \<Rightarrow> public_address \<Rightarrow> u64 option"
  l_auto :: "public_address \<Rightarrow> public_address \<Rightarrow> bool option"
  l_nvp :: "public_address \<Rightarrow> u64 option"
  l_vp :: "public_address \<Rightarrow> pool_handle option"
  l_pvp :: "public_address \<Rightarrow> pool_handle option"
  l_vs_operator_stake :: "pool_handle \<Rightarrow> stake option option"
  l_vs_delegated :: "pool_handle \<Rightarrow> public_address \<Rightarrow> u64 option"

text \<open>One entry of a table of two keys.\<close>

definition upd2 :: "('a \<Rightarrow> 'b \<Rightarrow> 'c) \<Rightarrow> 'a \<Rightarrow> 'b \<Rightarrow> 'c \<Rightarrow> 'a \<Rightarrow> 'b \<Rightarrow> 'c" where
  "upd2 m a b c = m(a := (m a)(b := c))"

lemma upd2_apply [simp]: "upd2 m a b c x y = (if x = a \<and> y = b then c else m x y)"
  by (simp add: upd2_def)

text \<open>
  Insertion into a bounded heap of powers by owner: it may be refused, it may find room, or it may
  evict another entry that has no more power.
\<close>

fun heap_insert ::
  "(public_address \<Rightarrow> u64 option) \<Rightarrow> public_address \<Rightarrow> u64 \<Rightarrow> (unit + (public_address \<times> u64) option) \<Rightarrow>
   (public_address \<Rightarrow> u64 option) \<Rightarrow> bool" where
  "heap_insert m a n (Inl _) m' \<longleftrightarrow> m' = m"
| "heap_insert m a n (Inr None) m' \<longleftrightarrow> m' = m(a := Some n)"
| "heap_insert m a n (Inr (Some (b, k))) m' \<longleftrightarrow>
     b \<noteq> a \<and> m b = Some k \<and> k \<le> n \<and> m' = m(a := Some n, b := None)"

definition stake_entry :: "stake \<Rightarrow> public_address \<times> u64" where
  "stake_entry k = (owner k, stake_power k)"

definition pool_entry :: "pool_key \<Rightarrow> public_address \<times> u64" where
  "pool_entry k = (pk_operator k, pk_power k)"

section \<open>What the methods of the network account promise\<close>

text \<open>
  \<open>led\<close> is the ledger that a state of the storage stands for and \<open>ok\<close> says that the state is sound.
  On a sound state a read answers its field and leaves the ledger alone, a write returns and leaves
  the ledger it should, an insertion returns an outcome with its effect.
\<close>

definition answers :: "'s nas \<Rightarrow> ('s \<Rightarrow> 'l) \<Rightarrow> ('s \<Rightarrow> bool) \<Rightarrow> 'a na_prog \<Rightarrow> ('l \<Rightarrow> 'a) \<Rightarrow> bool" where
  "answers I led ok p f \<longleftrightarrow>
     (\<forall>s. ok s \<longrightarrow> (\<exists>s'. run_na I p s = Some (f (led s), s') \<and> led s' = led s \<and> ok s'))"

definition updates ::
  "'s nas \<Rightarrow> ('s \<Rightarrow> 'l) \<Rightarrow> ('s \<Rightarrow> bool) \<Rightarrow> unit na_prog \<Rightarrow> ('l \<Rightarrow> bool) \<Rightarrow> ('l \<Rightarrow> 'l) \<Rightarrow> bool"
where
  "updates I led ok p pre u \<longleftrightarrow>
     (\<forall>s. ok s \<longrightarrow> pre (led s) \<longrightarrow> (\<exists>s'. run_na I p s = Some ((), s') \<and> led s' = u (led s) \<and> ok s'))"

definition inserts ::
  "'s nas \<Rightarrow> ('s \<Rightarrow> ledger) \<Rightarrow> ('s \<Rightarrow> bool) \<Rightarrow> (unit + 'k option) na_prog \<Rightarrow> ('k \<Rightarrow> public_address \<times> u64) \<Rightarrow>
   (ledger \<Rightarrow> public_address \<Rightarrow> u64 option) \<Rightarrow> ((public_address \<Rightarrow> u64 option) \<Rightarrow> ledger \<Rightarrow> ledger) \<Rightarrow>
   public_address \<Rightarrow> u64 \<Rightarrow> bool" where
  "inserts I led ok p entry heap put a n \<longleftrightarrow>
     (\<forall>s. ok s \<longrightarrow> heap (led s) a = None \<longrightarrow>
       (\<exists>r s' m. run_na I p s = Some (r, s') \<and> heap_insert (heap (led s)) a n (map_sum id (map_option entry) r) m \<and>
          led s' = put m (led s) \<and> ok s'))"

abbreviation any :: "'l \<Rightarrow> bool" where
  "any \<equiv> \<lambda>L. True"

definition pool_laws :: "network_account \<Rightarrow> 's nas \<Rightarrow> ('s \<Rightarrow> ledger) \<Rightarrow> ('s \<Rightarrow> bool) \<Rightarrow> bool" where
  "pool_laws N I led ok \<longleftrightarrow> (\<forall>op.
     answers I led ok (p_exists (pools N) op) (\<lambda>L. l_operator L op \<noteq> None) \<and>
     answers I led ok (p_power (pools N) op) (\<lambda>L. l_power L op) \<and>
     answers I led ok (p_commission_rate (pools N) op) (\<lambda>L. l_rate L op) \<and>
     answers I led ok (p_operator_stake (pools N) op) (\<lambda>L. l_operator_stake L op) \<and>
     (\<forall>a. updates I led ok (p_set_operator (pools N) op a) any
        (\<lambda>L. L\<lparr>l_operator := (l_operator L)(op := Some a)\<rparr>)) \<and>
     (\<forall>n. updates I led ok (p_set_power (pools N) op n) any (\<lambda>L. L\<lparr>l_power := (l_power L)(op := Some n)\<rparr>)) \<and>
     (\<forall>n. updates I led ok (p_set_commission_rate (pools N) op n) any
        (\<lambda>L. L\<lparr>l_rate := (l_rate L)(op := Some n)\<rparr>)) \<and>
     (\<forall>k. updates I led ok (p_set_operator_stake (pools N) op k) any
        (\<lambda>L. L\<lparr>l_operator_stake := (l_operator_stake L)(op := Some k)\<rparr>)) \<and>
     updates I led ok (p_delete (pools N) op) any
        (\<lambda>L. L\<lparr>l_operator := (l_operator L)(op := None), l_power := (l_power L)(op := None),
               l_rate := (l_rate L)(op := None), l_operator_stake := (l_operator_stake L)(op := None),
               l_delegated := (l_delegated L)(op := (\<lambda>_. None))\<rparr>))"

definition delegation_laws :: "network_account \<Rightarrow> 's nas \<Rightarrow> ('s \<Rightarrow> ledger) \<Rightarrow> ('s \<Rightarrow> bool) \<Rightarrow> bool" where
  "delegation_laws N I led ok \<longleftrightarrow> (\<forall>op a.
     answers I led ok (ds_get_by (pools N) op a)
       (\<lambda>L. map_option (\<lambda>n. \<lparr>owner = a, stake_power = n\<rparr>) (l_delegated L op a)) \<and>
     (\<forall>n. updates I led ok (ds_change_key (pools N) op \<lparr>owner = a, stake_power = n\<rparr>)
        (\<lambda>L. l_delegated L op a \<noteq> None) (\<lambda>L. L\<lparr>l_delegated := upd2 (l_delegated L) op a (Some n)\<rparr>)) \<and>
     updates I led ok (ds_remove_item (pools N) op a) any
       (\<lambda>L. L\<lparr>l_delegated := upd2 (l_delegated L) op a None\<rparr>) \<and>
     (\<forall>n. inserts I led ok (ds_insert_extract (pools N) op \<lparr>owner = a, stake_power = n\<rparr>) stake_entry
        (\<lambda>L. l_delegated L op) (\<lambda>m L. L\<lparr>l_delegated := (l_delegated L)(op := m)\<rparr>) a n))"

definition deposit_laws :: "network_account \<Rightarrow> 's nas \<Rightarrow> ('s \<Rightarrow> ledger) \<Rightarrow> ('s \<Rightarrow> bool) \<Rightarrow> bool" where
  "deposit_laws N I led ok \<longleftrightarrow> (\<forall>op a.
     answers I led ok (d_exists (deposits N) op a) (\<lambda>L. l_deposit L op a \<noteq> None) \<and>
     answers I led ok (d_balance (deposits N) op a) (\<lambda>L. l_deposit L op a) \<and>
     answers I led ok (d_auto_stake_rewards (deposits N) op a) (\<lambda>L. l_auto L op a) \<and>
     (\<forall>n. updates I led ok (d_set_balance (deposits N) op a n) any
        (\<lambda>L. L\<lparr>l_deposit := upd2 (l_deposit L) op a (Some n)\<rparr>)) \<and>
     (\<forall>b. updates I led ok (d_set_auto_stake_rewards (deposits N) op a b) any
        (\<lambda>L. L\<lparr>l_auto := upd2 (l_auto L) op a (Some b)\<rparr>)) \<and>
     updates I led ok (d_delete (deposits N) op a) any
        (\<lambda>L. L\<lparr>l_deposit := upd2 (l_deposit L) op a None, l_auto := upd2 (l_auto L) op a None\<rparr>))"

definition nvp_laws :: "network_account \<Rightarrow> 's nas \<Rightarrow> ('s \<Rightarrow> ledger) \<Rightarrow> ('s \<Rightarrow> bool) \<Rightarrow> bool" where
  "nvp_laws N I led ok \<longleftrightarrow> (\<forall>op.
     answers I led ok (nvp_get_by (nvp N) op)
       (\<lambda>L. map_option (\<lambda>n. \<lparr>pk_operator = op, pk_power = n\<rparr>) (l_nvp L op)) \<and>
     (\<forall>n. updates I led ok (nvp_change_key (nvp N) \<lparr>pk_operator = op, pk_power = n\<rparr>)
        (\<lambda>L. l_nvp L op \<noteq> None) (\<lambda>L. L\<lparr>l_nvp := (l_nvp L)(op := Some n)\<rparr>)) \<and>
     updates I led ok (nvp_remove_item (nvp N) op) any (\<lambda>L. L\<lparr>l_nvp := (l_nvp L)(op := None)\<rparr>) \<and>
     (\<forall>n. inserts I led ok (nvp_insert_extract (nvp N) \<lparr>pk_operator = op, pk_power = n\<rparr>) pool_entry
        l_nvp (\<lambda>m L. L\<lparr>l_nvp := m\<rparr>) op n))"

definition validator_laws :: "network_account \<Rightarrow> 's nas \<Rightarrow> ('s \<Rightarrow> ledger) \<Rightarrow> ('s \<Rightarrow> bool) \<Rightarrow> bool" where
  "validator_laws N I led ok \<longleftrightarrow>
     (\<forall>op. answers I led ok (vs_pool (vp N) op) (\<lambda>L. l_vp L op) \<and>
           answers I led ok (vs_pool (pvp N) op) (\<lambda>L. l_pvp L op)) \<and>
     (\<forall>h. answers I led ok (p_operator_stake (vs_pools N) h) (\<lambda>L. l_vs_operator_stake L h) \<and>
       (\<forall>a. answers I led ok (ds_get_by (vs_pools N) h a)
          (\<lambda>L. map_option (\<lambda>n. \<lparr>owner = a, stake_power = n\<rparr>) (l_vs_delegated L h a))))"

definition ledger_laws :: "network_account \<Rightarrow> 's nas \<Rightarrow> ('s \<Rightarrow> ledger) \<Rightarrow> ('s \<Rightarrow> bool) \<Rightarrow> bool" where
  "ledger_laws N I led ok \<longleftrightarrow> pool_laws N I led ok \<and> delegation_laws N I led ok \<and> deposit_laws N I led ok \<and>
     nvp_laws N I led ok \<and> validator_laws N I led ok"

text \<open>The laws that raising a stake relies on, a part of the whole.\<close>

definition raise_laws :: "network_account \<Rightarrow> 's nas \<Rightarrow> ('s \<Rightarrow> ledger) \<Rightarrow> ('s \<Rightarrow> bool) \<Rightarrow> bool" where
  "raise_laws N I led ok \<longleftrightarrow> (\<forall>op a n k.
     answers I led ok (p_exists (pools N) op) (\<lambda>L. l_operator L op \<noteq> None) \<and>
     answers I led ok (p_power (pools N) op) (\<lambda>L. l_power L op) \<and>
     answers I led ok (p_operator_stake (pools N) op) (\<lambda>L. l_operator_stake L op) \<and>
     answers I led ok (ds_get_by (pools N) op a)
       (\<lambda>L. map_option (\<lambda>n. \<lparr>owner = a, stake_power = n\<rparr>) (l_delegated L op a)) \<and>
     answers I led ok (nvp_get_by (nvp N) op)
       (\<lambda>L. map_option (\<lambda>n. \<lparr>pk_operator = op, pk_power = n\<rparr>) (l_nvp L op)) \<and>
     updates I led ok (p_set_power (pools N) op n) any (\<lambda>L. L\<lparr>l_power := (l_power L)(op := Some n)\<rparr>) \<and>
     updates I led ok (p_set_operator_stake (pools N) op k) any
       (\<lambda>L. L\<lparr>l_operator_stake := (l_operator_stake L)(op := Some k)\<rparr>) \<and>
     updates I led ok (ds_change_key (pools N) op \<lparr>owner = a, stake_power = n\<rparr>)
       (\<lambda>L. l_delegated L op a \<noteq> None) (\<lambda>L. L\<lparr>l_delegated := upd2 (l_delegated L) op a (Some n)\<rparr>) \<and>
     updates I led ok (nvp_change_key (nvp N) \<lparr>pk_operator = op, pk_power = n\<rparr>)
       (\<lambda>L. l_nvp L op \<noteq> None) (\<lambda>L. L\<lparr>l_nvp := (l_nvp L)(op := Some n)\<rparr>) \<and>
     inserts I led ok (ds_insert_extract (pools N) op \<lparr>owner = a, stake_power = n\<rparr>) stake_entry
       (\<lambda>L. l_delegated L op) (\<lambda>m L. L\<lparr>l_delegated := (l_delegated L)(op := m)\<rparr>) a n \<and>
     inserts I led ok (nvp_insert_extract (nvp N) \<lparr>pk_operator = op, pk_power = n\<rparr>) pool_entry
       l_nvp (\<lambda>m L. L\<lparr>l_nvp := m\<rparr>) op n)"

lemmas ledger_law_defs = ledger_laws_def pool_laws_def delegation_laws_def deposit_laws_def nvp_laws_def
  validator_laws_def

section \<open>Running code on a ledger\<close>

text \<open>A computation that returns, with a result and a state in \<open>Q\<close>.\<close>

definition runs :: "('a \<times> 's) option \<Rightarrow> ('a \<Rightarrow> 's \<Rightarrow> bool) \<Rightarrow> bool" where
  "runs m Q \<longleftrightarrow> (\<exists>r s. m = Some (r, s) \<and> Q r s)"

text \<open>A sound state that stands for the ledger \<open>L\<close>.\<close>

definition at_ledger :: "('s \<Rightarrow> 'l) \<Rightarrow> ('s \<Rightarrow> bool) \<Rightarrow> 'l \<Rightarrow> 's \<Rightarrow> bool" where
  "at_ledger led ok L s \<longleftrightarrow> ok s \<and> led s = L"

lemma runs_return: "Q r s \<Longrightarrow> runs (Some (r, s)) Q"
  by (simp add: runs_def)

lemma runs_mono: "runs m P \<Longrightarrow> (\<And>r s. P r s \<Longrightarrow> Q r s) \<Longrightarrow> runs m Q"
  by (auto simp: runs_def)

lemma runs_bind: "runs m P \<Longrightarrow> (\<And>r s. P r s \<Longrightarrow> runs (f (r, s)) Q) \<Longrightarrow> runs (m \<bind> f) Q"
  by (auto simp: runs_def)

lemma runs_if: "(b \<Longrightarrow> runs x Q) \<Longrightarrow> (\<not> b \<Longrightarrow> runs y Q) \<Longrightarrow> runs (if b then x else y) Q"
  by simp

lemma runs_option:
  "(x = None \<Longrightarrow> runs n Q) \<Longrightarrow> (\<And>v. x = Some v \<Longrightarrow> runs (c v) Q) \<Longrightarrow>
   runs (case x of None \<Rightarrow> n | Some v \<Rightarrow> c v) Q"
  by (cases x) simp_all

lemma answers_runs:
  assumes "answers I led ok p f" "at_ledger led ok L s"
  shows "runs (run_na I p s) (\<lambda>r s'. r = f L \<and> at_ledger led ok L s')"
  using assms by (auto simp: answers_def runs_def at_ledger_def)

lemma updates_runs:
  assumes "updates I led ok p pre u" "at_ledger led ok L s" "pre L"
  shows "runs (run_na I p s) (\<lambda>r s'. at_ledger led ok (u L) s')"
  using assms by (force simp: updates_def runs_def at_ledger_def)

lemma inserts_runs:
  assumes "inserts I led ok p entry heap put a n" "at_ledger led ok L s" "heap L a = None"
  shows "runs (run_na I p s) (\<lambda>r s'. \<exists>m. heap_insert (heap L) a n (map_sum id (map_option entry) r) m \<and>
    at_ledger led ok (put m L) s')"
  using assms unfolding inserts_def runs_def at_ledger_def by blast

text \<open>One step of a computation that continues with \<open>c\<close>.\<close>

lemma answers_bind:
  "answers I led ok p f \<Longrightarrow> at_ledger led ok L s \<Longrightarrow>
   (\<And>s'. at_ledger led ok L s' \<Longrightarrow> runs (c (f L, s')) Q) \<Longrightarrow> runs (run_na I p s \<bind> c) Q"
  by (rule runs_bind[OF answers_runs]) auto

lemma updates_bind:
  "updates I led ok p pre u \<Longrightarrow> at_ledger led ok L s \<Longrightarrow> pre L \<Longrightarrow>
   (\<And>x s'. at_ledger led ok (u L) s' \<Longrightarrow> runs (c (x, s')) Q) \<Longrightarrow> runs (run_na I p s \<bind> c) Q"
  by (erule (2) runs_bind[OF updates_runs]) simp

lemma inserts_bind:
  "inserts I led ok p entry heap put a n \<Longrightarrow> at_ledger led ok L s \<Longrightarrow> heap L a = None \<Longrightarrow>
   (\<And>r m s'. heap_insert (heap L) a n (map_sum id (map_option entry) r) m \<Longrightarrow>
      at_ledger led ok (put m L) s' \<Longrightarrow> runs (c (r, s')) Q) \<Longrightarrow>
   runs (run_na I p s \<bind> c) Q"
  by (erule (2) runs_bind[OF inserts_runs]) auto

lemma ledger_answers:
  assumes "ledger_laws N I led ok"
  shows "answers I led ok (p_exists (pools N) op) (\<lambda>L. l_operator L op \<noteq> None)"
    "answers I led ok (p_power (pools N) op) (\<lambda>L. l_power L op)"
    "answers I led ok (p_commission_rate (pools N) op) (\<lambda>L. l_rate L op)"
    "answers I led ok (p_operator_stake (pools N) op) (\<lambda>L. l_operator_stake L op)"
    "answers I led ok (ds_get_by (pools N) op a)
       (\<lambda>L. map_option (\<lambda>n. \<lparr>owner = a, stake_power = n\<rparr>) (l_delegated L op a))"
    "answers I led ok (d_exists (deposits N) op a) (\<lambda>L. l_deposit L op a \<noteq> None)"
    "answers I led ok (d_balance (deposits N) op a) (\<lambda>L. l_deposit L op a)"
    "answers I led ok (d_auto_stake_rewards (deposits N) op a) (\<lambda>L. l_auto L op a)"
    "answers I led ok (nvp_get_by (nvp N) op)
       (\<lambda>L. map_option (\<lambda>n. \<lparr>pk_operator = op, pk_power = n\<rparr>) (l_nvp L op))"
    "answers I led ok (vs_pool (vp N) op) (\<lambda>L. l_vp L op)"
    "answers I led ok (vs_pool (pvp N) op) (\<lambda>L. l_pvp L op)"
    "answers I led ok (p_operator_stake (vs_pools N) h) (\<lambda>L. l_vs_operator_stake L h)"
    "answers I led ok (ds_get_by (vs_pools N) h a)
       (\<lambda>L. map_option (\<lambda>n. \<lparr>owner = a, stake_power = n\<rparr>) (l_vs_delegated L h a))"
  using assms by (simp_all add: ledger_law_defs)

lemma ledger_updates:
  assumes "ledger_laws N I led ok"
  shows "updates I led ok (p_set_operator (pools N) op a) any
       (\<lambda>L. L\<lparr>l_operator := (l_operator L)(op := Some a)\<rparr>)"
    "updates I led ok (p_set_power (pools N) op n) any (\<lambda>L. L\<lparr>l_power := (l_power L)(op := Some n)\<rparr>)"
    "updates I led ok (p_set_commission_rate (pools N) op n) any (\<lambda>L. L\<lparr>l_rate := (l_rate L)(op := Some n)\<rparr>)"
    "updates I led ok (p_set_operator_stake (pools N) op k) any
       (\<lambda>L. L\<lparr>l_operator_stake := (l_operator_stake L)(op := Some k)\<rparr>)"
    "updates I led ok (p_delete (pools N) op) any
       (\<lambda>L. L\<lparr>l_operator := (l_operator L)(op := None), l_power := (l_power L)(op := None),
              l_rate := (l_rate L)(op := None), l_operator_stake := (l_operator_stake L)(op := None),
              l_delegated := (l_delegated L)(op := (\<lambda>_. None))\<rparr>)"
    "updates I led ok (ds_change_key (pools N) op \<lparr>owner = a, stake_power = n\<rparr>)
       (\<lambda>L. l_delegated L op a \<noteq> None) (\<lambda>L. L\<lparr>l_delegated := upd2 (l_delegated L) op a (Some n)\<rparr>)"
    "updates I led ok (ds_remove_item (pools N) op a) any
       (\<lambda>L. L\<lparr>l_delegated := upd2 (l_delegated L) op a None\<rparr>)"
    "updates I led ok (d_set_balance (deposits N) op a n) any
       (\<lambda>L. L\<lparr>l_deposit := upd2 (l_deposit L) op a (Some n)\<rparr>)"
    "updates I led ok (d_set_auto_stake_rewards (deposits N) op a b) any
       (\<lambda>L. L\<lparr>l_auto := upd2 (l_auto L) op a (Some b)\<rparr>)"
    "updates I led ok (d_delete (deposits N) op a) any
       (\<lambda>L. L\<lparr>l_deposit := upd2 (l_deposit L) op a None, l_auto := upd2 (l_auto L) op a None\<rparr>)"
    "updates I led ok (nvp_change_key (nvp N) \<lparr>pk_operator = op, pk_power = n\<rparr>)
       (\<lambda>L. l_nvp L op \<noteq> None) (\<lambda>L. L\<lparr>l_nvp := (l_nvp L)(op := Some n)\<rparr>)"
    "updates I led ok (nvp_remove_item (nvp N) op) any (\<lambda>L. L\<lparr>l_nvp := (l_nvp L)(op := None)\<rparr>)"
  using assms by (simp_all add: ledger_law_defs)

lemma ledger_inserts:
  assumes "ledger_laws N I led ok"
  shows "inserts I led ok (ds_insert_extract (pools N) op \<lparr>owner = a, stake_power = n\<rparr>) stake_entry
       (\<lambda>L. l_delegated L op) (\<lambda>m L. L\<lparr>l_delegated := (l_delegated L)(op := m)\<rparr>) a n"
    "inserts I led ok (nvp_insert_extract (nvp N) \<lparr>pk_operator = op, pk_power = n\<rparr>) pool_entry
       l_nvp (\<lambda>m L. L\<lparr>l_nvp := m\<rparr>) op n"
  using assms by (simp_all add: ledger_law_defs)

lemma ledger_raise: "ledger_laws N I led ok \<Longrightarrow> raise_laws N I led ok"
  unfolding raise_laws_def by (intro allI conjI; erule ledger_answers ledger_updates ledger_inserts)

lemma raise_answers:
  assumes "raise_laws N I led ok"
  shows "answers I led ok (p_exists (pools N) op) (\<lambda>L. l_operator L op \<noteq> None)"
    "answers I led ok (p_power (pools N) op) (\<lambda>L. l_power L op)"
    "answers I led ok (p_operator_stake (pools N) op) (\<lambda>L. l_operator_stake L op)"
    "answers I led ok (ds_get_by (pools N) op a)
       (\<lambda>L. map_option (\<lambda>n. \<lparr>owner = a, stake_power = n\<rparr>) (l_delegated L op a))"
    "answers I led ok (nvp_get_by (nvp N) op)
       (\<lambda>L. map_option (\<lambda>n. \<lparr>pk_operator = op, pk_power = n\<rparr>) (l_nvp L op))"
  using assms unfolding raise_laws_def by blast+

lemma raise_updates:
  assumes "raise_laws N I led ok"
  shows "updates I led ok (p_set_power (pools N) op n) any (\<lambda>L. L\<lparr>l_power := (l_power L)(op := Some n)\<rparr>)"
    "updates I led ok (p_set_operator_stake (pools N) op k) any
       (\<lambda>L. L\<lparr>l_operator_stake := (l_operator_stake L)(op := Some k)\<rparr>)"
    "updates I led ok (ds_change_key (pools N) op \<lparr>owner = a, stake_power = n\<rparr>)
       (\<lambda>L. l_delegated L op a \<noteq> None) (\<lambda>L. L\<lparr>l_delegated := upd2 (l_delegated L) op a (Some n)\<rparr>)"
    "updates I led ok (nvp_change_key (nvp N) \<lparr>pk_operator = op, pk_power = n\<rparr>)
       (\<lambda>L. l_nvp L op \<noteq> None) (\<lambda>L. L\<lparr>l_nvp := (l_nvp L)(op := Some n)\<rparr>)"
  using assms unfolding raise_laws_def by blast+

lemma raise_inserts:
  assumes "raise_laws N I led ok"
  shows "inserts I led ok (ds_insert_extract (pools N) op \<lparr>owner = a, stake_power = n\<rparr>) stake_entry
       (\<lambda>L. l_delegated L op) (\<lambda>m L. L\<lparr>l_delegated := (l_delegated L)(op := m)\<rparr>) a n"
    "inserts I led ok (nvp_insert_extract (nvp N) \<lparr>pk_operator = op, pk_power = n\<rparr>) pool_entry
       l_nvp (\<lambda>m L. L\<lparr>l_nvp := m\<rparr>) op n"
  using assms unfolding raise_laws_def by blast+

section \<open>The helpers on the ledger\<close>

text \<open>The power that an account has staked in a pool, and the power a validator set locks of it.\<close>

definition stake_in :: "ledger \<Rightarrow> public_address \<Rightarrow> public_address \<Rightarrow> u64 option" where
  "stake_in L op own =
     (if op = own then (case l_operator_stake L op of Some (Some k) \<Rightarrow> Some (stake_power k) | _ \<Rightarrow> None)
      else l_delegated L op own)"

definition locked_in ::
  "(ledger \<Rightarrow> public_address \<Rightarrow> pool_handle option) \<Rightarrow> ledger \<Rightarrow> public_address \<Rightarrow> public_address \<Rightarrow> u64" where
  "locked_in vset L op own = (case vset L op of None \<Rightarrow> 0 | Some h \<Rightarrow>
     if op = own then (case l_vs_operator_stake L h of Some (Some k) \<Rightarrow> stake_power k | _ \<Rightarrow> 0)
     else (case l_vs_delegated L h own of Some n \<Rightarrow> n | None \<Rightarrow> 0))"

text \<open>A stake of no power is not kept.\<close>

definition set_stake :: "public_address \<Rightarrow> public_address \<Rightarrow> u64 \<Rightarrow> ledger \<Rightarrow> ledger" where
  "set_stake op own n L =
     (if op = own then L\<lparr>l_operator_stake := (l_operator_stake L)
        (op := Some (if n = 0 then None else Some \<lparr>owner = own, stake_power = n\<rparr>))\<rparr>
      else L\<lparr>l_delegated := upd2 (l_delegated L) op own (if n = 0 then None else Some n)\<rparr>)"

text \<open>A stake that rises is kept whatever its power.\<close>

definition put_stake :: "public_address \<Rightarrow> public_address \<Rightarrow> u64 \<Rightarrow> ledger \<Rightarrow> ledger" where
  "put_stake op own n L =
     (if op = own then L\<lparr>l_operator_stake := (l_operator_stake L)(op := Some (Some \<lparr>owner = own, stake_power = n\<rparr>))\<rparr>
      else L\<lparr>l_delegated := upd2 (l_delegated L) op own (Some n)\<rparr>)"

definition set_pool_power :: "public_address \<Rightarrow> u64 \<Rightarrow> (public_address \<Rightarrow> u64 option) \<Rightarrow> ledger \<Rightarrow> ledger" where
  "set_pool_power op pw m L = L\<lparr>l_power := (l_power L)(op := Some pw), l_nvp := m\<rparr>"

text \<open>
  The place of a pool in the next validator set after its power fell or rose: a pool without power
  leaves the set, a pool outside tries to enter it.
\<close>

definition power_fell ::
  "public_address \<Rightarrow> u64 \<Rightarrow> (public_address \<Rightarrow> u64 option) \<Rightarrow> (public_address \<Rightarrow> u64 option) \<Rightarrow> bool" where
  "power_fell op pw m m' \<longleftrightarrow>
     (if pw = 0 then m' = m(op := None)
      else if m op \<noteq> None then m' = m(op := Some pw) else (\<exists>r. heap_insert m op pw r m'))"

definition power_rose ::
  "public_address \<Rightarrow> u64 \<Rightarrow> (public_address \<Rightarrow> u64 option) \<Rightarrow> (public_address \<Rightarrow> u64 option) \<Rightarrow> bool" where
  "power_rose op pw m m' \<longleftrightarrow>
     (if m op \<noteq> None then m' = m(op := Some pw) else (\<exists>r. heap_insert m op pw r m'))"

lemma stake_of_pool_runs:
  assumes "raise_laws N I led ok" "at_ledger led ok L s"
  shows "runs (stake_of_pool N I op own s) (\<lambda>r s'. r = stake_in L op own \<and> at_ledger led ok L s')"
  unfolding stake_of_pool_def using assms(2)
  by (auto simp: stake_in_def option.map_comp o_def map_option.identity split: option.split
      intro!: raise_answers[OF assms(1), THEN answers_bind] runs_return)

lemma locked_power_runs:
  assumes "ledger_laws N I led ok" "at_ledger led ok L s"
    and "\<And>op. answers I led ok (vs_pool vs op) (\<lambda>L. vset L op)"
  shows "runs (locked_power_in N I vs op own s) (\<lambda>r s'. r = locked_in vset L op own \<and> at_ledger led ok L s')"
  unfolding locked_power_in_def using assms(2)
  by (auto simp: locked_in_def split: option.split
      intro!: ledger_answers[OF assms(1), THEN answers_bind] assms(3)[THEN answers_bind]
        runs_return runs_option runs_if)

text \<open>
  What \<^verbatim>\<open>increase_stake_power\<close> does to the stakes of a pool, and the power the pool is to gain: an
  account that has a stake adds to it, another one enters the pool's heap of delegated stakes and
  may push out a smaller stake.
\<close>

definition stake_rose ::
  "bool \<Rightarrow> public_address \<Rightarrow> public_address \<Rightarrow> u64 \<Rightarrow> unit + u64 \<Rightarrow> ledger \<Rightarrow> ledger \<Rightarrow> bool" where
  "stake_rose exit_on_fail op own n r L L' \<longleftrightarrow>
     (if op = own \<or> stake_in L op own \<noteq> None
      then r = Inr n \<and> L' = put_stake op own (saturating_add (case_option 0 id (stake_in L op own)) n) L
      else (\<exists>h m. heap_insert (l_delegated L op) own n h m \<and>
        L' = L\<lparr>l_delegated := (l_delegated L)(op := m)\<rparr> \<and>
        r = (case h of Inl _ \<Rightarrow> if exit_on_fail then Inl () else Inr n
             | Inr None \<Rightarrow> Inr n | Inr (Some (b, k)) \<Rightarrow> Inr (n - k))))"

lemma stake_in_delegated: "op \<noteq> own \<Longrightarrow> stake_in L op own = l_delegated L op own"
  by (simp add: stake_in_def)

lemma runs_bind_if:
  "(b \<Longrightarrow> runs (x \<bind> f) Q) \<Longrightarrow> (\<not> b \<Longrightarrow> runs (y \<bind> f) Q) \<Longrightarrow> runs ((if b then x else y) \<bind> f) Q"
  by simp

lemma runs_map_option:
  "(x = None \<Longrightarrow> runs n Q) \<Longrightarrow> (\<And>v. x = Some v \<Longrightarrow> runs (c (g v)) Q) \<Longrightarrow>
   runs (case map_option g x of None \<Rightarrow> n | Some v \<Rightarrow> c v) Q"
  by (cases x) simp_all

lemmas runs_rules = runs_return runs_if runs_bind_if

text \<open>Both helpers end by updating the next validator set.\<close>

lemma nvp_fell_runs:
  assumes laws: "ledger_laws N I led ok" and at: "at_ledger led ok L s"
  shows "runs (run_na I (nvp_get_by (nvp N) op) s \<bind> (\<lambda>(pool_key, s). case pool_key of
      Some k \<Rightarrow> (if pw = 0 then run_na I (nvp_remove_item (nvp N) op) s
                 else run_na I (nvp_change_key (nvp N) (k\<lparr>pk_power := pw\<rparr>)) s) \<bind> (\<lambda>(_, s). Some (x, s))
    | None \<Rightarrow> if 0 < pw then run_na I (nvp_insert_extract (nvp N) \<lparr>pk_operator = op, pk_power = pw\<rparr>) s \<bind>
                 (\<lambda>(_, s). Some (x, s)) else Some (x, s)))
    (\<lambda>r s'. r = x \<and> (\<exists>m. at_ledger led ok (L\<lparr>l_nvp := m\<rparr>) s' \<and> power_fell op pw (l_nvp L) m))"
proof (rule answers_bind[OF ledger_answers(9)[OF laws] at], unfold prod.case, rule runs_map_option, goal_cases)
  case (1 s')
  then have "power_fell op 0 (l_nvp L) (l_nvp L)"
    by (auto simp: power_fell_def)
  then have stay: "pw = 0 \<Longrightarrow> \<exists>m. at_ledger led ok (L\<lparr>l_nvp := m\<rparr>) s' \<and> power_fell op pw (l_nvp L) m"
    using 1(1) by (intro exI[of _ "l_nvp L"]) simp
  show ?case
    using 1 stay
    by - (assumption | rule runs_if ledger_inserts(2)[OF laws, THEN inserts_bind]
       | (rule runs_return, auto simp: power_fell_def; fail) | simp only: prod.case)+
next
  case (2 s' v)
  then show ?case
    by - (assumption | rule TrueI runs_bind_if ledger_updates[OF laws, THEN updates_bind]
       | (simp; fail) | simp only: prod.case pool_key.simps
       | (rule runs_return conjI refl exI)+, assumption, (simp add: power_fell_def; fail))+
qed

lemma nvp_rose_runs:
  assumes laws: "raise_laws N I led ok" and at: "at_ledger led ok L s"
  shows "runs (run_na I (nvp_get_by (nvp N) op) s \<bind> (\<lambda>(pool_key, s). case pool_key of
      Some k \<Rightarrow> run_na I (nvp_change_key (nvp N) (k\<lparr>pk_power := pw\<rparr>)) s \<bind> (\<lambda>(_, s). Some (x, s))
    | None \<Rightarrow> run_na I (nvp_insert_extract (nvp N) \<lparr>pk_operator = op, pk_power = pw\<rparr>) s \<bind>
                 (\<lambda>(_, s). Some (x, s))))
    (\<lambda>r s'. r = x \<and> (\<exists>m. at_ledger led ok (L\<lparr>l_nvp := m\<rparr>) s' \<and> power_rose op pw (l_nvp L) m))"
proof (rule answers_bind[OF raise_answers(5)[OF laws] at], unfold prod.case, rule runs_map_option, goal_cases)
  case (1 s')
  show ?case
    using 1
    by - (assumption | rule raise_inserts(2)[OF laws, THEN inserts_bind]
       | (rule runs_return, auto simp: power_rose_def; fail) | simp only: prod.case)+
next
  case (2 s' v)
  then show ?case
    by - (assumption | rule raise_updates[OF laws, THEN updates_bind]
       | (simp; fail) | simp only: prod.case pool_key.simps
       | (rule runs_return conjI refl exI)+, assumption, (simp add: power_rose_def; fail))+
qed

lemma reduce_stake_runs:
  assumes laws: "ledger_laws N I led ok" and at: "at_ledger led ok L s"
    and stk: "stake_in L op own = Some stk"
  shows "runs (reduce_stake_power N I op pw own stk n s) (\<lambda>r s'. r = min stk n \<and>
    (\<exists>m. power_fell op (pw - min stk n) (l_nvp L) m \<and>
      at_ledger led ok (set_pool_power op (pw - min stk n) m (set_stake op own (stk - n) L)) s'))"
  unfolding reduce_stake_power_def
proof (rule runs_bind[where P = "\<lambda>r s'. r = min stk n \<and> at_ledger led ok (set_stake op own (stk - n) L) s'"],
    goal_cases)
  case 1
  have "op \<noteq> own \<Longrightarrow> l_delegated L op own \<noteq> None"
    using stk by (simp add: stake_in_def)
  then show ?case
    using at unfolding Let_def
    by - (assumption | rule TrueI runs_rules ledger_updates[OF laws, THEN updates_bind]
       | simp only: prod.case | (simp add: set_stake_def del: upd2_apply; fail))+
next
  case (2 r s1)
  then have "runs (run_na I (p_set_power (pools N) op (pw - min stk n)) s1)
    (\<lambda>_. at_ledger led ok ((set_stake op own (stk - n) L)\<lparr>l_power := (l_power (set_stake op own (stk - n) L))
      (op := Some (pw - min stk n))\<rparr>))"
    by (intro updates_runs[OF ledger_updates(2)[OF laws]]) simp_all
  then show ?case
    using 2 unfolding Let_def prod.case saturating_sub_def
    by - (elim conjE, hypsubst, erule runs_bind, unfold prod.case, erule runs_mono[OF nvp_fell_runs[OF laws]],
      auto simp: set_pool_power_def set_stake_def)
qed

lemma increase_stake_runs:
  assumes laws: "raise_laws N I led ok" and at: "at_ledger led ok L s"
  shows "runs (increase_stake N I op own (stake_in L op own) n b s)
    (\<lambda>r s'. \<exists>L'. at_ledger led ok L' s' \<and> stake_rose b op own n r L L')"
proof (cases "op = own \<or> stake_in L op own \<noteq> None")
  case True
  then have "runs (increase_stake N I op own (stake_in L op own) n b s)
    (\<lambda>r s'. r = Inr n \<and> at_ledger led ok
      (put_stake op own (saturating_add (case_option 0 id (stake_in L op own)) n) L) s')"
    unfolding increase_stake_def Let_def using at
    by (cases "stake_in L op own"; cases "op = own")
       (auto simp: put_stake_def stake_in_delegated simp del: upd2_apply
        intro!: raise_updates[OF laws, THEN updates_bind] runs_return)
  then show ?thesis
    by (rule runs_mono) (use True in \<open>auto simp: stake_rose_def\<close>)
next
  case False
  then have "l_delegated L op own = None"
    by (auto simp: stake_in_delegated)
  with at have "runs (run_na I (ds_insert_extract (pools N) op \<lparr>owner = own, stake_power = n\<rparr>) s)
    (\<lambda>h s'. \<exists>m. heap_insert (l_delegated L op) own n (map_sum id (map_option stake_entry) h) m \<and>
      at_ledger led ok (L\<lparr>l_delegated := (l_delegated L)(op := m)\<rparr>) s')"
    by (rule inserts_runs[OF raise_inserts(1)[OF laws]])
  then obtain h s1 m where run: "run_na I (ds_insert_extract (pools N) op \<lparr>owner = own, stake_power = n\<rparr>) s =
      Some (h, s1)" and ins: "heap_insert (l_delegated L op) own n (map_sum id (map_option stake_entry) h) m"
      and at1: "at_ledger led ok (L\<lparr>l_delegated := (l_delegated L)(op := m)\<rparr>) s1"
    by (auto simp: runs_def)
  define r where "r = (case h of Inl _ \<Rightarrow> if b then Inl () else Inr n | Inr None \<Rightarrow> Inr n
    | Inr (Some k) \<Rightarrow> Inr (n - stake_power k))"
  have "increase_stake N I op own (stake_in L op own) n b s = Some (r, s1)"
    using False run by (simp add: increase_stake_def saturating_sub_def r_def split: sum.split option.split)
  moreover have "stake_rose b op own n r L (L\<lparr>l_delegated := (l_delegated L)(op := m)\<rparr>)"
    using ins unfolding stake_rose_def r_def if_not_P[OF False]
    by (intro exI[of _ "map_sum id (map_option stake_entry) h"] exI[of _ m])
       (simp add: stake_entry_def split: sum.split option.split)
  ultimately show ?thesis
    using at1 by (auto simp: runs_def)
qed

text \<open>The whole of \<^verbatim>\<open>increase_stake_power\<close>, for a pool that had the power \<open>pw\<close>.\<close>

definition stake_gained ::
  "bool \<Rightarrow> public_address \<Rightarrow> public_address \<Rightarrow> u64 \<Rightarrow> u64 \<Rightarrow> unit + unit \<Rightarrow> ledger \<Rightarrow> ledger \<Rightarrow> bool" where
  "stake_gained exit_on_fail op own pw n r L L' \<longleftrightarrow> (\<exists>g L1. stake_rose exit_on_fail op own n g L L1 \<and>
     (case g of Inl _ \<Rightarrow> r = Inl () \<and> L' = L1
      | Inr add \<Rightarrow> r = Inr () \<and> (\<exists>m. power_rose op (saturating_add pw add) (l_nvp L) m \<and>
          L' = set_pool_power op (saturating_add pw add) m L1)))"

lemma stake_gained_Inl:
  "stake_gained b op own pw n (Inl ()) L L' \<longleftrightarrow> stake_rose b op own n (Inl ()) L L'"
  by (auto simp: stake_gained_def split: sum.split_asm intro!: exI[of _ "Inl ()"])

lemma stake_gained_Inr:
  "stake_gained b op own pw n (Inr ()) L L' \<longleftrightarrow> (\<exists>add L1 m. stake_rose b op own n (Inr add) L L1 \<and>
     power_rose op (saturating_add pw add) (l_nvp L) m \<and> L' = set_pool_power op (saturating_add pw add) m L1)"
  by (force simp: stake_gained_def split: sum.split_asm)

lemma increase_stake_power_runs:
  assumes laws: "raise_laws N I led ok" and at: "at_ledger led ok L s"
  shows "runs (increase_stake_power N I op pw own (stake_in L op own) n b s)
    (\<lambda>r s'. \<exists>L'. at_ledger led ok L' s' \<and> stake_gained b op own pw n r L L')"
  unfolding increase_stake_power_def
proof (rule runs_bind[OF increase_stake_runs[OF laws at]], goal_cases)
  case (1 g s1)
  then obtain L1 where L1: "at_ledger led ok L1 s1" "stake_rose b op own n g L L1"
    by blast
  have nvp: "l_nvp L1 = l_nvp L"
    using L1(2) by (auto simp: stake_rose_def put_stake_def split: if_splits)
  have tail: "runs (run_na I (p_set_power (pools N) op n') s1)
    (\<lambda>_. at_ledger led ok (L1\<lparr>l_power := (l_power L1)(op := Some n')\<rparr>))" for n'
    using updates_runs[OF raise_updates(1)[OF laws] L1(1)] by simp
  show ?case
  proof (cases g)
    case (Inl u)
    then show ?thesis
      using L1 by (auto simp: stake_gained_Inl intro!: runs_return)
  next
    case (Inr add)
    show ?thesis
      unfolding Inr prod.case sum.case Let_def
    proof (rule runs_bind[OF tail], unfold prod.case, erule runs_mono[OF nvp_rose_runs[OF laws]])
      fix r :: "unit + unit" and s
      assume "r = Inr () \<and> (\<exists>m. at_ledger led ok (L1\<lparr>l_power := (l_power L1)(op \<mapsto> saturating_add pw add), l_nvp := m\<rparr>) s \<and>
        power_rose op (saturating_add pw add) (l_nvp (L1\<lparr>l_power := (l_power L1)(op \<mapsto> saturating_add pw add)\<rparr>)) m)"
      then show "\<exists>L'. at_ledger led ok L' s \<and> stake_gained b op own pw n r L L'"
        using L1(2) unfolding Inr by (auto simp: stake_gained_Inr set_pool_power_def nvp)
    qed
  qed
qed

text \<open>A withdrawal caps the stake by what is left of the deposit.\<close>

definition stake_capped ::
  "public_address \<Rightarrow> public_address \<Rightarrow> u64 \<Rightarrow> ledger \<Rightarrow> ledger \<Rightarrow> bool" where
  "stake_capped op own n L L' \<longleftrightarrow>
     (case (stake_in L op own, l_power L op) of
        (Some p, Some pw) \<Rightarrow>
          if n < p then (\<exists>m. power_fell op (pw - (p - n)) (l_nvp L) m \<and>
            L' = set_pool_power op (pw - (p - n)) m (set_stake op own n L))
          else L' = L
      | _ \<Rightarrow> L' = L)"

lemma cap_stake_runs:
  assumes laws: "ledger_laws N I led ok" and at: "at_ledger led ok L s"
  shows "runs (cap_stake N I op own n s) (\<lambda>_ s'. \<exists>L'. at_ledger led ok L' s' \<and> stake_capped op own n L L')"
  unfolding cap_stake_def
proof (rule runs_bind[OF stake_of_pool_runs[OF ledger_raise[OF laws] at]], elim conjE, hypsubst, unfold prod.case,
    rule runs_option, goal_cases)
  case (1 r s1)
  then show ?case
    by (auto simp: stake_capped_def intro!: runs_return)
next
  case (2 r s1 p)
  have stay: "at_ledger led ok L s' \<Longrightarrow> \<not> n < p \<or> l_power L op = None \<Longrightarrow>
    \<exists>L'. at_ledger led ok L' s' \<and> stake_capped op own n L L'" for s'
    using 2(2) by (intro exI[of _ L]) (auto simp: stake_capped_def split: option.split)
  have capped: "runs (reduce_stake_power N I op pw own p (p - n) s' \<bind> (\<lambda>(_, s). Some ((), s)))
    (\<lambda>_ s'. \<exists>L'. at_ledger led ok L' s' \<and> stake_capped op own n L L')"
    if "at_ledger led ok L s'" "n < p" "l_power L op = Some pw" for s' pw
    using that 2(2) by (intro runs_bind[OF reduce_stake_runs[OF laws that(1) 2(2)]])
      (auto simp: stake_capped_def intro!: runs_return)
  show ?case
    using 2(1) stay capped
    by - (assumption | (rule runs_return, (simp; fail)) | rule runs_if runs_option
      ledger_answers(2)[OF laws, THEN answers_bind] | simp only: prod.case | (simp; fail))+
qed

end
