(* ===== verification/Rewards.thy ===== *)
theory Rewards
  imports Issuance_Table
begin

text \<open>
  The reward formulas of \<^verbatim>\<open>rewards_formulas.rs\<close>: the issuance of an epoch, the reward of a pool and
  its distribution over the stakes. Products are taken at 128 bits and panic on overflow; the
  lemmas show for which arguments none does, that the rewards are the documented quotients, and
  that a pool never distributes more than its reward.
\<close>

section \<open>Rewards\<close>

definition issuance :: "u64 \<Rightarrow> u64 \<Rightarrow> (u128 \<times> u128) option" where
  "issuance epoch_number pool_power =
     (if CONSTANT_ISSUANCE_EPOCH \<le> epoch_number then do {
        n \<leftarrow> mul_u128 pool_power 15;
        Some (n, 365 * 1000)
      } else do {
        rate \<leftarrow> mul_u64 835 (ISSUANCE_RATE_REDUCTION_FACTOR ! epoch_number);
        n \<leftarrow> mul_u128 pool_power rate;
        Some (n, 365 * 100000000)
      })"

definition pool_reward :: "u64 \<Rightarrow> u64 \<Rightarrow> u32 \<Rightarrow> u32 \<Rightarrow> u64 option" where
  "pool_reward current_epoch pool_power actual_num_of_blocks_proposed expected_num_of_blocks_proposed =
     (if expected_num_of_blocks_proposed = 0 then Some 0
      else if actual_num_of_blocks_proposed > expected_num_of_blocks_proposed then do {
        (numerator, denominator) \<leftarrow> issuance current_epoch pool_power;
        q \<leftarrow> div_u numerator denominator;
        Some (as_u64 q)
      } else do {
        (numerator, denominator) \<leftarrow> issuance current_epoch pool_power;
        n \<leftarrow> mul_u128 numerator actual_num_of_blocks_proposed;
        d \<leftarrow> mul_u128 denominator expected_num_of_blocks_proposed;
        q \<leftarrow> div_u n d;
        Some (as_u64 q)
      })"

definition stake_reward :: "u64 \<Rightarrow> u8 \<Rightarrow> u64 \<Rightarrow> u64 \<Rightarrow> (u64 \<times> u64) option" where
  "stake_reward pool_rwd commission_rate stk_power total_stakes =
     (if total_stakes = 0 then Some (0, 0)
      else do {
        ps \<leftarrow> mul_u128 pool_rwd stk_power;
        rwd \<leftarrow> div_u ps total_stakes;
        cp \<leftarrow> mul_u128 commission_rate pool_rwd;
        cps \<leftarrow> mul_u128 cp stk_power;
        ht \<leftarrow> mul_u128 100 total_stakes;
        commission_fee \<leftarrow> div_u cps ht;
        Some (as_u64 (saturating_sub rwd commission_fee), as_u64 commission_fee)
      })"

section \<open>Laws\<close>

text \<open>At most this many grays per epoch for each gray of power, as a fraction.\<close>

lemma issuance_returns:
  assumes "pool_power \<le> U64_MAX"
  obtains n d where "issuance epoch pool_power = Some (n, d)"
    and "0 < d" "d \<le> 36500000000" "n \<le> pool_power * 8350000" "730000 * n \<le> 167 * pool_power * d"
proof (cases "CONSTANT_ISSUANCE_EPOCH \<le> epoch")
  case True
  have "pool_power * 15 \<le> U128_MAX"
    using assms by (simp add: U64_MAX_def U128_MAX_def)
  with True show thesis
    by (intro that[of "pool_power * 15" "365 * 1000"]) (simp_all add: issuance_def mul_u128_def)
next
  case False
  define f where "f = ISSUANCE_RATE_REDUCTION_FACTOR ! epoch"
  have f: "f \<le> 10000"
    using False table_bounds[of f] length_table by (simp add: f_def)
  then have "pool_power * (835 * f) \<le> pool_power * 8350000"
    by (intro mult_le_mono) simp_all
  moreover have "pool_power * 8350000 \<le> U128_MAX"
    using assms by (simp add: U64_MAX_def U128_MAX_def)
  ultimately have "pool_power * (835 * f) \<le> pool_power * 8350000" "pool_power * (835 * f) \<le> U128_MAX"
    by linarith+
  then show thesis
    using False f
    by (intro that[of "pool_power * (835 * f)" "365 * 100000000"])
      (simp_all add: issuance_def mul_u128_def checked_mul_def U64_MAX_def f_def[symmetric])
qed

lemma as_u64_id [simp]: "x \<le> U64_MAX \<Longrightarrow> as_u64 x = x"
  by (simp add: as_u64_def U64_MAX_def)

lemma share_le: "0 < (x::nat) \<Longrightarrow> 0 < d \<Longrightarrow> n * min a x div (d * x) \<le> n div d"
  by (metis div_le_mono div_mult2_eq div_mult_self_is_m min.cobounded2 mult.commute mult_le_mono2)

lemma pool_reward_value:
  assumes "pool_power \<le> U64_MAX" "actual \<le> U32_MAX" "expected \<le> U32_MAX" "0 < expected"
    and "issuance epoch pool_power = Some (n, d)"
  shows "pool_reward epoch pool_power actual expected = Some (n * min actual expected div (d * expected))"
    and "730000 * (n * min actual expected div (d * expected)) \<le> 167 * pool_power"
proof -
  have nd: "0 < d" "d \<le> 36500000000" "n \<le> pool_power * 8350000" "730000 * n \<le> 167 * pool_power * d"
    using issuance_returns[OF assms(1), of epoch] assms(5) by auto
  have "730000 * (n div d) * d \<le> 167 * pool_power * d"
    using nd(4) div_times_less_eq_dividend[of n d] by linarith
  then have "730000 * (n div d) \<le> 167 * pool_power"
    using nd(1) by simp
  with share_le[OF assms(4) nd(1), of n actual]
  show bound: "730000 * (n * min actual expected div (d * expected)) \<le> 167 * pool_power"
    by linarith
  then have fits: "n * min actual expected div (d * expected) \<le> U64_MAX"
    using assms(1) by linarith
  have "n * actual \<le> U64_MAX * 8350000 * U32_MAX"
    using nd(3) assms(1,2) by (intro mult_le_mono) simp_all
  moreover have "d * expected \<le> 36500000000 * U32_MAX"
    using nd(2) assms(3) by (intro mult_le_mono) simp_all
  ultimately show "pool_reward epoch pool_power actual expected =
      Some (n * min actual expected div (d * expected))"
    using assms(4,5) nd(1) fits
    by (auto simp: pool_reward_def div_u_def mul_u128_def U64_MAX_def U32_MAX_def U128_MAX_def min_def)
qed

lemma pool_reward_bound:
  assumes "pool_reward epoch pool_power actual expected = Some p"
    and "pool_power \<le> U64_MAX" "actual \<le> U32_MAX" "expected \<le> U32_MAX"
  shows "730000 * p \<le> 167 * pool_power"
proof (cases "expected = 0")
  case False
  obtain n d where "issuance epoch pool_power = Some (n, d)"
    using issuance_returns[OF assms(2)] by metis
  with pool_reward_value[OF assms(2-4) _ this] False assms(1) show ?thesis
    by simp
qed (use assms(1) in \<open>simp add: pool_reward_def\<close>)

lemma stake_reward_value:
  assumes "rate \<le> 100" "s \<le> tot" "0 < tot" "100 * pool_rwd * tot \<le> U128_MAX"
    and "pool_rwd \<le> U64_MAX" "tot \<le> U64_MAX"
  shows "stake_reward pool_rwd rate s tot =
    Some (pool_rwd * s div tot - rate * pool_rwd * s div (100 * tot), rate * pool_rwd * s div (100 * tot))"
    and "rate * pool_rwd * s div (100 * tot) \<le> pool_rwd * s div tot"
    and "pool_rwd * s div tot \<le> pool_rwd"
proof -
  have fee: "rate * pool_rwd * s \<le> 100 * (pool_rwd * s)"
    using mult_le_mono1[OF assms(1), of "pool_rwd * s"] by (simp add: mult.assoc)
  show le: "rate * pool_rwd * s div (100 * tot) \<le> pool_rwd * s div tot"
    using div_le_mono[OF fee, of "100 * tot"] by (simp add: div_mult_mult1)
  show cap: "pool_rwd * s div tot \<le> pool_rwd"
    using assms(2,3) div_le_mono[OF mult_le_mono2[OF assms(2), of pool_rwd], of tot] by simp
  have top: "100 * (pool_rwd * s) \<le> 100 * pool_rwd * tot"
    using mult_le_mono2[OF assms(2), of "100 * pool_rwd"] by (simp add: mult.assoc)
  have cp: "rate * pool_rwd \<le> 100 * U64_MAX" "100 * tot \<le> 100 * U64_MAX"
    using assms(1,5,6) by (intro mult_le_mono; simp)+
  have fits: "pool_rwd * s \<le> U128_MAX" "rate * pool_rwd \<le> U128_MAX" "rate * pool_rwd * s \<le> U128_MAX"
    "100 * tot \<le> U128_MAX"
  proof -
    show "pool_rwd * s \<le> U128_MAX"
      using top assms(4) by linarith
    show "rate * pool_rwd * s \<le> U128_MAX"
      using top fee assms(4) by linarith
  qed (use cp in \<open>simp_all add: U64_MAX_def U128_MAX_def\<close>)
  show "stake_reward pool_rwd rate s tot =
    Some (pool_rwd * s div tot - rate * pool_rwd * s div (100 * tot), rate * pool_rwd * s div (100 * tot))"
    using fits assms(3,5) le cap
    by (simp add: stake_reward_def mul_u128_def div_u_def saturating_sub_def)
qed

lemma div_add_div_le_add_div: "a div t + b div t \<le> (a + b) div (t::nat)"
  by (simp add: div_add1_eq[of a b t])

lemma sum_shares_le: "(\<Sum>s\<leftarrow>ss. p * s div t) \<le> p * sum_list ss div (t::nat)"
proof (induction ss)
  case (Cons s ss)
  have "p * s div t + p * sum_list ss div t \<le> (p * s + p * sum_list ss) div t"
    by (rule div_add_div_le_add_div)
  with Cons show ?case
    by (simp add: distrib_left)
qed simp

text \<open>C27: The issuance table is what its documentation says it is: it has one factor for each of
  the 3650 epochs, starts at 10000, never rises, and drops to 0.85 of its value every 365 epochs,
  up to the rounding of both factors to the nearest integer.\<close>

theorem issuance_table:
  "length ISSUANCE_RATE_REDUCTION_FACTOR = CONSTANT_ISSUANCE_EPOCH \<and>
   ISSUANCE_RATE_REDUCTION_FACTOR ! 0 = 10000 \<and> sorted_wrt (\<ge>) ISSUANCE_RATE_REDUCTION_FACTOR \<and>
   list_all2 (\<lambda>a b. 20 * b \<le> 17 * a + 18 \<and> 17 * a \<le> 20 * b + 18)
     (take 3285 ISSUANCE_RATE_REDUCTION_FACTOR) (drop 365 ISSUANCE_RATE_REDUCTION_FACTOR)"
  using length_table fall_sorted[OF table_decreases] table_years table_first
  unfolding year_step_def[abs_def] by simp

text \<open>C26: The reward of a pool is the documented product: the issuance of its power scaled by the
  share of its expected blocks that it proposed, at most one, rounded down. No 128-bit product
  overflows whatever the power, the epoch and the block counts, and an epoch never pays more than
  167 parts in 730000 of the power.\<close>

theorem pool_reward_exact:
  assumes "pool_power \<le> U64_MAX" and "actual \<le> U32_MAX" and "expected \<le> U32_MAX" and "0 < expected"
  shows "\<exists>n d r. issuance epoch pool_power = Some (n, d) \<and>
    r = n * min actual expected div (d * expected) \<and>
    pool_reward epoch pool_power actual expected = Some r \<and> 730000 * r \<le> 167 * pool_power"
  using issuance_returns[OF assms(1), of epoch] pool_reward_value[OF assms] by metis

theorem pool_reward_exact_witness:
  "\<exists>n d r. issuance 4000 (10 ^ 18) = Some (n, d) \<and> r = n * min 40 50 div (d * 50) \<and>
    pool_reward 4000 (10 ^ 18) 40 50 = Some r \<and> 730000 * r \<le> 167 * 10 ^ 18"
  using pool_reward_exact[of "10 ^ 18" 40 50 4000] by (simp add: U64_MAX_def U32_MAX_def)

text \<open>What a stake earns of the reward of its pool, and the commission that the operator keeps of it.\<close>

definition commission_on :: "nat \<Rightarrow> nat \<Rightarrow> nat \<Rightarrow> nat \<Rightarrow> nat" where
  "commission_on rwd rate s tot = rate * rwd * s div (100 * tot)"

definition net_share :: "nat \<Rightarrow> nat \<Rightarrow> nat \<Rightarrow> nat \<Rightarrow> nat" where
  "net_share rwd rate s tot = rwd * s div tot - commission_on rwd rate s tot"

text \<open>
  A pool never distributes more than its reward: for a commission rate of at most a hundred per
  cent and stakes that sum up to no more than the total, no product overflows, and the stakes'
  rewards, their commission fees and the reward of the operator's own stake together are at most
  the reward of the pool.
\<close>

lemma rewards_within_pool:
  assumes "pool_reward epoch pool_power actual expected = Some p"
    and "pool_power \<le> U64_MAX" and "actual \<le> U32_MAX" and "expected \<le> U32_MAX"
    and "rate \<le> 100" and "own + sum_list ss \<le> tot" and "tot \<le> U64_MAX" and "0 < tot"
  shows "those (map (\<lambda>s. stake_reward p rate s tot) ss) =
      Some (map (\<lambda>s. (net_share p rate s tot, commission_on p rate s tot)) ss)"
    and "stake_reward p 0 own tot = Some (p * own div tot, 0)"
    and "p * own div tot + (\<Sum>s\<leftarrow>ss. net_share p rate s tot + commission_on p rate s tot) \<le> p"
proof -
  have p: "730000 * p \<le> 167 * pool_power"
    using assms(1) by (rule pool_reward_bound) (use assms in simp_all)
  then have small: "p \<le> 5000000000000000"
    using assms(2) by (simp add: U64_MAX_def)
  have "100 * p * tot \<le> 100 * 5000000000000000 * U64_MAX"
    using small assms(7) by (intro mult_le_mono) simp_all
  with small have pT: "100 * p * tot \<le> U128_MAX" "p \<le> U64_MAX"
    by (simp_all add: U64_MAX_def U128_MAX_def)
  have le: "s \<le> tot" if "s \<in> set ss" for s
    using member_le_sum_list[OF that] assms(6) by simp
  note val = stake_reward_value[OF _ _ assms(8) pT assms(7)]
  note defs = net_share_def commission_on_def
  show "those (map (\<lambda>s. stake_reward p rate s tot) ss) =
      Some (map (\<lambda>s. (net_share p rate s tot, commission_on p rate s tot)) ss)"
    using le val(1)[OF assms(5)] by (induction ss) (auto simp: defs)
  show "stake_reward p 0 own tot = Some (p * own div tot, 0)"
    using val(1)[of 0 own] assms(6) by simp
  have "(\<Sum>s\<leftarrow>ss. net_share p rate s tot + commission_on p rate s tot) = (\<Sum>s\<leftarrow>ss. p * s div tot)"
    using le val(2)[OF assms(5)] by (induction ss) (auto simp: defs)
  moreover have "p * own div tot + p * sum_list ss div tot \<le> p * (own + sum_list ss) div tot"
    using div_add_div_le_add_div[of "p * own" tot "p * sum_list ss"] by (simp add: distrib_left)
  moreover have "p * (own + sum_list ss) div tot \<le> p"
    using val(3)[of 0 "own + sum_list ss"] assms(6) by simp
  ultimately show "p * own div tot + (\<Sum>s\<leftarrow>ss. net_share p rate s tot + commission_on p rate s tot) \<le> p"
    using sum_shares_le[of p tot ss] by linarith
qed

end
