(* ===== verification/Protocol_Commands.thy ===== *)
theory Protocol_Commands
  imports Staking_Commands Rewards
begin

text \<open>
  The protocol command, \<^verbatim>\<open>next_epoch\<close> of \<^verbatim>\<open>src/commands/protocol.rs\<close>: it pays the rewards of the epoch,
  stakes those that are to be staked, moves the validator sets on by one epoch and reports how the
  validator set changes. Every phase is a definition of its own over any storage of the network
  account; the command runs them on the gas-free one. An \<^verbatim>\<open>unwrap\<close> of a missing field is a panic.
\<close>

section \<open>Data\<close>

record validator_changes =
  new_validator_set :: "(public_address \<times> u64) list"
  remove_validator_set :: "public_address list"

text \<open>A loop that collects one result per element.\<close>

primrec for_each :: "('a \<Rightarrow> 's \<Rightarrow> ('b \<times> 's) option) \<Rightarrow> 'a list \<Rightarrow> 's \<Rightarrow> ('b list \<times> 's) option" where
  "for_each f [] s = Some ([], s)"
| "for_each f (x # xs) s = do {
     (y, s) \<leftarrow> f x s;
     (ys, s) \<leftarrow> for_each f xs s;
     Some (y # ys, s)
   }"

section \<open>Rewards\<close>

text \<open>Step 1.1: the pools of the current validator set.\<close>

definition read_vp_pool ::
  "network_account \<Rightarrow> 's nas \<Rightarrow> u32 \<Rightarrow> 's \<Rightarrow> (pool \<times> 's) option" where
  "read_vp_pool N I i s = do {
     (h, s) \<leftarrow> run_na I (vs_pool_at (vp N) i) s;
     h \<leftarrow> h;
     (operator, s) \<leftarrow> run_na I (p_operator (vs_pools N) h) s;
     operator \<leftarrow> operator;
     (rate, s) \<leftarrow> run_na I (p_commission_rate (vs_pools N) h) s;
     rate \<leftarrow> rate;
     (pw, s) \<leftarrow> run_na I (p_power (vs_pools N) h) s;
     (os, s) \<leftarrow> run_na I (p_operator_stake (vs_pools N) h) s;
     Some (\<lparr>pl_operator = operator, pl_commission_rate = rate,
            pl_power = (case pw of Some p \<Rightarrow> p | None \<Rightarrow> 0),
            pl_operator_stake = (case os of Some stk \<Rightarrow> stk | None \<Rightarrow> None)\<rparr>, s)
   }"

text \<open>Step 1.2: the delegated stakes of a pool of the validator set.\<close>

definition read_vp_stakes ::
  "network_account \<Rightarrow> 's nas \<Rightarrow> public_address \<Rightarrow> 's \<Rightarrow> (stake list \<times> 's) option" where
  "read_vp_stakes N I operator s = do {
     (h, s) \<leftarrow> run_na I (vs_pool (vp N) operator) s;
     case h of
       None \<Rightarrow> Some ([], s)
     | Some h \<Rightarrow> do {
         (n, s) \<leftarrow> run_na I (ds_length (vs_pools N) h) s;
         for_each (\<lambda>j s. do {
           (stk, s) \<leftarrow> run_na I (ds_get (vs_pools N) h j) s;
           stk \<leftarrow> stk;
           Some (stk, s)
         }) [0..<n] s
       }
   }"

definition own_stake :: "pool \<Rightarrow> u64" where
  "own_stake p = (case pl_operator_stake p of Some stk \<Rightarrow> stake_power stk | None \<Rightarrow> 0)"

definition total_stakes_of :: "pool \<Rightarrow> stake list \<Rightarrow> u64" where
  "total_stakes_of p stakes = foldl (\<lambda>t stk. saturating_add t (stake_power stk)) (own_stake p) stakes"

text \<open>Step 1.3: the rewards of the stakers and the commission they pay; a panic of one is a panic.\<close>

primrec stakers_rewards ::
  "u64 \<Rightarrow> u8 \<Rightarrow> u64 \<Rightarrow> stake list \<Rightarrow> ((public_address \<times> u64) list \<times> u64) \<Rightarrow>
   ((public_address \<times> u64) list \<times> u64) option" where
  "stakers_rewards rwd rate tot [] acc = Some acc"
| "stakers_rewards rwd rate tot (stk # stakes) acc = do {
     (r, fee) \<leftarrow> stake_reward rwd rate (stake_power stk) tot;
     stakers_rewards rwd rate tot stakes
       (fst acc @ [(owner stk, r)], saturating_add (snd acc) fee)
   }"

definition pay_staker ::
  "network_account \<Rightarrow> 's nas \<Rightarrow> public_address \<Rightarrow> public_address \<times> u64 \<Rightarrow> 's \<Rightarrow>
   ((public_address \<times> public_address \<times> u64) list \<times> 's) option" where
  "pay_staker N I operator = (\<lambda>(stake_owner, rwd) s. do {
     (balance, s) \<leftarrow> run_na I (d_balance (deposits N) operator stake_owner) s;
     (_, s) \<leftarrow> (case balance of
                   Some b \<Rightarrow> run_na I (d_set_balance (deposits N) operator stake_owner (saturating_add b rwd)) s
                 | None \<Rightarrow> Some ((), s));
     (auto, s) \<leftarrow> run_na I (d_auto_stake_rewards (deposits N) operator stake_owner) s;
     Some (if auto = Some True then [(operator, stake_owner, rwd)] else [], s)
   })"

text \<open>Step 1.4: the reward of the operator's own stake, with the commission.\<close>

definition pay_operator ::
  "network_account \<Rightarrow> 's nas \<Rightarrow> public_address \<Rightarrow> u64 \<Rightarrow> 's \<Rightarrow>
   ((public_address \<times> public_address \<times> u64) list \<times> 's) option" where
  "pay_operator N I operator rwd s = do {
     (balance, s) \<leftarrow> run_na I (d_balance (deposits N) operator operator) s;
     (_, s) \<leftarrow> (case balance of
                   Some b \<Rightarrow> run_na I (d_set_balance (deposits N) operator operator (saturating_add b rwd)) s
                 | None \<Rightarrow> do {
                     (_, s) \<leftarrow> run_na I (d_set_balance (deposits N) operator operator rwd) s;
                     run_na I (d_set_auto_stake_rewards (deposits N) operator operator False) s
                   });
     (auto, s) \<leftarrow> run_na I (d_auto_stake_rewards (deposits N) operator operator) s;
     Some (if auto = Some True then [(operator, operator, rwd)] else [], s)
   }"

definition proposed_blocks :: "validator_performance \<Rightarrow> public_address \<Rightarrow> u32" where
  "proposed_blocks perf operator =
     (case map_of (vp_stats perf) operator of Some st \<Rightarrow> num_of_proposed_blocks st | None \<Rightarrow> 0)"

text \<open>
  One round of the reward loop. The result is the delegated stakes of the pool and the stakes to be
  increased by their rewards.
\<close>

definition reward_pool ::
  "network_account \<Rightarrow> 's nas \<Rightarrow> validator_performance \<Rightarrow> u64 \<Rightarrow> u32 \<Rightarrow> pool \<Rightarrow> 's \<Rightarrow>
   ((stake list \<times> (public_address \<times> public_address \<times> u64) list) \<times> 's) option" where
  "reward_pool N I perf current_epoch pool_length p s = do {
     let operator = pl_operator p;
     expected \<leftarrow> div_u (blocks_per_epoch perf) pool_length;
     rwd \<leftarrow> pool_reward current_epoch (pl_power p) (proposed_blocks perf operator) expected;
     (stakes, s) \<leftarrow> read_vp_stakes N I operator s;
     let tot = total_stakes_of p stakes;
     (stakers_to_reward, total_commission_fee) \<leftarrow>
       (if rwd > 0 then stakers_rewards rwd (pl_commission_rate p) tot stakes ([], 0) else Some ([], 0));
     (autos, s) \<leftarrow> for_each (pay_staker N I operator) stakers_to_reward s;
     (own_auto, s) \<leftarrow>
       (if rwd > 0 then do {
          (own_reward, _) \<leftarrow> stake_reward rwd 0 (own_stake p) tot;
          pay_operator N I operator (saturating_add own_reward total_commission_fee) s
        } else Some ([], s));
     Some ((stakes, concat autos @ own_auto), s)
   }"

text \<open>Staking a reward in the next validator set; a pool that is gone is skipped.\<close>

definition auto_stake ::
  "network_account \<Rightarrow> 's nas \<Rightarrow> public_address \<times> public_address \<times> u64 \<Rightarrow> 's \<Rightarrow> (unit \<times> 's) option" where
  "auto_stake N I = (\<lambda>(operator, own, increase_amount) s. do {
     (exists, s) \<leftarrow> run_na I (p_exists (pools N) operator) s;
     if \<not> exists then Some ((), s)
     else do {
       (pw, s) \<leftarrow> run_na I (p_power (pools N) operator) s;
       (stk, s) \<leftarrow> stake_of_pool N I operator own s;
       (_, s) \<leftarrow> increase_stake_power N I operator (case pw of Some p \<Rightarrow> p | None \<Rightarrow> 0) own stk
         increase_amount False s;
       Some ((), s)
     }
   })"

section \<open>Moving the validator sets on\<close>

text \<open>Step 2: the stakes of each pool are taken out of a hash map, once.\<close>

primrec push_previous ::
  "network_account \<Rightarrow> 's nas \<Rightarrow> pool list \<Rightarrow> (public_address, stake list) hash_map \<Rightarrow> 's \<Rightarrow>
   (unit \<times> 's) option" where
  "push_previous N I [] stakes_of_vp s = Some ((), s)"
| "push_previous N I (p # ps) stakes_of_vp s = do {
     delegated_stakes \<leftarrow> map_of stakes_of_vp (pl_operator p);
     (_, s) \<leftarrow> run_na I (vs_push (pvp N) p delegated_stakes) s;
     push_previous N I ps (AList.delete (pl_operator p) stakes_of_vp) s
   }"

text \<open>Step 3: one pool of the next validator set enters the current one.\<close>

definition promote_pool ::
  "network_account \<Rightarrow> 's nas \<Rightarrow> u32 \<Rightarrow> 's \<Rightarrow> ((public_address \<times> u64) \<times> 's) option" where
  "promote_pool N I i s = do {
     (k, s) \<leftarrow> run_na I (nvp_get (nvp N) i) s;
     k \<leftarrow> k;
     let h = pk_operator k;
     (operator, s) \<leftarrow> run_na I (p_operator (pools N) h) s;
     operator \<leftarrow> operator;
     (rate, s) \<leftarrow> run_na I (p_commission_rate (pools N) h) s;
     rate \<leftarrow> rate;
     (pw, s) \<leftarrow> run_na I (p_power (pools N) h) s;
     pw \<leftarrow> pw;
     (os, s) \<leftarrow> run_na I (p_operator_stake (pools N) h) s;
     os \<leftarrow> os;
     (delegated_stakes, s) \<leftarrow> run_na I (ds_unordered_values (pools N) h) s;
     (_, s) \<leftarrow> run_na I (vs_push (vp N)
       \<lparr>pl_operator = operator, pl_commission_rate = rate, pl_power = pw, pl_operator_stake = os\<rparr>
       delegated_stakes) s;
     Some ((operator, pw), s)
   }"

text \<open>Step 5: how the validator set changes.\<close>

definition validator_changes_of :: "pool list \<Rightarrow> (public_address \<times> u64) list \<Rightarrow> validator_changes" where
  "validator_changes_of pools_in_vp next_validator_set =
     \<lparr>new_validator_set = filter (\<lambda>(new_p, new_power).
        \<not> list_ex (\<lambda>old_p. pl_operator old_p = new_p \<and> pl_power old_p = new_power) pools_in_vp)
        next_validator_set,
      remove_validator_set = map pl_operator (filter (\<lambda>old_p.
        \<not> list_ex (\<lambda>new_p. fst new_p = pl_operator old_p) next_validator_set) pools_in_vp)\<rparr>"

section \<open>The command\<close>

definition next_epoch_on ::
  "network_account \<Rightarrow> 's nas \<Rightarrow> validator_performance \<Rightarrow> 's \<Rightarrow> (validator_changes \<times> 's) option" where
  "next_epoch_on N I block_performance s = do {
     (current_epoch, s) \<leftarrow> run_na I (na_current_epoch N) s;
     (pool_length, s) \<leftarrow> run_na I (vs_length (vp N)) s;
     (pools_in_vp, s) \<leftarrow> for_each (read_vp_pool N I) [0..<pool_length] s;
     (rounds, s) \<leftarrow> for_each (reward_pool N I block_performance current_epoch pool_length) pools_in_vp s;
     let stakes_of_vp = fold (\<lambda>(p, stakes, _). AList.update (pl_operator p) stakes)
       (zip pools_in_vp rounds) [];
     (_, s) \<leftarrow> for_each (auto_stake N I) (concat (map snd rounds)) s;
     (_, s) \<leftarrow> run_na I (vs_clear (pvp N)) s;
     (_, s) \<leftarrow> push_previous N I pools_in_vp stakes_of_vp s;
     (_, s) \<leftarrow> run_na I (vs_clear (vp N)) s;
     (nvp_len, s) \<leftarrow> run_na I (nvp_length (nvp N)) s;
     (next_validator_set, s) \<leftarrow> for_each (promote_pool N I) [0..<nvp_len] s;
     epoch \<leftarrow> add_u64 current_epoch 1;
     (_, s) \<leftarrow> run_na I (na_set_current_epoch N epoch) s;
     Some (validator_changes_of pools_in_vp next_validator_set, s)
   }"

definition next_epoch ::
  "('w, 'c, 'm, 'v) runtime \<Rightarrow> ('w, 'c, 'e) execution_state \<Rightarrow>
   (('w, 'c, 'e) execution_state \<times> validator_changes) option" where
  "next_epoch R st = do {
     block_performance \<leftarrow> bp_validator_performance (bd st);
     (changes, s) \<leftarrow> next_epoch_on (rt_net R) (ws_nas (rt_ws R) (NETWORK_ADDRESS (rt_net R)))
       block_performance (es_cache st);
     Some (set_es_cache st s, changes)
   }"

section \<open>What the phases keep\<close>

context network_account_storage
begin

lemma for_each_post:
  assumes "\<And>x s. keeps s0 s \<Longrightarrow> post (f x s) (\<lambda>(y, s'). keeps s0 s')" and "keeps s0 s"
  shows "post (for_each f xs s) (\<lambda>(ys, s'). keeps s0 s')"
  using assms(2)
proof (induction xs arbitrary: s)
  case (Cons x xs)
  show ?case
    unfolding for_each.simps
    by (rule post_rules post_mono[OF assms(1)[OF Cons.prems]] post_mono[OF Cons.IH] | simp only: prod.case
        | assumption)+
qed (simp add: post_Some)

lemma post_option: "(\<And>v. x = Some v \<Longrightarrow> post (f v) Q) \<Longrightarrow> post (x \<bind> f) Q"
  by (cases x) (simp_all add: post_None)

lemma chain_post:
  "post m (\<lambda>(r, s'). keeps s0 s') \<Longrightarrow> (\<And>r s'. keeps s0 s' \<Longrightarrow> post (f (r, s')) Q) \<Longrightarrow> post (m \<bind> f) Q"
  by (auto simp: post_def bind_convs)

lemma read_vp_pool_post: "keeps s0 s \<Longrightarrow> post (read_vp_pool N I i s) (\<lambda>(r, s'). keeps s0 s')"
  unfolding read_vp_pool_def
  by (assumption | rule post_pair post_bind[OF run_post] post_option post_Some | simp only: prod.case)+

lemma read_vp_stakes_post: "keeps s0 s \<Longrightarrow> post (read_vp_stakes N I i s) (\<lambda>(r, s'). keeps s0 s')"
  unfolding read_vp_stakes_def
  by (assumption | rule post_pair post_bind[OF run_post] for_each_post post_case_option post_option post_Some
      | simp only: prod.case)+

lemma pay_staker_post: "keeps s0 s \<Longrightarrow> post (pay_staker N I operator x s) (\<lambda>(r, s'). keeps s0 s')"
  unfolding pay_staker_def
  by (cases x, simp only: prod.case)
    (assumption | rule post_pair post_bind run_post post_case_option post_Some | simp only: prod.case)+

lemma pay_operator_post: "keeps s0 s \<Longrightarrow> post (pay_operator N I operator n s) (\<lambda>(r, s'). keeps s0 s')"
  unfolding pay_operator_def
  by (assumption | rule post_case_prod post_pair post_bind run_post post_case_option post_Some
      | simp only: prod.case)+

lemma reward_pool_post:
  "keeps s0 s \<Longrightarrow> post (reward_pool N I perf e n p s) (\<lambda>(r, s'). keeps s0 s')"
  unfolding reward_pool_def Let_def
  by (rule post_option, rule post_option, rule chain_post[OF read_vp_stakes_post], assumption,
      simp only: prod.case, rule post_option, rule post_case_prod,
      rule chain_post[OF for_each_post[OF pay_staker_post]], assumption, assumption,
      simp only: prod.case, rule chain_post)
    ((rule post_pair post_if post_option post_case_prod pay_operator_post post_Some | assumption
      | simp only: prod.case)+)

lemma auto_stake_post: "keeps s0 s \<Longrightarrow> post (auto_stake N I x s) (\<lambda>(r, s'). keeps s0 s')"
  unfolding auto_stake_def
  by (cases x, simp only: prod.case)
    (assumption | rule post_pair post_bind[OF run_post] post_if post_Some
      chain_post[OF stake_of_pool_post]
      chain_post[OF increase_stake_power_post] | simp only: prod.case)+

lemma push_previous_post:
  "keeps s0 s \<Longrightarrow> post (push_previous N I ps m s) (\<lambda>(r, s'). keeps s0 s')"
proof (induction ps arbitrary: m s)
  case (Cons p ps)
  show ?case
    unfolding push_previous.simps
    by (rule post_option post_bind[OF run_post] Cons.IH Cons.prems | assumption | simp only: prod.case)+
qed (simp add: post_Some)

lemma promote_pool_post: "keeps s0 s \<Longrightarrow> post (promote_pool N I i s) (\<lambda>(r, s'). keeps s0 s')"
  unfolding promote_pool_def Let_def
  by (assumption | rule post_pair post_bind[OF run_post] post_option post_Some | simp only: prod.case)+

lemma next_epoch_on_post: "keeps s0 s \<Longrightarrow> post (next_epoch_on N I perf s) (\<lambda>(r, s'). keeps s0 s')"
  unfolding next_epoch_on_def Let_def
  by (assumption | rule post_pair post_bind[OF run_post] chain_post[OF for_each_post[OF read_vp_pool_post]]
      chain_post[OF for_each_post[OF reward_pool_post]] chain_post[OF for_each_post[OF auto_stake_post]]
      chain_post[OF for_each_post[OF promote_pool_post]] chain_post[OF push_previous_post]
      post_option post_Some | simp only: prod.case)+

end

section \<open>Laws\<close>

lemma next_epoch_frame:
  assumes "next_epoch R st = Some (st', changes)"
  shows "\<exists>s. st' = set_es_cache st s \<and>
    wsc_frame (rt_ws R) {} {} {NETWORK_ADDRESS (rt_net R)} (es_cache st) s"
  using assms postD[OF wsn.next_epoch_on_post[of "rt_ws R" "{}" "{}" "NETWORK_ADDRESS (rt_net R)" "{}"
    "es_cache st" "es_cache st" "rt_net R"]]
  by (fastforce simp: next_epoch_def bind_convs)

lemma map_of_filter_distinct:
  "distinct (map fst xs) \<Longrightarrow>
   map_of (filter P xs) a = map_of xs a \<bind> (\<lambda>v. if P (a, v) then Some v else None)"
proof (induction xs)
  case (Cons x xs)
  then have "map_of xs (fst x) = None"
    by (simp add: map_of_eq_None_iff)
  with Cons show ?case
    by (cases x) auto
qed simp

text \<open>C19: The reported changes are exactly what turns the old validator set into the new one: for
  sets without a repeated operator, dropping the removed operators from the old set and then
  entering the new or repowered ones gives the powers of the next validator set.\<close>

theorem validator_changes_exact:
  assumes "distinct (map pl_operator old)" and "distinct (map fst next)"
  shows "(map_of (map (\<lambda>p. (pl_operator p, pl_power p)) old) |`
      (- set (remove_validator_set (validator_changes_of old next))))
    ++ map_of (new_validator_set (validator_changes_of old next)) = map_of next"
    (is "?l = ?r")
proof
  let ?old = "map (\<lambda>p. (pl_operator p, pl_power p)) old"
  have dold: "distinct (map fst ?old)"
    using assms(1) by (simp add: comp_def)
  have new: "map_of (new_validator_set (validator_changes_of old next)) a =
      (case map_of next a of None \<Rightarrow> None | Some w \<Rightarrow> if map_of ?old a = Some w then None else Some w)" for a
    using assms(2) dold
    by (auto simp: validator_changes_of_def map_of_filter_distinct map_of_eq_Some_iff list_ex_iff
        split: option.split)
  have removed: "a \<in> set (remove_validator_set (validator_changes_of old next)) \<longleftrightarrow>
      map_of ?old a \<noteq> None \<and> map_of next a = None" for a
    by (force simp: validator_changes_of_def list_ex_iff map_of_eq_None_iff)
  fix a
  show "?l a = ?r a"
    using removed[of a] new[of a]
    by (auto simp: map_add_def restrict_map_def split: option.split)
qed

theorem validator_changes_exact_witness:
  "let old = [\<lparr>pl_operator = 1, pl_commission_rate = 5, pl_power = 10, pl_operator_stake = None\<rparr>,
              \<lparr>pl_operator = 2, pl_commission_rate = 5, pl_power = 20, pl_operator_stake = None\<rparr>];
       next = [(2, 25), (3, 30)];
       ch = validator_changes_of old next
   in ch = \<lparr>new_validator_set = [(2, 25), (3, 30)], remove_validator_set = [1]\<rparr> \<and>
      (map_of (map (\<lambda>p. (pl_operator p, pl_power p)) old) |` (- {1})) ++ map_of [(2, 25), (3, 30)] =
        map_of next"
  using validator_changes_exact[of "[\<lparr>pl_operator = 1, pl_commission_rate = 5, pl_power = 10, pl_operator_stake = None\<rparr>,
      \<lparr>pl_operator = 2, pl_commission_rate = 5, pl_power = 20, pl_operator_stake = None\<rparr>]" "[(2, 25), (3, 30)]"]
  by (simp add: validator_changes_of_def)

lemma total_stakes_exact:
  "own_stake p + (\<Sum>s\<leftarrow>stakes. stake_power s) \<le> U64_MAX \<Longrightarrow>
   total_stakes_of p stakes = own_stake p + (\<Sum>s\<leftarrow>stakes. stake_power s)"
proof -
  have "acc + (\<Sum>s\<leftarrow>stakes. stake_power s) \<le> U64_MAX \<Longrightarrow>
    foldl (\<lambda>t stk. saturating_add t (stake_power stk)) acc stakes = acc + (\<Sum>s\<leftarrow>stakes. stake_power s)" for acc
    by (induction stakes arbitrary: acc) (simp_all add: saturating_add_exact)
  then show "own_stake p + (\<Sum>s\<leftarrow>stakes. stake_power s) \<le> U64_MAX \<Longrightarrow> ?thesis"
    by (simp add: total_stakes_of_def)
qed

lemma stakers_rewards_those:
  "those (map (\<lambda>s. stake_reward rwd rate (stake_power s) tot) stakes) = Some vs \<Longrightarrow>
   snd acc + (\<Sum>v\<leftarrow>vs. snd v) \<le> U64_MAX \<Longrightarrow>
   stakers_rewards rwd rate tot stakes acc =
     Some (fst acc @ zip (map owner stakes) (map fst vs), snd acc + (\<Sum>v\<leftarrow>vs. snd v))"
proof (induction stakes arbitrary: acc vs)
  case (Cons s stakes)
  then obtain v vs' where v: "stake_reward rwd rate (stake_power s) tot = Some v" "vs = v # vs'"
    "those (map (\<lambda>s. stake_reward rwd rate (stake_power s) tot) stakes) = Some vs'"
    by (auto split: option.split_asm)
  show ?case
    using Cons.IH[OF v(3), of "(fst acc @ [(owner s, fst v)], saturating_add (snd acc) (snd v))"]
      Cons.prems(2) v by (cases v) (simp add: saturating_add_exact)
qed simp

lemma no_stakes_rewards:
  "stakers_rewards rwd rate 0 stakes (rs, 0) = Some (rs @ map (\<lambda>k. (owner k, 0)) stakes, 0)"
  by (induction stakes arbitrary: rs) (simp_all add: stake_reward_def saturating_add_def)

text \<open>
  An epoch never pays out more than the reward of a pool. For a commission rate of at most a hundred
  per cent and stakes whose sum fits 64 bits, the reward loop of next epoch computes the reward of
  every staker without overflow, in the order of the stakes, and the stakers' rewards and what the
  operator gets, its own stake's reward and all the commission, are together at most the reward of
  the pool.
\<close>

lemma pool_payouts:
  assumes "pool_reward epoch (pl_power p) actual expected = Some rwd"
    and "pl_power p \<le> U64_MAX" and "actual \<le> U32_MAX" and "expected \<le> U32_MAX"
    and "pl_commission_rate p \<le> 100"
    and "own_stake p + (\<Sum>s\<leftarrow>stakes. stake_power s) \<le> U64_MAX"
  defines "tot \<equiv> total_stakes_of p stakes"
  shows "stakers_rewards rwd (pl_commission_rate p) tot stakes ([], 0) =
      Some (map (\<lambda>k. (owner k, net_share rwd (pl_commission_rate p) (stake_power k) tot)) stakes,
        \<Sum>k\<leftarrow>stakes. commission_on rwd (pl_commission_rate p) (stake_power k) tot)"
    and "stake_reward rwd 0 (own_stake p) tot = Some (rwd * own_stake p div tot, 0)"
    and "rwd * own_stake p div tot + (\<Sum>k\<leftarrow>stakes. commission_on rwd (pl_commission_rate p) (stake_power k) tot) +
      (\<Sum>k\<leftarrow>stakes. net_share rwd (pl_commission_rate p) (stake_power k) tot) \<le> rwd"
    and "rwd \<le> U64_MAX"
proof -
  let ?net = "\<lambda>k. net_share rwd (pl_commission_rate p) (stake_power k) tot"
    and ?fee = "\<lambda>k. commission_on rwd (pl_commission_rate p) (stake_power k) tot"
  show le: "rwd \<le> U64_MAX"
    using pool_reward_bound[OF assms(1-4)] assms(2) by linarith
  have goals: "stakers_rewards rwd (pl_commission_rate p) tot stakes ([], 0) =
      Some (map (\<lambda>k. (owner k, ?net k)) stakes, \<Sum>k\<leftarrow>stakes. ?fee k) \<and>
    stake_reward rwd 0 (own_stake p) tot = Some (rwd * own_stake p div tot, 0) \<and>
    rwd * own_stake p div tot + (\<Sum>k\<leftarrow>stakes. ?fee k) + (\<Sum>k\<leftarrow>stakes. ?net k) \<le> rwd"
  proof (cases "tot = 0")
    case True
    then show ?thesis
      using no_stakes_rewards[of rwd _ stakes "[]"] by (simp add: stake_reward_def net_share_def commission_on_def sum_list_0)
  next
    case False
    have fits: "own_stake p + sum_list (map stake_power stakes) \<le> tot" "tot \<le> U64_MAX" "0 < tot"
      using total_stakes_exact[OF assms(6)] assms(6) False unfolding tot_def by linarith+
    note within = rewards_within_pool[OF assms(1-5) fits]
    have sum: "(\<Sum>k\<leftarrow>stakes. ?net k + ?fee k) = (\<Sum>k\<leftarrow>stakes. ?net k) + (\<Sum>k\<leftarrow>stakes. ?fee k)"
      by (rule sum_list_addf)
    have zip: "zip (map owner stakes) (map ?net stakes) = map (\<lambda>k. (owner k, ?net k)) stakes"
      by (simp add: zip_map_map zip_same_conv_map)
    have "(\<Sum>k\<leftarrow>stakes. ?fee k) \<le> U64_MAX"
      using within(3) le sum by (simp add: comp_def)
    then have "stakers_rewards rwd (pl_commission_rate p) tot stakes ([], 0) =
        Some (map (\<lambda>k. (owner k, ?net k)) stakes, \<Sum>k\<leftarrow>stakes. ?fee k)"
      using stakers_rewards_those[of rwd "pl_commission_rate p" tot stakes "map (\<lambda>k. (?net k, ?fee k)) stakes" "([], 0)"]
        within(1) zip by (simp add: comp_def)
    then show ?thesis
      using within(2,3) sum by (simp add: comp_def)
  qed
  then show "stakers_rewards rwd (pl_commission_rate p) tot stakes ([], 0) =
      Some (map (\<lambda>k. (owner k, ?net k)) stakes, \<Sum>k\<leftarrow>stakes. ?fee k)"
    "stake_reward rwd 0 (own_stake p) tot = Some (rwd * own_stake p div tot, 0)"
    "rwd * own_stake p div tot + (\<Sum>k\<leftarrow>stakes. ?fee k) + (\<Sum>k\<leftarrow>stakes. ?net k) \<le> rwd"
    by blast+
qed

end
