(* ===== verification/Phases.thy ===== *)
theory Phases
  imports Example_State Rewards World_State_Commit
begin

text \<open>
  The first and the last phase of a transaction, \<^verbatim>\<open>src/execution/execute_commands/phases.rs\<close>. Both
  work on the world state below the cache, not through the gas meter. Arithmetic that the source
  writes with plain operators panics on overflow.
\<close>

section \<open>The phases\<close>

text \<open>The price of the whole gas limit, \<open>None\<close> when it does not fit 64 bits.\<close>

definition pre_charge_amount :: "('w, 'c, 'e) execution_state \<Rightarrow> u64 option" where
  "pre_charge_amount st = do {
     fee \<leftarrow> checked_add (this_base_fee (bd st)) (priority_fee_per_gas (txn_meta st));
     checked_mul (gas_limit (txn_meta st)) fee
   }"

definition pre_charge ::
  "('w, 'c, 'm, 'v) runtime \<Rightarrow> ('w, 'c, 'e) execution_state \<Rightarrow>
   (cmd_result \<times> ('w, 'c, 'e) execution_state) option" where
  "pre_charge R st =
     (let W = rt_ws R; meta = txn_meta st;
          (res, g) = charge_txn_pre_exec_inclusion (es_gm st) (version meta) (txn_size meta)
            (command_kinds meta);
          st = set_es_gm st g;
          s = es_cache st
      in case res of
           Inl e \<Rightarrow> Some (Inl e, st)
         | Inr _ \<Rightarrow> do {
             origin_nonce \<leftarrow> at_nonce W (ws s) (signer meta);
             if nonce meta \<noteq> origin_nonce then Some (Inl WrongNonce, st)
             else do {
               origin_balance \<leftarrow> at_balance W (ws s) (signer meta);
               case pre_charge_amount st of
                 None \<Rightarrow> Some (Inl NotEnoughBalanceForGasLimit, st)
               | Some amount \<Rightarrow>
                   (case checked_sub origin_balance amount of
                      None \<Rightarrow> Some (Inl NotEnoughBalanceForGasLimit, st)
                    | Some pre_charged_balance \<Rightarrow> do {
                        w \<leftarrow> at_set_balance W (ws s) (signer meta) pre_charged_balance;
                        Some (Ok, set_es_cache st (s\<lparr>ws := w\<rparr>))
                      })
             }
           })"

definition charge ::
  "('w, 'c, 'm, 'v) runtime \<Rightarrow> ('w, 'c, 'e) execution_state \<Rightarrow> ('w, 'c, 'e) execution_state option" where
  "charge R st = do {
     let W = rt_ws R;
     let signer_address = signer (txn_meta st);
     let base_fee = this_base_fee (bd st);
     let priority_fee = priority_fee_per_gas (txn_meta st);
     let gas_used = min (total_gas_used_for_executed_commands (es_gm st)) (gas_limit (txn_meta st));
     let gas_unused = saturating_sub (gas_limit (txn_meta st)) gas_used;

     (signer_balance, s) \<leftarrow> wsc_purge_balance W (es_cache st) signer_address;
     fee \<leftarrow> add_u64 base_fee priority_fee;
     refund \<leftarrow> mul_u64 gas_unused fee;
     new_signer_balance \<leftarrow> add_u64 signer_balance refund;

     let proposer = proposer_address (bd st);
     (proposer_balance, s) \<leftarrow> wsc_purge_balance W s proposer;
     let proposer_balance =
       (if signer_address = proposer then new_signer_balance else proposer_balance);
     tip \<leftarrow> mul_u64 gas_used priority_fee;
     let new_proposer_balance = saturating_add proposer_balance tip;

     let treasury = treasury_address (bd st);
     (treasury_balance, s) \<leftarrow> wsc_purge_balance W s treasury;
     let treasury_balance =
       (if signer_address = treasury then new_signer_balance else treasury_balance);
     let treasury_balance =
       (if proposer = treasury then new_proposer_balance else treasury_balance);
     burnt \<leftarrow> mul_u64 gas_used base_fee;
     cut \<leftarrow> mul_u64 burnt TREASURY_CUT_OF_BASE_FEE_NUM;
     cut \<leftarrow> div_u cut TREASURY_CUT_OF_BASE_FEE_DENOM;
     let new_treasury_balance = saturating_add treasury_balance cut;

     w \<leftarrow> at_set_balance W (ws s) signer_address new_signer_balance;
     w \<leftarrow> at_set_balance W w proposer new_proposer_balance;
     w \<leftarrow> at_set_balance W w treasury new_treasury_balance;

     origin_nonce \<leftarrow> at_nonce W w signer_address;
     w \<leftarrow> at_set_nonce W w signer_address (saturating_add origin_nonce 1);
     Some (set_es_cache st (s\<lparr>ws := w\<rparr>))
   }"

section \<open>Purging a balance\<close>

text \<open>What the settlement leaves alone: everything of the cache but balances and nonces.\<close>

definition same_contents :: "'w ws_ops \<Rightarrow> 'w world_state_cache \<Rightarrow> 'w world_state_cache \<Rightarrow> bool" where
  "same_contents W s s' \<longleftrightarrow> wsc_cbi_view W s' = wsc_cbi_view W s \<and>
     wsc_code_view W s' = wsc_code_view W s \<and> wsc_storage_view W s' = wsc_storage_view W s"

lemma same_contents_refl [simp]: "same_contents W s s"
  by (simp add: same_contents_def)

lemma same_contents_trans: "same_contents W s t \<Longrightarrow> same_contents W t u \<Longrightarrow> same_contents W s u"
  by (simp add: same_contents_def)

lemma same_contents_balances [simp]: "same_contents W s (t\<lparr>balances := c\<rparr>) \<longleftrightarrow> same_contents W s t"
  by (simp add: same_contents_def wsc_views)

lemma purge_balance_effect:
  assumes "wsc_purge_balance W s a = Some (b, s')" "wsc_inv W s"
  shows "wsc_balance_view W s a = Some b"
    and "map_of (writes (balances s')) = (map_of (writes (balances s)))(a := None)"
    and "ws s' = ws s" "wsc_inv W s'" "same_contents W s s'"
proof -
  obtain t where t: "wsc_balance W s a = Some (b, t)"
    "s' = t\<lparr>balances := (balances t)\<lparr>writes := AList.delete a (writes (balances t))\<rparr>\<rparr>"
    using assms(1) by (auto simp: wsc_purge_balance_def bind_convs)
  then show "wsc_balance_view W s a = Some b"
    using bal.get_answer[of W s a "Some b" t] assms(2) by (auto simp: wsc_inv_def)
  show "map_of (writes (balances s')) = (map_of (writes (balances s)))(a := None)"
    using t by (auto simp: wsc_balance_def bind_convs dest: cd_get_writes)
  show "ws s' = ws s" "wsc_inv W s'"
    using wsc_step_purge[OF assms(1)] assms(2) by (auto dest: wsc_step_ws wsc_step_inv)
  show "same_contents W s s'"
    using t by (auto simp: wsc_balance_def bind_convs)
qed

section \<open>Settlement\<close>

text \<open>
  What the charge phase promises: the signer gets the price of the unused gas back, the proposer
  the priority fee and the treasury a fifth of the base fee of the gas that was used, in this order
  and whichever of the three accounts coincide.
\<close>

definition credit ::
  "(public_address \<Rightarrow> u64 option) \<Rightarrow> public_address \<Rightarrow> u64 \<Rightarrow> public_address \<Rightarrow> u64 option" where
  "credit m a n = m(a := map_option (\<lambda>b. saturating_add b n) (m a))"

definition gas_charged :: "('w, 'c, 'e) execution_state \<Rightarrow> u64" where
  "gas_charged st = min (total_gas_used_for_executed_commands (es_gm st)) (gas_limit (txn_meta st))"

definition treasury_cut :: "u64 \<Rightarrow> u64 \<Rightarrow> u64" where
  "treasury_cut g base = g * base * 20 div 100"

definition settle ::
  "txn_metadata \<Rightarrow> blockchain_params \<Rightarrow> u64 \<Rightarrow> (public_address \<Rightarrow> u64 option) \<Rightarrow>
   public_address \<Rightarrow> u64 option" where
  "settle meta params g m =
     (let base = this_base_fee params; prio = priority_fee_per_gas meta
      in credit (credit (credit m
           (signer meta) ((gas_limit meta - g) * (base + prio)))
           (proposer_address params) (g * prio))
           (treasury_address params) (treasury_cut g base))"

lemma purge_three:
  assumes "wsc_purge_balance W s a = Some (b1, s1)" "wsc_purge_balance W s1 p = Some (b2, s2)"
    "wsc_purge_balance W s2 t = Some (b3, s3)" "wsc_inv W s"
  shows "wsc_balance_view W s a = Some b1" "p \<noteq> a \<Longrightarrow> wsc_balance_view W s p = Some b2"
    "t \<noteq> a \<Longrightarrow> t \<noteq> p \<Longrightarrow> wsc_balance_view W s t = Some b3"
    "map_of (writes (balances s3)) = (map_of (writes (balances s)))(a := None, p := None, t := None)"
    "ws s3 = ws s" "wsc_inv W s3" "same_contents W s s3"
proof -
  note e1 = purge_balance_effect[OF assms(1,4)]
  note e2 = purge_balance_effect[OF assms(2) e1(4)]
  note e3 = purge_balance_effect[OF assms(3) e2(4)]
  show "wsc_balance_view W s a = Some b1"
    by (rule e1(1))
  show "p \<noteq> a \<Longrightarrow> wsc_balance_view W s p = Some b2"
    using e2(1) e1(2,3) by (simp add: wsc_balance_view_def split: option.splits)
  show "t \<noteq> a \<Longrightarrow> t \<noteq> p \<Longrightarrow> wsc_balance_view W s t = Some b3"
    using e3(1) e2(2,3) e1(2,3) by (simp add: wsc_balance_view_def split: option.splits)
  show "map_of (writes (balances s3)) = (map_of (writes (balances s)))(a := None, p := None, t := None)"
    "ws s3 = ws s" "wsc_inv W s3" "same_contents W s s3"
    using e1(2,3) e2(2,3) e3(2-4) same_contents_trans[OF same_contents_trans[OF e1(5) e2(5)] e3(5)] by simp_all
qed

text \<open>The writes of the charge phase: \<open>refunded\<close> is the balance of the signer with its refund, \<open>tipped\<close>
  that of the proposer with its tip, and \<open>s\<close> the cache without the balances of the three.\<close>

lemma charge_steps:
  assumes "charge R st = Some st'" "W = rt_ws R" "ws_laws W" "a = signer (txn_meta st)"
    and "p = proposer_address (bd st)" "t = treasury_address (bd st)"
    and "base = this_base_fee (bd st)" "prio = priority_fee_per_gas (txn_meta st)" "g = gas_charged st"
  obtains b1 s1 b2 s2 b3 s w refunded tipped n where
    "wsc_purge_balance W (es_cache st) a = Some (b1, s1)"
    "wsc_purge_balance W s1 p = Some (b2, s2)" "wsc_purge_balance W s2 t = Some (b3, s)"
    "refunded = b1 + (gas_limit (txn_meta st) - g) * (base + prio)" "refunded \<le> U64_MAX"
    "tipped = saturating_add (if a = p then refunded else b2) (g * prio)"
    "at_balance W w = (at_balance W (ws s))(a := Some refunded, p := Some tipped,
       t := Some (saturating_add (if p = t then tipped else if a = t then refunded else b3) (treasury_cut g base)))"
    "at_nonce W (ws s) a = Some n" "at_nonce W w = (at_nonce W (ws s))(a := Some (saturating_add n 1))"
    "at_cbi_version W w = at_cbi_version W (ws s)" "at_code W w = at_code W (ws s)" "st_get W w = st_get W (ws s)"
    "st' = set_es_cache st (s\<lparr>ws := w\<rparr>)"
proof -
  from assms(1) obtain b1 s1 b2 s2 b3 s w1 w2 w3 n w refunded tipped where
    purge: "wsc_purge_balance W (es_cache st) a = Some (b1, s1)"
      "wsc_purge_balance W s1 p = Some (b2, s2)" "wsc_purge_balance W s2 t = Some (b3, s)" and
    amounts: "refunded = b1 + (gas_limit (txn_meta st) - g) * (base + prio)" "refunded \<le> U64_MAX"
      "tipped = saturating_add (if a = p then refunded else b2) (g * prio)" and
    put: "at_set_balance W (ws s) a refunded = Some w1" "at_set_balance W w1 p tipped = Some w2"
      "at_set_balance W w2 t (saturating_add
         (if p = t then tipped else if a = t then refunded else b3) (treasury_cut g base)) = Some w3" and
    nn: "at_nonce W w3 a = Some n" "at_set_nonce W w3 a (saturating_add n 1) = Some w" and
    st': "st' = set_es_cache st (s\<lparr>ws := w\<rparr>)"
    unfolding charge_def Let_def
    by (elim bind_pairE bind_SomeE)
      (simp only: assms(2,4-9) checked_Some reward_consts saturating_sub_def gas_charged_def
        treasury_cut_def option.inject)
  note laws = ws_laws_balance[OF assms(3) put(1)] ws_laws_balance[OF assms(3) put(2)]
    ws_laws_balance[OF assms(3) put(3)] ws_laws_nonce[OF assms(3) nn(2)]
  show thesis
    using that[OF purge amounts _ _ _ _ _ _ st'] laws nn(1) by simp
qed

lemma charge_effect:
  assumes "charge R st = Some st'" "ws_laws (rt_ws R)" "wsc_inv (rt_ws R) (es_cache st)"
  shows "wsc_balance_view (rt_ws R) (es_cache st') =
      settle (txn_meta st) (bd st) (gas_charged st) (wsc_balance_view (rt_ws R) (es_cache st))"
    and "at_nonce (rt_ws R) (ws (es_cache st')) =
      (at_nonce (rt_ws R) (ws (es_cache st)))(signer (txn_meta st) :=
         map_option (\<lambda>n. saturating_add n 1) (at_nonce (rt_ws R) (ws (es_cache st)) (signer (txn_meta st))))"
    and "same_contents (rt_ws R) (es_cache st) (es_cache st')"
    and "wsc_writes_distinct (es_cache st')"
    and "st' = set_es_cache st (es_cache st')"
proof -
  let ?W = "rt_ws R" and ?a = "signer (txn_meta st)" and ?p = "proposer_address (bd st)"
    and ?t = "treasury_address (bd st)" and ?base = "this_base_fee (bd st)"
    and ?prio = "priority_fee_per_gas (txn_meta st)" and ?g = "gas_charged st"
  obtain b1 s1 b2 s2 b3 s w refunded tipped n where
    purge: "wsc_purge_balance ?W (es_cache st) ?a = Some (b1, s1)"
      "wsc_purge_balance ?W s1 ?p = Some (b2, s2)" "wsc_purge_balance ?W s2 ?t = Some (b3, s)" and
    amounts: "refunded = b1 + (gas_limit (txn_meta st) - ?g) * (?base + ?prio)" "refunded \<le> U64_MAX"
      "tipped = saturating_add (if ?a = ?p then refunded else b2) (?g * ?prio)" and
    world: "at_balance ?W w = (at_balance ?W (ws s))(?a := Some refunded, ?p := Some tipped,
        ?t := Some (saturating_add (if ?p = ?t then tipped else if ?a = ?t then refunded else b3)
          (treasury_cut ?g ?base)))"
      "at_nonce ?W (ws s) ?a = Some n" "at_nonce ?W w = (at_nonce ?W (ws s))(?a := Some (saturating_add n 1))"
      "at_cbi_version ?W w = at_cbi_version ?W (ws s)" "at_code ?W w = at_code ?W (ws s)"
      "st_get ?W w = st_get ?W (ws s)" and
    st': "st' = set_es_cache st (s\<lparr>ws := w\<rparr>)"
    by (rule charge_steps[OF assms(1) refl assms(2) refl refl refl refl refl refl])
  note e = purge_three[OF purge assms(3)]
  have cache: "es_cache st' = s\<lparr>ws := w\<rparr>"
    by (simp add: st' es_cache_def set_es_cache_def)
  show "st' = set_es_cache st (es_cache st')"
    using st' cache by simp
  show "at_nonce ?W (ws (es_cache st')) = (at_nonce ?W (ws (es_cache st)))(?a :=
      map_option (\<lambda>n. saturating_add n 1) (at_nonce ?W (ws (es_cache st)) ?a))"
    using world(2,3) e(5) by (simp add: cache)
  have "same_contents ?W s (s\<lparr>ws := w\<rparr>)"
    using world by (simp add: same_contents_def wsc_views wsc_storage_base_def)
  then show "same_contents ?W (es_cache st) (es_cache st')"
    using e(7) by (simp add: cache same_contents_trans)
  show "wsc_writes_distinct (es_cache st')"
    using e(6) by (simp add: cache wsc_inv_def wsc_writes_distinct_def)
  have "wsc_balance_view ?W (es_cache st') x = settle (txn_meta st) (bd st) ?g (wsc_balance_view ?W (es_cache st)) x" for x
    using e(1-5) world(1) amounts
    by (cases "x \<in> {?a, ?p, ?t}")
      (auto simp: cache wsc_balance_view_def[of _ "s\<lparr>ws := w\<rparr>"] wsc_balance_view_def[of _ "es_cache st" x]
        settle_def Let_def credit_def saturating_add_exact split: option.split)
  then show "wsc_balance_view ?W (es_cache st') = settle (txn_meta st) (bd st) ?g (wsc_balance_view ?W (es_cache st))"
    by (rule ext)
qed

section \<open>The pre-charge phase\<close>

lemma pre_charge_ok:
  assumes "pre_charge R st = Some (Ok, st')"
  obtains amount b w g where
    "charge_txn_pre_exec_inclusion (es_gm st) (version (txn_meta st)) (txn_size (txn_meta st))
       (command_kinds (txn_meta st)) = (Ok, g)"
    "pre_charge_amount st = Some amount"
    "at_nonce (rt_ws R) (ws (es_cache st)) (signer (txn_meta st)) = Some (nonce (txn_meta st))"
    "at_balance (rt_ws R) (ws (es_cache st)) (signer (txn_meta st)) = Some b" "amount \<le> b"
    "at_set_balance (rt_ws R) (ws (es_cache st)) (signer (txn_meta st)) (b - amount) = Some w"
    "st' = set_es_cache (set_es_gm st g) ((es_cache st)\<lparr>ws := w\<rparr>)"
proof -
  obtain res g where g: "charge_txn_pre_exec_inclusion (es_gm st) (version (txn_meta st))
      (txn_size (txn_meta st)) (command_kinds (txn_meta st)) = (res, g)"
    by fastforce
  then have "es_cache (set_es_gm st g) = es_cache st" "pre_charge_amount (set_es_gm st g) = pre_charge_amount st"
    by (auto simp: charge_txn_pre_exec_inclusion_def Let_def es_cache_def set_es_gm_def
        gas_free_ws_cache_def es_gm_def pre_charge_amount_def split: if_split_asm)
  with assms g that show thesis
    by (auto simp: pre_charge_def Let_def bind_convs checked_Some
        split: sum.split_asm option.split_asm if_split_asm)
qed

lemma pre_charge_err:
  assumes "pre_charge R st = Some (Inl e, st')"
  shows "es_cache st' = es_cache st" "txn_meta st' = txn_meta st" "bd st' = bd st"
    "receipt_buf st' = receipt_buf st" "e \<in> {PreExecutionGasExhausted, WrongNonce, NotEnoughBalanceForGasLimit}"
  using assms
  by (auto simp: pre_charge_def Let_def bind_convs charge_txn_pre_exec_inclusion_def es_cache_def
      set_es_gm_def gas_free_ws_cache_def es_gm_def
      split: sum.split_asm option.split_asm if_split_asm)

section \<open>Laws of the settlement\<close>

lemma gas_charged_le: "gas_charged st \<le> gas_limit (txn_meta st)"
  by (simp add: gas_charged_def)

lemma fees_within_pre_charge:
  assumes "g \<le> (limit::nat)"
  shows "(limit - g) * (base + prio) + g * prio + treasury_cut g base \<le> limit * (base + prio)"
proof -
  have "treasury_cut g base \<le> g * base"
    unfolding treasury_cut_def using div_le_mono[of "g * base * 20" "g * base * 100" 100] by simp
  moreover have "(limit - g) * (base + prio) + g * (base + prio) = limit * (base + prio)"
    using assms by (metis add_mult_distrib le_add_diff_inverse2)
  ultimately show ?thesis
    by (simp add: distrib_left)
qed

lemma sum_credit_le:
  assumes "finite A" "a \<in> A"
  shows "(\<Sum>x\<in>A. the (credit m a n x)) \<le> (\<Sum>x\<in>A. the (m x)) + n"
proof (cases "m a")
  case None
  then show ?thesis by (simp add: credit_def fun_upd_idem)
next
  case (Some b)
  have "(\<Sum>x\<in>A. the (credit m a n x)) = saturating_add b n + (\<Sum>x\<in>A - {a}. the (m x))"
    using assms Some by (simp add: sum.remove credit_def)
  moreover have "(\<Sum>x\<in>A. the (m x)) = b + (\<Sum>x\<in>A - {a}. the (m x))"
    using assms Some by (simp add: sum.remove)
  moreover have "saturating_add b n \<le> b + n"
    by (simp add: saturating_add_def)
  ultimately show ?thesis by linarith
qed

text \<open>C15: The charge phase creates no money: over any finite set of accounts that holds the signer, the
  proposer and the treasury, whichever of them coincide, the balances after the settlement sum up
  to at most those before it and the amount that the pre-charge phase had taken from the signer.\<close>

theorem charge_creates_no_money:
  assumes "charge R st = Some st'" and "ws_laws (rt_ws R)" and "wsc_inv (rt_ws R) (es_cache st)"
    and "pre_charge_amount st = Some amount" and "finite A"
    and "{signer (txn_meta st), proposer_address (bd st), treasury_address (bd st)} \<subseteq> A"
  shows "(\<Sum>x\<in>A. the (wsc_balance_view (rt_ws R) (es_cache st') x)) \<le>
    (\<Sum>x\<in>A. the (wsc_balance_view (rt_ws R) (es_cache st) x)) + amount"
proof -
  define g base prio where "g = gas_charged st" and "base = this_base_fee (bd st)"
    and "prio = priority_fee_per_gas (txn_meta st)"
  have amount: "amount = gas_limit (txn_meta st) * (base + prio)"
    using assms(4) by (auto simp: pre_charge_amount_def checked_Some bind_convs base_def prio_def)
  let ?m = "wsc_balance_view (rt_ws R) (es_cache st)"
  define m1 where "m1 = credit ?m (signer (txn_meta st)) ((gas_limit (txn_meta st) - g) * (base + prio))"
  define m2 where "m2 = credit m1 (proposer_address (bd st)) (g * prio)"
  define m3 where "m3 = credit m2 (treasury_address (bd st)) (treasury_cut g base)"
  have view: "wsc_balance_view (rt_ws R) (es_cache st') = m3"
    by (simp add: charge_effect(1)[OF assms(1-3)] settle_def Let_def m1_def m2_def m3_def g_def
        base_def prio_def)
  have "(\<Sum>x\<in>A. the (m1 x)) \<le> (\<Sum>x\<in>A. the (?m x)) + (gas_limit (txn_meta st) - g) * (base + prio)"
    "(\<Sum>x\<in>A. the (m2 x)) \<le> (\<Sum>x\<in>A. the (m1 x)) + g * prio"
    "(\<Sum>x\<in>A. the (m3 x)) \<le> (\<Sum>x\<in>A. the (m2 x)) + treasury_cut g base"
    unfolding m1_def m2_def m3_def by (rule sum_credit_le[OF assms(5)]; use assms(6) in blast)+
  moreover note fees_within_pre_charge[OF gas_charged_le[of st], of base prio, folded g_def]
  ultimately show ?thesis
    unfolding view amount by linarith
qed

lemma example_charge:
  "\<exists>st'. charge kv_runtime (cmd_state V1 1000) = Some st'"
  by (simp add: charge_def wsc_purge_balance_def runtime_evals example_block_def es_cache_def
      gas_free_ws_cache_def checked_defs div_u_def reward_consts cong: eval_congs)

lemma example_pre_charge: "pre_charge_amount (cmd_state V1 1000) = Some 9000"
  by (simp add: pre_charge_amount_def runtime_evals example_block_def checked_defs)

lemma example_parties:
  "proposer_address (bd (cmd_state V1 limit)) = 2" "treasury_address (bd (cmd_state V1 limit)) = 3"
  "this_base_fee (bd (cmd_state V1 limit)) = 8" "gas_limit (txn_meta (cmd_state V1 limit)) = limit"
  by (simp_all add: cmd_state_def state_evals example_block_def)

theorem charge_creates_no_money_witness:
  "\<exists>st'. charge kv_runtime (cmd_state V1 1000) = Some st' \<and>
     (\<Sum>x\<in>{1, 2, 3}. the (wsc_balance_view kv_ops (es_cache st') x)) \<le> 1000009000"
proof -
  obtain st' where run: "charge kv_runtime (cmd_state V1 1000) = Some st'"
    using example_charge by blast
  have "(\<Sum>x\<in>{1, 2, 3}. the (wsc_balance_view kv_ops (es_cache st') x)) \<le>
      (\<Sum>x\<in>{1, 2, 3}. the (wsc_balance_view kv_ops (es_cache (cmd_state V1 1000)) x)) + 9000"
    using charge_creates_no_money[OF run _ _ example_pre_charge, of "{1, 2, 3}"]
    by (simp add: example_parties kv_ops_laws)
  with run show ?thesis
    by simp
qed

lemma wsc_purge_total:
  assumes "wsc_inv W s" "\<And>a. at_balance W (ws s) a \<noteq> None"
  shows "\<exists>b s'. wsc_purge_balance W s a = Some (b, s')"
proof -
  have "wsc_balance_view W s a \<noteq> None"
    using assms(2) by (simp add: wsc_balance_view_def split: option.split)
  then have "wsc_balance W s a \<noteq> None"
    using bal.get_panic[of W s a] assms(1) by (auto simp: wsc_inv_def)
  then show ?thesis
    by (auto simp: wsc_purge_balance_def)
qed

lemma total_fun3:
  assumes "\<And>x y z. f x y z \<noteq> None"
  obtains h where "\<And>x y z. f x y z = Some (h x y z)"
  using assms that[of "\<lambda>x y z. the (f x y z)"] by simp

text \<open>C18: The charge phase returns after every pre-charge that succeeded, as long as the tries can be
  read and written, the signer's balance has room for the amount that was taken, and twenty times
  the base fee of the whole gas limit fits 64 bits.\<close>

theorem charge_returns:
  assumes "ws_laws (rt_ws R)" and "ws_writable (rt_ws R)" and "wsc_inv (rt_ws R) (es_cache st)"
    and "\<forall>w a. at_balance (rt_ws R) w a \<noteq> None \<and> at_nonce (rt_ws R) w a \<noteq> None"
    and "pre_charge_amount st = Some amount"
    and "the (wsc_balance_view (rt_ws R) (es_cache st) (signer (txn_meta st))) + amount \<le> U64_MAX"
    and "gas_limit (txn_meta st) * this_base_fee (bd st) * 20 \<le> U64_MAX"
  shows "\<exists>st'. charge R st = Some st'"
proof -
  let ?W = "rt_ws R"
  define g where "g = gas_charged st"
  have g: "g \<le> gas_limit (txn_meta st)"
    by (simp add: g_def gas_charged_le)
  obtain b1 s1 where p1: "wsc_purge_balance ?W (es_cache st) (signer (txn_meta st)) = Some (b1, s1)"
    using wsc_purge_total[OF assms(3)] assms(4) by blast
  note e1 = purge_balance_effect[OF p1 assms(3)]
  obtain b2 s2 where p2: "wsc_purge_balance ?W s1 (proposer_address (bd st)) = Some (b2, s2)"
    using wsc_purge_total[OF e1(4)] assms(4) by blast
  obtain b3 s3 where p3: "wsc_purge_balance ?W s2 (treasury_address (bd st)) = Some (b3, s3)"
    using wsc_purge_total[OF purge_balance_effect(4)[OF p2 e1(4)]] assms(4) by blast
  define base prio where "base = this_base_fee (bd st)" and "prio = priority_fee_per_gas (txn_meta st)"
  have amount: "base + prio \<le> U64_MAX" "amount = gas_limit (txn_meta st) * (base + prio)" "amount \<le> U64_MAX"
    using assms(5) by (auto simp: pre_charge_amount_def bind_convs checked_Some base_def prio_def)
  have room: "b1 + amount \<le> U64_MAX"
    using assms(6) e1(1) by simp
  have "(gas_limit (txn_meta st) - g) * (base + prio) \<le> amount" "g * prio \<le> amount"
    unfolding amount(2) using g by (intro mult_le_mono; simp)+
  moreover have "g * base \<le> gas_limit (txn_meta st) * base"
    using g by simp
  ultimately have fits: "(gas_limit (txn_meta st) - g) * (base + prio) \<le> U64_MAX" "g * prio \<le> U64_MAX"
    "b1 + (gas_limit (txn_meta st) - g) * (base + prio) \<le> U64_MAX"
    "g * base \<le> U64_MAX" "g * base * 20 \<le> U64_MAX"
    using amount(3) room assms(7)[folded base_def] by linarith+
  obtain set_bal where bal: "\<And>w a v. at_set_balance ?W w a v = Some (set_bal w a v)"
    using total_fun3[of "at_set_balance ?W"] assms(2) by (auto simp: ws_writable_def)
  obtain set_non where non: "\<And>w a v. at_set_nonce ?W w a v = Some (set_non w a v)"
    using total_fun3[of "at_set_nonce ?W"] assms(2) by (auto simp: ws_writable_def)
  obtain n where n: "\<And>w a. at_nonce ?W w a = Some (n w a)"
    using assms(4) by (intro that[of "\<lambda>w a. the (at_nonce ?W w a)"]) simp
  show ?thesis
    unfolding charge_def Let_def
    using fits amount(1)
    by (simp add: p1 p2 p3 checked_defs div_u_def reward_consts saturating_sub_def bal non n
        base_def[symmetric] prio_def[symmetric] g_def[unfolded gas_charged_def, symmetric]
        split del: if_split cong: eval_congs if_weak_cong)
qed

theorem charge_returns_witness:
  "pre_charge_amount (cmd_state V1 1000) = Some 9000 \<and>
   (\<exists>st'. charge kv_runtime (cmd_state V1 1000) = Some st')"
proof -
  have "\<forall>w a. at_balance kv_ops w a \<noteq> None \<and> at_nonce kv_ops w a \<noteq> None"
    by (simp add: kv_ops_def)
  then show ?thesis
    using charge_returns[of kv_runtime "cmd_state V1 1000" 9000] example_pre_charge
    by (simp add: example_parties kv_ops_laws kv_ops_writable U64_MAX_def)
qed

text \<open>C36: The last of these conditions is needed: the treasury's cut is computed as a product of three
  64-bit factors before it is divided, so the phase panics when twenty times the base fee of the
  gas that was used does not fit 64 bits, although the fee itself and the pre-charge do.\<close>

theorem charge_overflow_panics:
  assumes "U64_MAX < gas_charged st * this_base_fee (bd st) * 20"
  shows "charge R st = None"
proof (rule ccontr)
  assume "charge R st \<noteq> None"
  then obtain st' where "charge R st = Some st'"
    by blast
  then have "gas_charged st * this_base_fee (bd st) * 20 \<le> U64_MAX"
    unfolding charge_def Let_def
    by (elim bind_pairE bind_SomeE) (simp only: checked_Some reward_consts gas_charged_def)
  with assms show False
    by simp
qed

text \<open>An execution whose commands have used up a gas limit of ten to the eighteen.\<close>

definition spent_state :: "(kv_world, dir, unit) execution_state" where
  "spent_state = set_es_gm (cmd_state V1 (10 ^ 18))
     ((es_gm (cmd_state V1 (10 ^ 18)))\<lparr>gas_used_for_executed_commands := 10 ^ 18\<rparr>)"

theorem charge_overflow_panics_witness:
  "pre_charge_amount spent_state = Some (9 * 10 ^ 18) \<and> charge kv_runtime spent_state = None"
proof -
  have "gas_charged spent_state = 10 ^ 18" "this_base_fee (bd spent_state) = 8"
    by (simp_all add: spent_state_def gas_charged_def cmd_state_def state_evals gm_new_def
        saturating_add_def U64_MAX_def example_block_def)
  then have "charge kv_runtime spent_state = None"
    by (intro charge_overflow_panics) (simp add: U64_MAX_def)
  moreover have "pre_charge_amount spent_state = Some (9 * 10 ^ 18)"
    by (simp add: spent_state_def pre_charge_amount_def cmd_state_def state_evals example_block_def
        checked_defs U64_MAX_def)
  ultimately show ?thesis
    by simp
qed

end
