(* ===== verification/Executor.thy ===== *)
theory Executor
  imports Protocol_Commands Phases
begin

text \<open>
  The execution of a transaction's commands: the dispatch of \<^verbatim>\<open>src/execution/execute.rs\<close> and the three
  phases of \<^verbatim>\<open>src/execution/execute_commands/executor.rs\<close>. The stack of executable commands is a list
  whose last element is on top. The trait \<^verbatim>\<open>CommandStrategy\<close> has two implementations that differ only
  in the receipt types; its handlers are defined once over the version-specific parts \<open>finalize_ops\<close>.

  The loop terminates because only a command of the transaction can push deferred commands. Its
  runs are also given as a step relation, on which the invariants are proved by rule induction.
\<close>

section \<open>Dispatch\<close>

text \<open>A \<open>NextEpoch\<close> command is \<^verbatim>\<open>unreachable!\<close> here, a panic.\<close>

fun execute ::
  "('w, 'c, 'm, 'v) runtime \<Rightarrow> ('w, 'c, 'e) execution_state \<Rightarrow> usize \<Rightarrow> public_address \<Rightarrow> command \<Rightarrow>
   (cmd_result \<times> ('w, 'c, 'e) execution_state) option" where
  "execute R st command_index actor (Transfer recipient amount) = transfer R st recipient amount"
| "execute R st command_index actor (Deploy contract cbi_version) =
     deploy R st (command_index mod 2 ^ 32) contract cbi_version"
| "execute R st command_index actor (Call target method args amount) =
     call R st False target method args amount"
| "execute R st command_index actor (CreatePool rate) = create_pool R actor st rate"
| "execute R st command_index actor (SetPoolSettings rate) = set_pool_settings R actor st rate"
| "execute R st command_index actor DeletePool = delete_pool R actor st"
| "execute R st command_index actor (CreateDeposit operator balance auto_stake_rewards) =
     create_deposit R actor st operator balance auto_stake_rewards"
| "execute R st command_index actor (SetDepositSettings operator auto_stake_rewards) =
     set_deposit_settings R actor st operator auto_stake_rewards"
| "execute R st command_index actor (TopUpDeposit operator amount) =
     topup_deposit R actor st operator amount"
| "execute R st command_index actor (WithdrawDeposit operator max_amount) =
     withdraw_deposit R actor st operator max_amount"
| "execute R st command_index actor (StakeDeposit operator max_amount) =
     stake_deposit R actor st operator max_amount"
| "execute R st command_index actor (UnstakeDeposit operator max_amount) =
     unstake_deposit R actor st operator max_amount"
| "execute R st command_index actor NextEpoch = None"

definition execute_command ::
  "('w, 'c, 'm, 'v) runtime \<Rightarrow> command \<Rightarrow> ('w, 'c, 'e) execution_state \<Rightarrow> usize \<Rightarrow>
   (cmd_result \<times> ('w, 'c, 'e) execution_state) option" where
  "execute_command R cmd st command_index = execute R st command_index (signer (txn_meta st)) cmd"

definition execute_deferred_command ::
  "('w, 'c, 'm, 'v) runtime \<Rightarrow> deferred_command \<Rightarrow> ('w, 'c, 'e) execution_state \<Rightarrow> usize \<Rightarrow>
   (cmd_result \<times> ('w, 'c, 'e) execution_state) option" where
  "execute_deferred_command R d st command_index =
     execute R st command_index (contract_address d) (dc_command d)"

section \<open>The stack\<close>

datatype executable_command =
    TransactionCommmand command
  | DeferredCommand deferred_command

type_synonym executable_commands = "executable_command list"

fun is_txn_sent :: "executable_command \<Rightarrow> bool" where
  "is_txn_sent (TransactionCommmand _) = True"
| "is_txn_sent (DeferredCommand _) = False"

fun ec_command_kind :: "executable_command \<Rightarrow> command_kind" where
  "ec_command_kind (TransactionCommmand cmd) = command_kind_of cmd"
| "ec_command_kind (DeferredCommand d) = command_kind_of (dc_command d)"

fun consume_and_execute ::
  "('w, 'c, 'm, 'v) runtime \<Rightarrow> executable_command \<Rightarrow> ('w, 'c, 'e) execution_state \<Rightarrow> usize \<Rightarrow>
   (cmd_result \<times> ('w, 'c, 'e) execution_state) option" where
  "consume_and_execute R (TransactionCommmand cmd) st i = execute_command R cmd st i"
| "consume_and_execute R (DeferredCommand d) st i = execute_deferred_command R d st i"

definition executable_commands_new :: "command list \<Rightarrow> executable_commands" where
  "executable_commands_new commands = rev (map TransactionCommmand commands)"

definition push_deferred_commands ::
  "executable_commands \<Rightarrow> deferred_command list \<Rightarrow> executable_commands" where
  "push_deferred_commands stack commands = stack @ rev (map DeferredCommand commands)"

definition next_command ::
  "executable_commands \<Rightarrow> (executable_command \<times> executable_commands) option" where
  "next_command stack = (if stack = [] then None else Some (last stack, butlast stack))"

section \<open>Results and handlers\<close>

record ('w, 'r) transition_result =
  new_state :: 'w
  receipt :: "'r option"
  tr_error :: "transition_error option"
  tr_validator_changes :: "validator_changes option"

definition handle_precharge_error ::
  "('w, 'c, 'm, 'v) runtime \<Rightarrow> ('e, 'r) finalize_ops \<Rightarrow> ('w, 'c, 'e) execution_state \<Rightarrow>
   transition_error \<Rightarrow> ('w, 'r) transition_result option" where
  "handle_precharge_error R F st e = do {
     (w, _) \<leftarrow> finalize_receipt R F st;
     Some \<lparr>new_state = w, receipt = None, tr_error = Some e, tr_validator_changes = None\<rparr>
   }"

definition handle_command_execution_result ::
  "('e, 'r) finalize_ops \<Rightarrow> ('w, 'c, 'e) execution_state \<Rightarrow> command_kind \<Rightarrow> cmd_result \<Rightarrow> bool \<Rightarrow>
   deferred_command list option \<times> ('w, 'c, 'e) execution_state" where
  "handle_command_execution_result F st kind res is_user_sent =
     (if is_user_sent then finalize_cmd_receipt_collect_deferred F st kind res
      else (None, finalize_deferred_cmd_receipt F st kind res))"

definition handle_abort ::
  "('w, 'c, 'm, 'v) runtime \<Rightarrow> ('e, 'r) finalize_ops \<Rightarrow> ('w, 'c, 'e) execution_state \<Rightarrow>
   transition_error \<Rightarrow> ('w, 'r) transition_result option" where
  "handle_abort R F st e = do {
     st \<leftarrow> charge R st;
     (w, r) \<leftarrow> finalize_receipt R F st;
     Some \<lparr>new_state = w, receipt = Some r, tr_error = Some e, tr_validator_changes = None\<rparr>
   }"

definition handle_charge ::
  "('w, 'c, 'm, 'v) runtime \<Rightarrow> ('e, 'r) finalize_ops \<Rightarrow> ('w, 'c, 'e) execution_state \<Rightarrow>
   ('w, 'r) transition_result option" where
  "handle_charge R F st = do {
     st \<leftarrow> charge R st;
     (w, r) \<leftarrow> finalize_receipt R F st;
     Some \<lparr>new_state = w, receipt = Some r, tr_error = None, tr_validator_changes = None\<rparr>
   }"

section \<open>The loop\<close>

lemma next_command_Some: "next_command stack = Some (cmd, rest) \<longleftrightarrow> stack = rest @ [cmd]"
  by (cases stack rule: rev_cases) (auto simp: next_command_def)

lemma next_command_None: "next_command stack = None \<longleftrightarrow> stack = []"
  by (simp add: next_command_def)

text \<open>The number of commands of the transaction that are still on the stack.\<close>

abbreviation sent_commands :: "executable_commands \<Rightarrow> nat" where
  "sent_commands stack \<equiv> length (filter is_txn_sent stack)"

definition pushed ::
  "executable_commands \<Rightarrow> deferred_command list option \<Rightarrow> executable_commands" where
  "pushed stack deferred =
     (case deferred of Some ds \<Rightarrow> push_deferred_commands stack ds | None \<Rightarrow> stack)"

lemma sent_pushed [simp]: "sent_commands (pushed stack deferred) = sent_commands stack"
  by (simp add: pushed_def push_deferred_commands_def rev_filter[symmetric] filter_empty_conv
      split: option.split)

lemma pushed_None [simp]: "pushed stack None = stack"
  by (simp add: pushed_def)

function execute_loop ::
  "('w, 'c, 'm, 'v) runtime \<Rightarrow> ('e, 'r) finalize_ops \<Rightarrow> executable_commands \<Rightarrow> usize \<Rightarrow>
   ('w, 'c, 'e) execution_state \<Rightarrow> ('w, 'r) transition_result option" where
  "execute_loop R F stack command_index st =
     (case next_command stack of
        None \<Rightarrow> handle_charge R F st
      | Some (executable_cmd, stack) \<Rightarrow> do {
          (res, st) \<leftarrow> consume_and_execute R executable_cmd st command_index;
          let (deferred, st) = handle_command_execution_result F st (ec_command_kind executable_cmd)
            res (is_txn_sent executable_cmd);
          case res of
            Inl e \<Rightarrow> handle_abort R F st e
          | Inr _ \<Rightarrow> execute_loop R F (pushed stack deferred)
              (if is_txn_sent executable_cmd then command_index + 1 else command_index) st
        })"
  by pat_completeness auto

termination
  by (relation "measures [\<lambda>(R, F, stack, i, st). sent_commands stack, \<lambda>(R, F, stack, i, st). length stack]")
    (auto simp: next_command_Some handle_command_execution_result_def split: if_splits)

definition execute_commands ::
  "('w, 'c, 'm, 'v) runtime \<Rightarrow> ('e, 'r) finalize_ops \<Rightarrow> ('w, 'c, 'e) execution_state \<Rightarrow>
   command list \<Rightarrow> ('w, 'r) transition_result option" where
  "execute_commands R F st commands = do {
     (res, st) \<leftarrow> pre_charge R st;
     case res of
       Inl e \<Rightarrow> handle_precharge_error R F st e
     | Inr _ \<Rightarrow> execute_loop R F (executable_commands_new commands) 0 st
   }"

definition execute_commands_v1 ::
  "('w, 'c, 'm, 'v) runtime \<Rightarrow> ('w, 'c, command_receipt_v1) execution_state \<Rightarrow> command list \<Rightarrow>
   ('w, receipt_v1) transition_result option" where
  "execute_commands_v1 R = execute_commands R finalize_v1"

definition execute_commands_v2 ::
  "('w, 'c, 'm, 'v) runtime \<Rightarrow> ('w, 'c, command_receipt_v2) execution_state \<Rightarrow> command list \<Rightarrow>
   ('w, receipt_v2) transition_result option" where
  "execute_commands_v2 R = execute_commands R finalize_v2"

declare execute_loop.simps [simp del]

section \<open>What a command may touch\<close>

fun writes_balance ::
  "('w, 'c, 'm, 'v) runtime \<Rightarrow> txn_metadata \<Rightarrow> public_address \<Rightarrow> command \<Rightarrow> public_address set" where
  "writes_balance R meta actor (Transfer recipient _) = {signer meta, recipient}"
| "writes_balance R meta actor (Call _ _ _ _) = UNIV"
| "writes_balance R meta actor (CreateDeposit _ _ _) = {actor}"
| "writes_balance R meta actor (TopUpDeposit _ _) = {actor}"
| "writes_balance R meta actor (WithdrawDeposit _ _) = {actor}"
| "writes_balance R meta actor _ = {}"

fun writes_code ::
  "('w, 'c, 'm, 'v) runtime \<Rightarrow> txn_metadata \<Rightarrow> usize \<Rightarrow> command \<Rightarrow> public_address set" where
  "writes_code R meta i (Deploy _ _) = {deploy_address R meta (i mod 2 ^ 32)}"
| "writes_code R meta i _ = {}"

fun writes_storage :: "('w, 'c, 'm, 'v) runtime \<Rightarrow> command \<Rightarrow> public_address set" where
  "writes_storage R (Transfer _ _) = {}"
| "writes_storage R (Deploy _ _) = {}"
| "writes_storage R (Call _ _ _ _) = UNIV"
| "writes_storage R _ = {NETWORK_ADDRESS (rt_net R)}"

fun may_defer :: "command \<Rightarrow> deferred_command \<Rightarrow> bool" where
  "may_defer (Call _ _ _ _) d = defer_ok d"
| "may_defer _ d = False"

lemmas command_posts = transfer_cmd.run_post call_cmd.run_post deploy_cmd.run_post
  create_pool_cmd.run_post set_pool_settings_cmd.run_post delete_pool_cmd.run_post
  create_deposit_cmd.run_post set_deposit_settings_cmd.run_post topup_deposit_cmd.run_post
  withdraw_deposit_cmd.run_post stake_deposit_cmd.run_post unstake_deposit_cmd.run_post

interpretation exec: atomic_command "rt_ws R"
  "\<lambda>st. writes_balance R (txn_meta st) actor cmd" "\<lambda>st. writes_code R (txn_meta st) i cmd"
  "\<lambda>st. writes_storage R cmd" "may_defer cmd" "\<lambda>st. execute R st i actor cmd"
  for R :: "('w, 'c, 'm, 'v) runtime" and i actor cmd
  by unfold_locales
    (cases cmd; simp add: post_None command_posts may_defer.simps[abs_def])

lemma may_defer_ok: "may_defer cmd d \<Longrightarrow> defer_ok d"
  by (cases cmd) auto

text \<open>Every executable command, whoever sent it.\<close>

lemma consume_eq_execute:
  "\<exists>actor cmd. consume_and_execute R c st i = execute R st i actor cmd \<and>
     ec_command_kind c = command_kind_of cmd"
  by (cases c) (auto simp: execute_command_def execute_deferred_command_def)

lemma es_keeps_mono: "es_keeps W D st st' \<Longrightarrow> (\<And>d. D d \<Longrightarrow> D' d) \<Longrightarrow> es_keeps W D' st st'"
  by (auto simp: es_keeps_def list_all_iff)

lemma consume_keeps:
  assumes "consume_and_execute R c st i = Some (r, st')"
  shows "es_keeps (rt_ws R) defer_ok st st'"
proof -
  obtain actor cmd where "consume_and_execute R c st i = execute R st i actor cmd"
    using consume_eq_execute by metis
  then show ?thesis
    using assms exec.keeps[of R st i actor cmd r st'] by (auto intro: es_keeps_mono may_defer_ok)
qed

lemma consume_failure_clean:
  assumes "consume_and_execute R c st i = Some (Inl e, st')"
  shows "wsc_clean (es_cache st')"
  using assms consume_eq_execute[of R c st i] exec.failure_clean[of R st i _ _ e st'] by force

lemma consume_success_gas:
  assumes "consume_and_execute R c st i = Some (Ok, st')"
  shows "total_gas_used (es_gm st') \<le> gas_limit (txn_meta st)"
  using assms consume_eq_execute[of R c st i] exec.success_gas[of R st i _ _ st'] by force

text \<open>C13: No command touches more than its own kind allows, whoever sent it. One that succeeds has
  left every balance, contract and storage outside its targets as it was and is within the gas
  limit; one that fails has undone everything that was pending. Neither writes the world state
  below the cache.\<close>

theorem command_confined:
  assumes "execute R st i actor cmd = Some (r, st')"
  shows "ws (es_cache st') = ws (es_cache st) \<and> txn_meta st' = txn_meta st \<and>
    (case r of
       Inr _ \<Rightarrow>
         (\<forall>a. a \<notin> writes_balance R (txn_meta st) actor cmd \<longrightarrow>
            wsc_balance_view (rt_ws R) (es_cache st') a = wsc_balance_view (rt_ws R) (es_cache st) a) \<and>
         (\<forall>a. a \<notin> writes_code R (txn_meta st) i cmd \<longrightarrow>
            wsc_code_view (rt_ws R) (es_cache st') a = wsc_code_view (rt_ws R) (es_cache st) a \<and>
            wsc_cbi_view (rt_ws R) (es_cache st') a = wsc_cbi_view (rt_ws R) (es_cache st) a) \<and>
         (\<forall>a k. a \<notin> writes_storage R cmd \<longrightarrow>
            wsc_storage_view (rt_ws R) (es_cache st') (a, k) = wsc_storage_view (rt_ws R) (es_cache st) (a, k)) \<and>
         total_gas_used (es_gm st') \<le> gas_limit (txn_meta st)
     | Inl e \<Rightarrow> commit_to_world_state (rt_ws R) (es_cache st') = Some (ws (es_cache st)))"
proof -
  have keeps: "ws (es_cache st') = ws (es_cache st) \<and> txn_meta st' = txn_meta st"
    using exec.keeps[OF assms] by (auto simp: es_keeps_def dest: wsc_step_ws)
  show ?thesis
  proof (cases r)
    case (Inl e)
    then show ?thesis
      using keeps exec.failure_commits_nothing[of R st i actor cmd e st'] assms by simp
  next
    case (Inr u)
    then have ok: "execute R st i actor cmd = Some (Ok, st')"
      using assms by simp
    show ?thesis
      using keeps Inr exec.success_frame[OF ok] exec.success_gas[OF ok]
      by (auto simp: es_frame_def ctx_frame_def gm_frame_def wsc_frame_def es_cache_def gas_free_ws_cache_def)
  qed
qed

theorem command_confined_witness:
  "\<exists>r st'. execute kv_runtime (cmd_state V1 100000) 0 1 (Transfer 2 10) = Some (r, st') \<and>
     wsc_balance_view kv_ops (es_cache st') 3 = Some 0"
proof -
  obtain st' where run: "execute kv_runtime (cmd_state V1 100000) 0 1 (Transfer 2 10) = Some (Ok, st')"
    by (simp add: transfer_def runtime_evals cong: eval_congs)
  have "wsc_balance_view kv_ops (es_cache st') 3 = wsc_balance_view kv_ops (es_cache (cmd_state V1 100000)) 3"
    using command_confined[OF run] by simp
  with run show ?thesis
    by auto
qed

end
