(* ===== verification/Staking_Refinement.thy ===== *)
theory Staking_Refinement
  imports Staking_Ledger Executor
begin

text \<open>
  The nine staking commands refine steps on the staking ledger. \<open>staking_error\<close> and \<open>staking_effect\<close>
  say, on the ledger and the balances alone, when a command is refused and what it does; the
  refinement shows that the commands of \<^verbatim>\<open>src/commands/staking.rs\<close>, run with gas metering on the
  world state cache, always return, answer the error of the specification or do what it says, and
  report the amount they moved.
\<close>

section \<open>The specification\<close>

type_synonym bank = "public_address \<Rightarrow> u64"

abbreviation pool_in :: "ledger \<Rightarrow> public_address \<Rightarrow> bool" where
  "pool_in L op \<equiv> l_operator L op \<noteq> None"

text \<open>What a withdrawal of at most \<open>n\<close> pays and what a stake of at most \<open>n\<close> adds.\<close>

definition withdrawable :: "ledger \<Rightarrow> public_address \<Rightarrow> public_address \<Rightarrow> u64 \<Rightarrow> u64 \<Rightarrow> u64" where
  "withdrawable L op own dep n = min n (dep - max (locked_in l_pvp L op own) (locked_in l_vp L op own))"

definition stakable :: "ledger \<Rightarrow> public_address \<Rightarrow> public_address \<Rightarrow> u64 \<Rightarrow> u64 \<Rightarrow> u64" where
  "stakable L op own dep n = min n (dep - case_option 0 id (stake_in L op own))"

fun staking_error :: "public_address \<Rightarrow> command \<Rightarrow> ledger \<Rightarrow> bank \<Rightarrow> transition_error option" where
  "staking_error actor (CreatePool rate) L bal =
     (if rate > 100 then Some InvalidPoolPolicy
      else if pool_in L actor then Some PoolAlreadyExists else None)"
| "staking_error actor (SetPoolSettings rate) L bal =
     (if rate > 100 then Some InvalidPoolPolicy
      else if \<not> pool_in L actor then Some PoolNotExists
      else if l_rate L actor = Some rate then Some InvalidPoolPolicy else None)"
| "staking_error actor DeletePool L bal = (if \<not> pool_in L actor then Some PoolNotExists else None)"
| "staking_error actor (CreateDeposit op n auto) L bal =
     (if \<not> pool_in L op then Some PoolNotExists
      else if l_deposit L op actor \<noteq> None then Some DepositsAlreadyExists
      else if bal actor < n then Some NotEnoughBalanceForTransfer else None)"
| "staking_error actor (SetDepositSettings op auto) L bal =
     (if l_deposit L op actor = None then Some DepositsNotExists
      else if l_auto L op actor = Some auto then Some InvalidDepositPolicy else None)"
| "staking_error actor (TopUpDeposit op n) L bal =
     (if l_deposit L op actor = None then Some DepositsNotExists
      else if bal actor < n then Some NotEnoughBalanceForTransfer else None)"
| "staking_error actor (WithdrawDeposit op n) L bal =
     (case l_deposit L op actor of None \<Rightarrow> Some DepositsNotExists
      | Some dep \<Rightarrow> if withdrawable L op actor dep n = 0 then Some InvalidStakeAmount else None)"
| "staking_error actor (StakeDeposit op n) L bal =
     (case l_deposit L op actor of None \<Rightarrow> Some DepositsNotExists
      | Some dep \<Rightarrow> if \<not> pool_in L op then Some PoolNotExists
          else if stakable L op actor dep n = 0 then Some InvalidStakeAmount else None)"
| "staking_error actor (UnstakeDeposit op n) L bal =
     (if l_deposit L op actor = None then Some DepositsNotExists
      else if \<not> pool_in L op then Some PoolNotExists
      else if stake_in L op actor = None then Some PoolHasNoStakes else None)"
| "staking_error actor _ L bal = None"

text \<open>
  The effect of a command that is not refused, with the amount it reports. A stake that finds no room
  among the delegated stakes has no effect.
\<close>

fun staking_effect ::
  "public_address \<Rightarrow> command \<Rightarrow> ledger \<Rightarrow> bank \<Rightarrow> u64 option \<Rightarrow> ledger \<Rightarrow> bank \<Rightarrow> bool" where
  "staking_effect actor (CreatePool rate) L bal amount L' bal' \<longleftrightarrow>
     amount = None \<and> bal' = bal \<and> (\<exists>r m. heap_insert (l_nvp L) actor 0 r m \<and>
       L' = L\<lparr>l_operator := (l_operator L)(actor := Some actor), l_power := (l_power L)(actor := Some 0),
              l_rate := (l_rate L)(actor := Some rate),
              l_operator_stake := (l_operator_stake L)(actor := Some None), l_nvp := m\<rparr>)"
| "staking_effect actor (SetPoolSettings rate) L bal amount L' bal' \<longleftrightarrow>
     amount = None \<and> bal' = bal \<and> L' = L\<lparr>l_rate := (l_rate L)(actor := Some rate)\<rparr>"
| "staking_effect actor DeletePool L bal amount L' bal' \<longleftrightarrow>
     amount = None \<and> bal' = bal \<and>
     L' = L\<lparr>l_operator := (l_operator L)(actor := None), l_power := (l_power L)(actor := None),
            l_rate := (l_rate L)(actor := None),
            l_operator_stake := (l_operator_stake L)(actor := None),
            l_delegated := (l_delegated L)(actor := (\<lambda>_. None)), l_nvp := (l_nvp L)(actor := None)\<rparr>"
| "staking_effect actor (CreateDeposit op n auto) L bal amount L' bal' \<longleftrightarrow>
     amount = None \<and> bal' = bal(actor := bal actor - n) \<and>
     L' = L\<lparr>l_deposit := upd2 (l_deposit L) op actor (Some n), l_auto := upd2 (l_auto L) op actor (Some auto)\<rparr>"
| "staking_effect actor (SetDepositSettings op auto) L bal amount L' bal' \<longleftrightarrow>
     amount = None \<and> bal' = bal \<and> L' = L\<lparr>l_auto := upd2 (l_auto L) op actor (Some auto)\<rparr>"
| "staking_effect actor (TopUpDeposit op n) L bal amount L' bal' \<longleftrightarrow>
     amount = None \<and> bal' = bal(actor := bal actor - n) \<and>
     L' = L\<lparr>l_deposit := upd2 (l_deposit L) op actor (Some (saturating_add (the (l_deposit L op actor)) n))\<rparr>"
| "staking_effect actor (WithdrawDeposit op n) L bal amount L' bal' \<longleftrightarrow>
     (let dep = the (l_deposit L op actor); w = withdrawable L op actor dep n
      in amount = Some w \<and> bal' = bal(actor := saturating_add (bal actor) w) \<and>
         stake_capped op actor (dep - w)
           (if dep = w then L\<lparr>l_deposit := upd2 (l_deposit L) op actor None,
                              l_auto := upd2 (l_auto L) op actor None\<rparr>
            else L\<lparr>l_deposit := upd2 (l_deposit L) op actor (Some (dep - w))\<rparr>) L')"
| "staking_effect actor (StakeDeposit op n) L bal amount L' bal' \<longleftrightarrow>
     (let s = stakable L op actor (the (l_deposit L op actor)) n
      in amount = Some s \<and> bal' = bal \<and> stake_gained True op actor (the (l_power L op)) s (Inr ()) L L')"
| "staking_effect actor (UnstakeDeposit op n) L bal amount L' bal' \<longleftrightarrow>
     (let stk = the (stake_in L op actor); pw = the (l_power L op) - min stk n
      in amount = Some (min stk n) \<and> bal' = bal \<and>
         (\<exists>m. power_fell op pw (l_nvp L) m \<and> L' = set_pool_power op pw m (set_stake op actor (stk - n) L)))"
| "staking_effect actor _ L bal amount L' bal' \<longleftrightarrow> False"

text \<open>How the amount is reported: as the return value in version 1, in its own field in version 2.\<close>

fun reports :: "txn_version \<Rightarrow> command \<Rightarrow> u64 option \<Rightarrow> command_output_cache \<Rightarrow> bool" where
  "reports ver cmd None oc \<longleftrightarrow> True"
| "reports V1 cmd (Some n) oc \<longleftrightarrow> oc_return_value oc = Some (to_le_bytes 8 n)"
| "reports V2 (WithdrawDeposit _ _) (Some n) oc \<longleftrightarrow> oc_amount_withdrawn oc = Some n"
| "reports V2 (StakeDeposit _ _) (Some n) oc \<longleftrightarrow> oc_amount_staked oc = Some n"
| "reports V2 (UnstakeDeposit _ _) (Some n) oc \<longleftrightarrow> oc_amount_unstaked oc = Some n"
| "reports V2 _ (Some n) oc \<longleftrightarrow> False"

text \<open>A stake that needs a place among the delegated stakes of the pool.\<close>

fun needs_room :: "public_address \<Rightarrow> command \<Rightarrow> ledger \<Rightarrow> bool" where
  "needs_room actor (StakeDeposit op n) L \<longleftrightarrow> op \<noteq> actor \<and> l_delegated L op actor = None"
| "needs_room actor _ L \<longleftrightarrow> False"

fun is_staking :: "command \<Rightarrow> bool" where
  "is_staking (Transfer _ _) = False"
| "is_staking (Deploy _ _) = False"
| "is_staking (Call _ _ _ _) = False"
| "is_staking NextEpoch = False"
| "is_staking _ = True"

text \<open>A pool that exists has a power, a pool that does not has no place in the next validator set.\<close>

definition ledger_wf :: "ledger \<Rightarrow> bool" where
  "ledger_wf L \<longleftrightarrow> (\<forall>op. if pool_in L op then l_power L op \<noteq> None else l_nvp L op = None)"

section \<open>States that stand for a ledger\<close>

text \<open>
  \<open>ab\<close> reads the ledger off the storage of the network account and \<open>good\<close> says which contents of the
  storage are sound; both see only what a reader of the cache sees.
\<close>

type_synonym net_storage = "bytes \<Rightarrow> bytes option option"

definition gm_storage :: "('w, 'c, 'm, 'v) runtime \<Rightarrow> 'w gas_meter \<Rightarrow> net_storage" where
  "gm_storage R g = net_view (rt_ws R) (NETWORK_ADDRESS (rt_net R)) (ws_cache g)"

definition gm_ok :: "('w, 'c, 'm, 'v) runtime \<Rightarrow> (net_storage \<Rightarrow> bool) \<Rightarrow> 'w gas_meter \<Rightarrow> bool" where
  "gm_ok R good g \<longleftrightarrow> wsc_inv (rt_ws R) (ws_cache g) \<and> good (gm_storage R g)"

text \<open>The same of the storage that charges nothing, which the next epoch command uses.\<close>

definition ws_ok :: "'w ws_ops \<Rightarrow> public_address \<Rightarrow> (net_storage \<Rightarrow> bool) \<Rightarrow> 'w world_state_cache \<Rightarrow> bool" where
  "ws_ok W net good s \<longleftrightarrow> wsc_inv W s \<and> good (net_view W net s)"

definition network_laws ::
  "('w, 'c, 'm, 'v) runtime \<Rightarrow> (net_storage \<Rightarrow> ledger) \<Rightarrow> (net_storage \<Rightarrow> bool) \<Rightarrow> bool" where
  "network_laws R ab good \<longleftrightarrow> ledger_laws (rt_net R) (es_nas R) (\<lambda>g. ab (gm_storage R g)) (gm_ok R good)"

definition at_state ::
  "('w, 'c, 'm, 'v) runtime \<Rightarrow> (net_storage \<Rightarrow> ledger) \<Rightarrow> (net_storage \<Rightarrow> bool) \<Rightarrow> txn_metadata \<Rightarrow> ledger \<Rightarrow>
   bank \<Rightarrow> ('w, 'c, 'e) execution_state \<Rightarrow> bool" where
  "at_state R ab good md L bal st \<longleftrightarrow>
     at_ledger (\<lambda>g. ab (gm_storage R g)) (gm_ok R good) L (es_gm st) \<and>
     wsc_balance_view (rt_ws R) (es_cache st) = (\<lambda>a. Some (bal a)) \<and> txn_meta st = md"

definition gas_exhausted :: "('w, 'c, 'e) execution_state \<Rightarrow> bool" where
  "gas_exhausted st \<longleftrightarrow> gas_limit (txn_meta st) < total_gas_used (es_gm st)"

text \<open>
  The refunds of a command outweigh its costs up to the cost of an amount, or its tally is saturated.
  Only then may the amount go unreported: the check before it is reported adds its cost to a net cost
  that is cut off at zero.
\<close>

definition earns_gas :: "('w, 'c, 'e) execution_state \<Rightarrow> bool" where
  "earns_gas st \<longleftrightarrow> (let u = gas_used_for_current_command (es_gm st)
     in deduct u < reward u + blockchain_storage_cost 8 \<or> deduct u = U64_MAX)"

text \<open>
  What a run of a staking command may answer: the error of the specification; else that the gas is
  exhausted or the pool has no room for a new stake; else success, with the effect of the
  specification and the amount reported.
\<close>

definition staking_outcome ::
  "('w, 'c, 'm, 'v) runtime \<Rightarrow> (net_storage \<Rightarrow> ledger) \<Rightarrow> (net_storage \<Rightarrow> bool) \<Rightarrow> public_address \<Rightarrow> command \<Rightarrow>
   txn_metadata \<Rightarrow> ledger \<Rightarrow> bank \<Rightarrow> cmd_result \<Rightarrow> ('w, 'c, 'e) execution_state \<Rightarrow> bool" where
  "staking_outcome R ab good actor cmd md L bal r st' \<longleftrightarrow>
     (case staking_error actor cmd L bal of
        Some e \<Rightarrow> r = Inl e
      | None \<Rightarrow> r = Inl ExecutionProperGasExhausted \<and> gas_exhausted st' \<or>
          r = Inl InvalidStakeAmount \<and> needs_room actor cmd L \<or>
          r = Ok \<and> \<not> gas_exhausted st' \<and>
            (\<exists>amount L' bal'. staking_effect actor cmd L bal amount L' bal' \<and>
               at_state R ab good md L' bal' st' \<and>
               (reports (version md) cmd amount (output_cache_of_current_command (es_gm st')) \<or>
                earns_gas st')))"

section \<open>Steps of a command\<close>

lemma es_gm_set [simp]: "es_gm (set_es_gm st g) = g" "txn_meta (set_es_gm st g) = txn_meta st"
  "es_cache (set_es_gm st g) = ws_cache g"
  by (simp_all add: es_gm_def set_es_gm_def es_cache_def gas_free_ws_cache_def)

lemma es_cache_gm: "es_cache st = ws_cache (es_gm st)"
  by (simp add: es_gm_def es_cache_def gas_free_ws_cache_def)

text \<open>Code of the network account moves from ledger to ledger and leaves the balances alone.\<close>

definition net_only :: "('w, 'c, 'm, 'v) runtime \<Rightarrow> ('w gas_meter \<Rightarrow> ('a \<times> 'w gas_meter) option) \<Rightarrow> bool" where
  "net_only R f \<longleftrightarrow>
     (\<forall>g. post (f g) (\<lambda>(r, g'). gm_frame (rt_ws R) {} {} {NETWORK_ADDRESS (rt_net R)} g g'))"

lemma on_gm_bind:
  assumes "at_state R ab good md L bal st"
    and "runs (f (es_gm st)) (\<lambda>r g. \<exists>L'. at_ledger (\<lambda>g. ab (gm_storage R g)) (gm_ok R good) L' g \<and> P r L')"
    and "net_only R f"
    and "\<And>r L' st'. P r L' \<Longrightarrow> at_state R ab good md L' bal st' \<Longrightarrow> runs (c (r, st')) Q"
  shows "runs (on_gm f st \<bind> c) Q"
proof -
  obtain r g L' where run: "f (es_gm st) = Some (r, g)" and
    at: "at_ledger (\<lambda>g. ab (gm_storage R g)) (gm_ok R good) L' g" "P r L'"
    using assms(2) by (auto simp: runs_def)
  have "gm_frame (rt_ws R) {} {} {NETWORK_ADDRESS (rt_net R)} (es_gm st) g"
    using assms(3) run by (force simp: net_only_def dest: postD)
  then have "wsc_balance_view (rt_ws R) (ws_cache g) = wsc_balance_view (rt_ws R) (es_cache st)"
    by (auto simp: gm_frame_def wsc_frame_def es_cache_gm fun_eq_iff)
  then have "at_state R ab good md L' bal (set_es_gm st g)"
    using assms(1) at(1) by (simp add: at_state_def)
  from assms(4)[OF at(2) this] show ?thesis
    using run by (simp add: on_gm_def)
qed

lemma na_frame: "net_only R (run_na (es_nas R) p)"
  unfolding net_only_def es_nas_def by (intro allI gmn.run_post[OF gm_frame_refl]) simp

lemma na_answers:
  assumes "answers (es_nas R) (\<lambda>g. ab (gm_storage R g)) (gm_ok R good) p f" "at_state R ab good md L bal st"
    and "\<And>st'. at_state R ab good md L bal st' \<Longrightarrow> runs (c (f L, st')) Q"
  shows "runs (na R p st \<bind> c) Q"
  unfolding na_def
proof (rule on_gm_bind[where P = "\<lambda>r L'. r = f L \<and> L' = L", OF assms(2) _ na_frame])
  show "runs (run_na (es_nas R) p (es_gm st))
    (\<lambda>r g. \<exists>L'. at_ledger (\<lambda>g. ab (gm_storage R g)) (gm_ok R good) L' g \<and> r = f L \<and> L' = L)"
    by (rule runs_mono[OF answers_runs[OF assms(1)]]) (use assms(2) in \<open>auto simp: at_state_def\<close>)
qed (auto intro: assms(3))

lemma na_updates:
  assumes "updates (es_nas R) (\<lambda>g. ab (gm_storage R g)) (gm_ok R good) p pre u"
    and "at_state R ab good md L bal st" "pre L"
    and "\<And>x st'. at_state R ab good md (u L) bal st' \<Longrightarrow> runs (c (x, st')) Q"
  shows "runs (na R p st \<bind> c) Q"
  unfolding na_def
proof (rule on_gm_bind[where P = "\<lambda>r L'. L' = u L", OF assms(2) _ na_frame])
  show "runs (run_na (es_nas R) p (es_gm st))
    (\<lambda>r g. \<exists>L'. at_ledger (\<lambda>g. ab (gm_storage R g)) (gm_ok R good) L' g \<and> L' = u L)"
    by (rule runs_mono[OF updates_runs[OF assms(1) _ assms(3)]]) (use assms(2) in \<open>auto simp: at_state_def\<close>)
qed (auto intro: assms(4))

lemma na_inserts:
  assumes "inserts (es_nas R) (\<lambda>g. ab (gm_storage R g)) (gm_ok R good) p entry heap put a n"
    and "at_state R ab good md L bal st" "heap L a = None"
    and "\<And>r m st'. heap_insert (heap L) a n (map_sum id (map_option entry) r) m \<Longrightarrow>
      at_state R ab good md (put m L) bal st' \<Longrightarrow> runs (c (r, st')) Q"
  shows "runs (na R p st \<bind> c) Q"
  unfolding na_def
proof (rule on_gm_bind[where P = "\<lambda>r L'. \<exists>m. heap_insert (heap L) a n (map_sum id (map_option entry) r) m \<and>
    L' = put m L", OF assms(2) _ na_frame])
  show "runs (run_na (es_nas R) p (es_gm st)) (\<lambda>r g. \<exists>L'. at_ledger (\<lambda>g. ab (gm_storage R g)) (gm_ok R good) L' g \<and>
    (\<exists>m. heap_insert (heap L) a n (map_sum id (map_option entry) r) m \<and> L' = put m L))"
    by (rule runs_mono[OF inserts_runs[OF assms(1) _ assms(3)]]) (use assms(2) in \<open>auto simp: at_state_def\<close>)
qed (auto intro: assms(4))

text \<open>The balances are read and written beside the ledger.\<close>

lemma op_balance_total:
  assumes "wsc_inv W s" "wsc_balance_view W s a = Some b"
  shows "\<exists>c s'. op_ws_balance W s a = Some ((b, c), s')"
proof -
  obtain b' s' where get: "wsc_balance W s a = Some (b', s')"
    using bal.get_panic[of W s a] assms by (auto simp: wsc_inv_def)
  moreover have "b' = b"
    using bal.get_answer[of W s a "Some b'" s'] get assms by (simp add: wsc_inv_def)
  ultimately show ?thesis
    by (simp add: op_ws_balance_def)
qed

lemma storage_of_frame: "gm_frame W A C {} g g' \<Longrightarrow> net_view W net (ws_cache g') = net_view W net (ws_cache g)"
  by (auto simp: gm_frame_def wsc_frame_def net_view_def fun_eq_iff)

lemma balance_bind:
  assumes "at_state R ab good md L bal st" "\<And>st'. at_state R ab good md L bal st' \<Longrightarrow> runs (c (bal a, st')) Q"
  shows "runs (on_gm (\<lambda>g. gm_ws_balance (rt_ws R) g a) st \<bind> c) Q"
proof -
  have inv: "wsc_inv (rt_ws R) (es_cache st)" and view: "wsc_balance_view (rt_ws R) (es_cache st) a = Some (bal a)"
    using assms(1) by (simp_all add: at_state_def at_ledger_def gm_ok_def es_cache_gm)
  obtain g where g: "gm_ws_balance (rt_ws R) (es_gm st) a = Some (bal a, g)"
    using op_balance_total[OF inv view] by (auto simp: gm_ws_balance_def es_cache_gm)
  then have run: "on_gm (\<lambda>g. gm_ws_balance (rt_ws R) g a) st = Some (bal a, set_es_gm st g)"
    by (simp add: on_gm_def)
  have "gm_storage R g = gm_storage R (es_gm st)"
    using storage_of_frame[OF gm_frame_reads(3)[OF g]] by (simp add: gm_storage_def)
  then have "at_state R ab good md L bal (set_es_gm st g)"
    using assms(1) es_balance_view(2,3)[OF run inv] by (simp add: at_state_def at_ledger_def gm_ok_def)
  then show ?thesis
    using assms(2) run by simp
qed

lemma set_balance_bind:
  assumes "at_state R ab good md L bal st"
    and "\<And>st'. at_state R ab good md L (bal(a := n)) st' \<Longrightarrow> runs (c st') Q"
  shows "runs (on_gm_set (\<lambda>g. gm_ws_set_balance (rt_ws R) g a n) st \<bind> c) Q"
proof -
  have inv: "wsc_inv (rt_ws R) (es_cache st)" and view: "wsc_balance_view (rt_ws R) (es_cache st) a = Some (bal a)"
    using assms(1) by (simp_all add: at_state_def at_ledger_def gm_ok_def es_cache_gm)
  obtain g where g: "gm_ws_set_balance (rt_ws R) (es_gm st) a n = Some g"
    using op_balance_total[OF inv view]
    by (auto simp: gm_ws_set_balance_def op_ws_set_balance_def es_cache_gm)
  then have run: "on_gm_set (\<lambda>g. gm_ws_set_balance (rt_ws R) g a n) st = Some (set_es_gm st g)"
    by (simp add: on_gm_set_def)
  have "gm_storage R g = gm_storage R (es_gm st)"
    using storage_of_frame[OF gm_frame_writes(2)[OF g, of "{a}"]] by (simp add: gm_storage_def)
  then have "at_state R ab good md L (bal(a := n)) (set_es_gm st g)"
    using assms(1) es_set_balance_view[OF run inv]
    by (simp add: at_state_def at_ledger_def gm_ok_def) (simp add: fun_upd_def if_distrib)
  then show ?thesis
    using assms(2) run by simp
qed

text \<open>How a command ends.\<close>

lemma abort_runs: "staking_error actor cmd L bal = Some e \<Longrightarrow>
    runs (abort st e) (staking_outcome R ab good actor cmd md L bal)"
  by (simp add: runs_def abort_def staking_outcome_def)

lemma revert_exhausted [simp]: "gas_exhausted (st\<lparr>ctx := revert_changes (ctx st)\<rparr>) = gas_exhausted st"
  by (simp add: gas_exhausted_def es_gm_def revert_changes_def set_gas_free_ws_cache_def total_gas_used_def
      total_gas_used_for_executed_commands_def)

lemma finish_runs:
  assumes "staking_error actor cmd L bal = None" "staking_effect actor cmd L bal amount L' bal'"
    and "at_state R ab good md L' bal' st"
    and "reports (version md) cmd amount (output_cache_of_current_command (es_gm st)) \<or>
      (\<not> gas_exhausted st \<longrightarrow> earns_gas st)"
  shows "runs (abort_if_gas_exhausted st) (staking_outcome R ab good actor cmd md L bal)"
proof (cases "gas_exhausted st")
  case True
  then show ?thesis
    using assms(1) revert_exhausted[of st] unfolding abort_if_gas_exhausted_def gas_exhausted_def[of st]
    by (simp add: runs_def staking_outcome_def)
next
  case False
  then have "abort_if_gas_exhausted st = Some (Ok, st)"
    by (simp add: abort_if_gas_exhausted_def gas_exhausted_def)
  then show ?thesis
    using assms False by (auto simp: runs_def staking_outcome_def)
qed

lemma at_state_set_gm:
  "at_state R ab good md L bal st \<Longrightarrow> ws_cache g = ws_cache (es_gm st) \<Longrightarrow>
   at_state R ab good md L bal (set_es_gm st g)"
  by (simp add: at_state_def at_ledger_def gm_ok_def gm_storage_def es_cache_gm)

lemma charge_exhausts:
  assumes "gas_limit (txn_meta st) < saturating_add (total_gas_used (es_gm st)) (blockchain_storage_cost 8)"
    and "\<not> gas_exhausted (set_es_gm st (manually_charge_gas (es_gm st) (blockchain_storage_cost 8)))"
  shows "earns_gas (set_es_gm st (manually_charge_gas (es_gm st) (blockchain_storage_cost 8)))"
  using assms
  by (auto simp: gas_exhausted_def earns_gas_def manually_charge_gas_def gm_charge_def gu_charge_def
      total_gas_used_def total_gas_used_for_executed_commands_def gu_chargeable_cost_def cc_simps
      saturating_add_def saturating_sub_def Let_def min_def split: if_splits)

lemma finish_amount_runs:
  assumes "staking_error actor cmd L bal = None" "staking_effect actor cmd L bal (Some n) L' bal'"
    and "at_state R ab good md L' bal' st"
    and "version md = V2 \<Longrightarrow> reports V2 cmd (Some n) (output_cache_of_current_command (set_v2 (es_gm st) n))"
    and "ws_cache (set_v2 (es_gm st) n) = ws_cache (es_gm st)"
  shows "runs (finish_with_amount st set_v2 n) (staking_outcome R ab good actor cmd md L bal)"
proof -
  have md: "txn_meta st = md"
    using assms(3) by (simp add: at_state_def)
  have cost: "(case version md of
      V1 \<Rightarrow> fst (net_cost (cc_deduct (blockchain_storage_cost (length (to_le_bytes 8 n)))))
    | V2 \<Rightarrow> fst (net_cost (cc_deduct (blockchain_storage_cost 8)))) = blockchain_storage_cost 8"
    by (simp add: cc_simps saturating_sub_def split: txn_version.split)
  show ?thesis
    unfolding finish_with_amount_def Let_def md cost
  proof (rule runs_if, goal_cases)
    case 1
    then show ?case
      using charge_exhausts[of st] md
      by (intro finish_runs[OF assms(1,2)] at_state_set_gm[OF assms(3)]) simp_all
  next
    case 2
    show ?case
      by (rule finish_runs[OF assms(1,2)])
        (use assms(3-5) in \<open>auto intro!: at_state_set_gm simp: gm_set_defs gm_charge_def split: txn_version.split\<close>)
  qed
qed

section \<open>The commands\<close>

lemma ledger_wf_power: "ledger_wf L \<Longrightarrow> pool_in L op \<Longrightarrow> \<exists>pw. l_power L op = Some pw"
  unfolding ledger_wf_def by (metis option.exhaust)

lemma ledger_wf_nvp: "ledger_wf L \<Longrightarrow> \<not> pool_in L op \<Longrightarrow> l_nvp L op = None"
  unfolding ledger_wf_def by metis

lemma plain_finish_runs:
  "at_state R ab good md L' bal' st \<Longrightarrow> staking_error actor cmd L bal = None \<Longrightarrow>
   staking_effect actor cmd L bal None L' bal' \<Longrightarrow>
   runs (abort_if_gas_exhausted st) (staking_outcome R ab good actor cmd md L bal)"
  by (rule finish_runs[where amount = None]) (assumption | simp)+

lemma runs_unwrap: "x \<noteq> None \<Longrightarrow> (\<And>v. x = Some v \<Longrightarrow> runs (f v) Q) \<Longrightarrow> runs (x \<bind> f) Q"
  by (cases x) simp_all

text \<open>The commands that only read and write fields.\<close>

lemma field_commands_run:
  assumes "network_laws R ab good" "at_state R ab good md L bal st" "ledger_wf L"
  shows "runs (create_pool R actor st rate) (staking_outcome R ab good actor (CreatePool rate) md L bal)"
    "runs (set_pool_settings R actor st rate) (staking_outcome R ab good actor (SetPoolSettings rate) md L bal)"
    "runs (delete_pool R actor st) (staking_outcome R ab good actor DeletePool md L bal)"
    "runs (create_deposit R actor st op n auto)
       (staking_outcome R ab good actor (CreateDeposit op n auto) md L bal)"
    "runs (set_deposit_settings R actor st op auto)
       (staking_outcome R ab good actor (SetDepositSettings op auto) md L bal)"
    "runs (topup_deposit R actor st op n) (staking_outcome R ab good actor (TopUpDeposit op n) md L bal)"
proof -
  note laws = assms(1)[unfolded network_laws_def]
  note steps = runs_if ledger_answers[OF laws, THEN na_answers] ledger_updates[OF laws, THEN na_updates]
    ledger_inserts[OF laws, THEN na_inserts] balance_bind set_balance_bind runs_unwrap
  have nvp: "\<not> pool_in L actor \<Longrightarrow> l_nvp L actor = None"
    by (rule ledger_wf_nvp[OF assms(3)])
  note defs = create_pool_def set_pool_settings_def delete_pool_def create_deposit_def
    set_deposit_settings_def topup_deposit_def
  show "runs (create_pool R actor st rate) (staking_outcome R ab good actor (CreatePool rate) md L bal)"
    "runs (set_pool_settings R actor st rate) (staking_outcome R ab good actor (SetPoolSettings rate) md L bal)"
    "runs (delete_pool R actor st) (staking_outcome R ab good actor DeletePool md L bal)"
    "runs (create_deposit R actor st op n auto)
       (staking_outcome R ab good actor (CreateDeposit op n auto) md L bal)"
    "runs (set_deposit_settings R actor st op auto)
       (staking_outcome R ab good actor (SetDepositSettings op auto) md L bal)"
    "runs (topup_deposit R actor st op n) (staking_outcome R ab good actor (TopUpDeposit op n) md L bal)"
    using assms(2) nvp unfolding defs Let_def
    by - (assumption | rule TrueI steps | simp only: prod.case | (rule abort_runs, (simp; fail))
      | (rule plain_finish_runs, assumption, (simp; fail), (auto; fail)) | (simp; fail))+
qed

text \<open>The helpers inside the other commands.\<close>

lemma helper_frames:
  "net_only R (stake_of_pool N (es_nas R) op own)"
  "net_only R (locked_power_in N (es_nas R) vs op own)"
  "net_only R (reduce_stake_power N (es_nas R) op pw own stk n)"
  "net_only R (increase_stake_power N (es_nas R) op pw own ostk n b)"
  "net_only R (cap_stake N (es_nas R) op own n)"
  unfolding net_only_def es_nas_def
  by (intro allI gmn.stake_of_pool_post gmn.locked_power_post gmn.reduce_stake_power_post
      gmn.increase_stake_power_post gmn.cap_stake_post gm_frame_refl)+

lemma stake_of_pool_bind:
  assumes "network_laws R ab good" "at_state R ab good md L bal st"
    and "\<And>st'. at_state R ab good md L bal st' \<Longrightarrow> runs (c (stake_in L op own, st')) Q"
  shows "runs (on_gm (stake_of_pool (rt_net R) (es_nas R) op own) st \<bind> c) Q"
proof (rule on_gm_bind[OF assms(2) _ helper_frames(1), where P = "\<lambda>r L'. r = stake_in L op own \<and> L' = L"])
  show "runs (stake_of_pool (rt_net R) (es_nas R) op own (es_gm st))
    (\<lambda>r g. \<exists>L'. at_ledger (\<lambda>g. ab (gm_storage R g)) (gm_ok R good) L' g \<and> r = stake_in L op own \<and> L' = L)"
    by (rule runs_mono[OF stake_of_pool_runs[OF ledger_raise[OF assms(1)[unfolded network_laws_def]]]])
      (use assms(2) in \<open>auto simp: at_state_def\<close>)
qed (auto intro: assms(3))

lemma locked_bind:
  assumes "network_laws R ab good" "at_state R ab good md L bal st"
    and "\<And>op. answers (es_nas R) (\<lambda>g. ab (gm_storage R g)) (gm_ok R good) (vs_pool vs op) (\<lambda>L. vset L op)"
    and "\<And>st'. at_state R ab good md L bal st' \<Longrightarrow> runs (c (locked_in vset L op own, st')) Q"
  shows "runs (on_gm (locked_power_in (rt_net R) (es_nas R) vs op own) st \<bind> c) Q"
proof (rule on_gm_bind[OF assms(2) _ helper_frames(2), where P = "\<lambda>r L'. r = locked_in vset L op own \<and> L' = L"])
  show "runs (locked_power_in (rt_net R) (es_nas R) vs op own (es_gm st))
    (\<lambda>r g. \<exists>L'. at_ledger (\<lambda>g. ab (gm_storage R g)) (gm_ok R good) L' g \<and> r = locked_in vset L op own \<and> L' = L)"
    by (rule runs_mono[OF locked_power_runs[OF assms(1)[unfolded network_laws_def] _ assms(3)]])
      (use assms(2) in \<open>auto simp: at_state_def\<close>)
qed (auto intro: assms(4))

lemma cap_stake_bind:
  assumes "network_laws R ab good" "at_state R ab good md L bal st"
    and "\<And>x L' st'. stake_capped op own n L L' \<Longrightarrow> at_state R ab good md L' bal st' \<Longrightarrow> runs (c (x, st')) Q"
  shows "runs (on_gm (cap_stake (rt_net R) (es_nas R) op own n) st \<bind> c) Q"
proof (rule on_gm_bind[OF assms(2) _ helper_frames(5), where P = "\<lambda>r L'. stake_capped op own n L L'"])
  show "runs (cap_stake (rt_net R) (es_nas R) op own n (es_gm st))
    (\<lambda>r g. \<exists>L'. at_ledger (\<lambda>g. ab (gm_storage R g)) (gm_ok R good) L' g \<and> stake_capped op own n L L')"
    using assms(2) by (intro cap_stake_runs[OF assms(1)[unfolded network_laws_def]]) (simp add: at_state_def)
qed (auto intro: assms(3))

lemma withdrawable_le: "withdrawable L op own dep n \<le> dep"
  by (simp add: withdrawable_def)

lemma pay_out_runs:
  assumes "network_laws R ab good" "at_state R ab good md L bal st" "l_deposit L op own = Some dep"
    and w: "w = withdrawable L op own dep n" "w \<noteq> 0"
  shows "runs (pay_out R own st op dep (dep - w) w) (staking_outcome R ab good own (WithdrawDeposit op n) md L bal)"
proof -
  note laws = assms(1)[unfolded network_laws_def]
  define L1 where "L1 = (if dep = w then L\<lparr>l_deposit := upd2 (l_deposit L) op own None,
      l_auto := upd2 (l_auto L) op own None\<rparr> else L\<lparr>l_deposit := upd2 (l_deposit L) op own (Some (dep - w))\<rparr>)"
  have le: "w \<le> dep"
    using w(1) withdrawable_le by simp
  have finish: "runs (finish_with_amount st' gm_set_amount_withdrawn w)
      (staking_outcome R ab good own (WithdrawDeposit op n) md L bal)"
    if "stake_capped op own (dep - w) L1 L'" "at_state R ab good md L' (bal(own := saturating_add (bal own) w)) st'"
    for L' st'
    using that w assms(3) by (intro finish_amount_runs) (auto simp: L1_def Let_def gm_set_defs gm_charge_def)
  have rest: "runs (on_gm (\<lambda>g. gm_ws_balance (rt_ws R) g own) st1 \<bind> (\<lambda>(owner_balance, st).
      on_gm_set (\<lambda>g. gm_ws_set_balance (rt_ws R) g own (saturating_add owner_balance (dep - (dep - w)))) st \<bind>
      (\<lambda>st. on_gm (cap_stake (rt_net R) (es_nas R) op own (dep - w)) st \<bind>
      (\<lambda>(_, st). finish_with_amount st gm_set_amount_withdrawn w))))
      (staking_outcome R ab good own (WithdrawDeposit op n) md L bal)" if "at_state R ab good md L1 bal st1" for st1
    using that finish le unfolding diff_diff_cancel[OF le]
    by - (assumption | rule balance_bind set_balance_bind cap_stake_bind[OF assms(1)] finish | simp only: prod.case)+
  show ?thesis
    unfolding pay_out_def Let_def
    by (rule runs_bind_if; rule ledger_updates[OF laws, THEN na_updates], rule assms(2), rule TrueI,
        unfold prod.case, rule rest, use le in \<open>simp add: L1_def split: if_splits\<close>)
qed

lemma withdraw_deposit_runs:
  assumes "network_laws R ab good" "at_state R ab good md L bal st"
  shows "runs (withdraw_deposit R own st op n) (staking_outcome R ab good own (WithdrawDeposit op n) md L bal)"
proof -
  note laws = assms(1)[unfolded network_laws_def]
  have amount: "withdrawal_of n dep (locked_in l_pvp L op own) (locked_in l_vp L op own) =
      withdrawable L op own dep n" for dep
    by (simp add: withdrawal_of_def withdrawable_def saturating_sub_def Let_def)
  have zero: "dep - withdrawable L op own dep n = dep \<longleftrightarrow> withdrawable L op own dep n = 0" for dep
    using withdrawable_le[of L op own dep n] by auto
  show ?thesis
    unfolding withdraw_deposit_def Let_def using assms(2)
    by - (assumption | rule runs_if ledger_answers[OF laws, THEN na_answers] pay_out_runs[OF assms(1)] refl
        locked_bind[OF assms(1) _ ledger_answers(10)[OF laws]] locked_bind[OF assms(1) _ ledger_answers(11)[OF laws]]
        runs_unwrap | simp only: prod.case amount saturating_sub_def zero | (rule abort_runs, (simp; fail)) | (simp; fail))+
qed

lemma stake_deposit_runs:
  assumes "network_laws R ab good" "at_state R ab good md L bal st" "ledger_wf L"
  shows "runs (stake_deposit R own st op n) (staking_outcome R ab good own (StakeDeposit op n) md L bal)"
proof -
  note laws = assms(1)[unfolded network_laws_def]
  have add: "min n (saturating_sub dep (case stake_in L op own of Some p \<Rightarrow> p | None \<Rightarrow> 0)) =
      stakable L op own dep n" for dep
    by (simp add: stakable_def saturating_sub_def split: option.split)
  have last: "runs (on_gm (increase_stake_power (rt_net R) (es_nas R) op pw own (stake_in L op own)
      (stakable L op own dep n) True) st1 \<bind> (\<lambda>(res, st). case res of Inl _ \<Rightarrow> abort st InvalidStakeAmount
      | Inr _ \<Rightarrow> finish_with_amount st gm_set_amount_staked (stakable L op own dep n)))
      (staking_outcome R ab good own (StakeDeposit op n) md L bal)"
    if st1: "at_state R ab good md L bal st1" and ok: "l_deposit L op own = Some dep" "pool_in L op"
      "stakable L op own dep n \<noteq> 0" "l_power L op = Some pw" for dep pw st1
  proof (rule on_gm_bind[OF st1 _ helper_frames(4),
        where P = "\<lambda>r L'. stake_gained True op own pw (stakable L op own dep n) r L L'"], goal_cases)
    case 1
    show ?case
      using st1 ok by (intro increase_stake_power_runs[OF ledger_raise[OF laws]]) (auto simp: at_state_def)
  next
    case (2 r L' st2)
    have err: "staking_error own (StakeDeposit op n) L bal = None"
      using ok by simp
    show ?case
    proof (cases r)
      case (Inl u)
      then have "needs_room own (StakeDeposit op n) L"
        using 2(1) by (auto simp: stake_gained_Inl stake_rose_def stake_in_delegated split: if_split_asm)
      then show ?thesis
        using Inl err by (simp add: runs_def abort_def staking_outcome_def)
    next
      case (Inr u)
      then have "staking_effect own (StakeDeposit op n) L bal (Some (stakable L op own dep n)) L' bal"
        using 2(1) ok by (auto simp: Let_def)
      then show ?thesis
        using finish_amount_runs[OF err _ 2(2), of "stakable L op own dep n" gm_set_amount_staked] Inr
        by (simp add: gm_set_defs gm_charge_def)
    qed
  qed
  have pw: "pool_in L op \<Longrightarrow> l_power L op \<noteq> None"
    using ledger_wf_power[OF assms(3)] by blast
  show ?thesis
    unfolding stake_deposit_def Let_def using assms(2) pw
    by - (assumption | rule runs_if ledger_answers[OF laws, THEN na_answers] stake_of_pool_bind[OF assms(1)] last
        runs_unwrap | simp only: prod.case add | (rule abort_runs, (simp; fail)) | (simp; fail))+
qed

lemma unstake_deposit_runs:
  assumes "network_laws R ab good" "at_state R ab good md L bal st" "ledger_wf L"
  shows "runs (unstake_deposit R own st op n) (staking_outcome R ab good own (UnstakeDeposit op n) md L bal)"
proof -
  note laws = assms(1)[unfolded network_laws_def]
  have last: "runs (on_gm (reduce_stake_power (rt_net R) (es_nas R) op pw own stk n) st1 \<bind>
      (\<lambda>(amount_unstaked, st). finish_with_amount st gm_set_amount_unstaked amount_unstaked))
      (staking_outcome R ab good own (UnstakeDeposit op n) md L bal)"
    if st1: "at_state R ab good md L bal st1" and ok: "l_deposit L op own \<noteq> None" "pool_in L op"
      "stake_in L op own = Some stk" "l_power L op = Some pw" for pw stk st1
  proof (rule on_gm_bind[OF st1 _ helper_frames(3), where P = "\<lambda>r L'. r = min stk n \<and>
      (\<exists>m. power_fell op (pw - min stk n) (l_nvp L) m \<and>
         L' = set_pool_power op (pw - min stk n) m (set_stake op own (stk - n) L))"], goal_cases)
    case 1
    show ?case
      by (rule runs_mono[OF reduce_stake_runs[OF laws _ ok(3)]]) (use st1 in \<open>auto simp: at_state_def\<close>)
  next
    case (2 r L' st2)
    then have "staking_effect own (UnstakeDeposit op n) L bal (Some r) L' bal"
      using ok by (auto simp: Let_def)
    then show ?case
      unfolding prod.case using ok 2(2) by (intro finish_amount_runs) (auto simp: gm_set_defs gm_charge_def)
  qed
  have pw: "pool_in L op \<Longrightarrow> l_power L op \<noteq> None"
    using ledger_wf_power[OF assms(3)] by blast
  show ?thesis
    unfolding unstake_deposit_def Let_def using assms(2) pw
    by - (assumption | rule runs_if runs_option ledger_answers[OF laws, THEN na_answers]
        stake_of_pool_bind[OF assms(1)] last runs_unwrap
      | simp only: prod.case | (rule abort_runs, (simp; fail)) | (simp; fail))+
qed

lemma staking_runs:
  fixes R :: "('w, 'c, 'm, 'v) runtime" and st :: "('w, 'c, 'e) execution_state"
  assumes "network_laws R ab good" "at_state R ab good md L bal st" "ledger_wf L" "is_staking cmd"
  shows "runs (execute R st i actor cmd) (staking_outcome R ab good actor cmd md L bal)"
  using assms(4) field_commands_run[OF assms(1-3)] withdraw_deposit_runs[OF assms(1,2)]
    stake_deposit_runs[OF assms(1-3)] unstake_deposit_runs[OF assms(1-3)]
  by (cases cmd) simp_all

end
