(* ===== verification/Staking_Invariant.thy ===== *)
theory Staking_Invariant
  imports Staking_Refinement
begin

text \<open>
  The accounting of the staking ledger. The power of a pool is the sum of the stakes in it, no stake
  exceeds the deposit it is taken from, the next validator set shows the powers of the pools, and
  the balances and deposits together never change: every step of the specification keeps this, so
  every staking command does.
\<close>

section \<open>The invariant\<close>

definition staked :: "ledger \<Rightarrow> public_address \<Rightarrow> public_address \<Rightarrow> u64" where
  "staked L op own = case_option 0 id (stake_in L op own)"

definition deposited :: "ledger \<Rightarrow> public_address \<Rightarrow> public_address \<Rightarrow> u64" where
  "deposited L op own = case_option 0 id (l_deposit L op own)"

definition total_supply :: "ledger \<Rightarrow> bank \<Rightarrow> nat" where
  "total_supply L bal = (\<Sum>a\<in>UNIV. bal a) + (\<Sum>op\<in>UNIV. \<Sum>own\<in>UNIV. deposited L op own)"

text \<open>
  How the stakes of a pool compare to its power: equal as long as rewards are not staked, at most
  the power when they are.
\<close>

definition tally :: "(u64 \<Rightarrow> u64 \<Rightarrow> bool) \<Rightarrow> bool" where
  "tally r \<longleftrightarrow> r = (=) \<or> r = (\<le>)"

definition pools_add_up :: "(u64 \<Rightarrow> u64 \<Rightarrow> bool) \<Rightarrow> ledger \<Rightarrow> bool" where
  "pools_add_up r L \<longleftrightarrow> (\<forall>op. if pool_in L op
     then (\<exists>pw. l_power L op = Some pw \<and> pw \<le> U64_MAX \<and> r (\<Sum>own\<in>UNIV. staked L op own) pw)
     else l_power L op = None \<and> (\<forall>own. stake_in L op own = None))"

text \<open>Every pool has all its fields, and only a deposit has a setting.\<close>

definition records_complete :: "ledger \<Rightarrow> bool" where
  "records_complete L \<longleftrightarrow> (\<forall>op. pool_in L op \<longrightarrow> l_operator L op = Some op \<and>
     (\<exists>rate. l_rate L op = Some rate \<and> rate \<le> 100) \<and> l_operator_stake L op \<noteq> None) \<and>
     (\<forall>op own. l_auto L op own \<noteq> None \<longrightarrow> l_deposit L op own \<noteq> None)"

definition stakes_covered :: "ledger \<Rightarrow> bool" where
  "stakes_covered L \<longleftrightarrow> (\<forall>op own. staked L op own \<le> deposited L op own \<and> l_delegated L op op = None)"

definition nvp_current :: "ledger \<Rightarrow> bool" where
  "nvp_current L \<longleftrightarrow> (\<forall>op pw. l_nvp L op = Some pw \<longrightarrow> l_power L op = Some pw)"

definition ledger_inv :: "(u64 \<Rightarrow> u64 \<Rightarrow> bool) \<Rightarrow> ledger \<Rightarrow> bank \<Rightarrow> bool" where
  "ledger_inv r L bal \<longleftrightarrow> tally r \<and> pools_add_up r L \<and> records_complete L \<and> stakes_covered L \<and> nvp_current L \<and>
     total_supply L bal \<le> U64_MAX"

lemmas inv_defs = ledger_inv_def pools_add_up_def records_complete_def stakes_covered_def nvp_current_def

lemma tally_eq: "tally (=)" and tally_le: "tally (\<le>)"
  by (simp_all add: tally_def)

lemma ledger_inv_wf: "ledger_inv cmp L bal \<Longrightarrow> ledger_wf L"
  unfolding inv_defs ledger_wf_def by (metis option.distinct(1) option.exhaust)

lemma pool_power:
  assumes "pools_add_up cmp L" "pool_in L op" "l_power L op = Some pw"
  shows "cmp (\<Sum>own\<in>UNIV. staked L op own) pw" "pw \<le> U64_MAX"
proof -
  have "\<exists>pw. l_power L op = Some pw \<and> pw \<le> U64_MAX \<and> cmp (\<Sum>own\<in>UNIV. staked L op own) pw"
    using assms(1,2) by (simp add: pools_add_up_def)
  then show "cmp (\<Sum>own\<in>UNIV. staked L op own) pw" "pw \<le> U64_MAX"
    using assms(3) by auto
qed

section \<open>Sums over the addresses\<close>

lemma sum_update:
  fixes f :: "'a :: finite \<Rightarrow> nat"
  shows "(\<Sum>x\<in>UNIV. (f(a := v)) x) + f a = (\<Sum>x\<in>UNIV. f x) + v"
proof -
  have "(\<Sum>x\<in>UNIV. (f(a := v)) x) = v + (\<Sum>x\<in>UNIV - {a}. f x)"
    by (simp add: sum.remove[of UNIV a])
  moreover have "(\<Sum>x\<in>UNIV. f x) = f a + (\<Sum>x\<in>UNIV - {a}. f x)"
    by (simp add: sum.remove[of UNIV a])
  ultimately show ?thesis
    by simp
qed

lemma sum_update2:
  fixes f :: "'a :: finite \<Rightarrow> 'b :: finite \<Rightarrow> nat"
  shows "(\<Sum>x\<in>UNIV. \<Sum>y\<in>UNIV. upd2 f a b v x y) + f a b = (\<Sum>x\<in>UNIV. \<Sum>y\<in>UNIV. f x y) + v"
proof -
  have "(\<Sum>x\<in>UNIV. \<Sum>y\<in>UNIV. upd2 f a b v x y) =
      (\<Sum>x\<in>UNIV. ((\<lambda>x. \<Sum>y\<in>UNIV. f x y)(a := \<Sum>y\<in>UNIV. ((f a)(b := v)) y)) x)"
    by (rule sum.cong) (auto simp: upd2_def)
  then show ?thesis
    using sum_update[of "\<lambda>x. \<Sum>y\<in>UNIV. f x y" a "\<Sum>y\<in>UNIV. ((f a)(b := v)) y"] sum_update[of "f a" b v]
    by simp
qed

lemma le_sum: "f a \<le> (\<Sum>x\<in>UNIV. f x)" for f :: "'a :: finite \<Rightarrow> nat"
  by (rule member_le_sum) auto

lemma supply_move:
  assumes "bal' a + deposited L' op a = bal a + deposited L op a"
    and "bal' = bal(a := v)" "deposited L' = upd2 (deposited L) op a d"
  shows "total_supply L' bal' = total_supply L bal"
  using sum_update[of bal a v] sum_update2[of "deposited L" op a d] assms by (simp add: total_supply_def)

lemma supply_ge: "bal a + deposited L op own \<le> total_supply L bal"
  using le_sum[of bal a] le_sum[of "deposited L op" own] le_sum[of "\<lambda>op. \<Sum>own\<in>UNIV. deposited L op own" op]
  by (simp add: total_supply_def)

lemma pool_sum_le: "stakes_covered L \<Longrightarrow> (\<Sum>own\<in>UNIV. staked L op own) \<le> total_supply L bal"
proof -
  assume "stakes_covered L"
  then have "(\<Sum>own\<in>UNIV. staked L op own) \<le> (\<Sum>own\<in>UNIV. deposited L op own)"
    by (intro sum_mono) (simp add: stakes_covered_def)
  then show ?thesis
    using le_sum[of "\<lambda>op. \<Sum>own\<in>UNIV. deposited L op own" op] by (simp add: total_supply_def)
qed

section \<open>Stakes and powers\<close>

lemma staked_set_stake: "staked (set_stake op own n L) = upd2 (staked L) op own n"
  by (auto simp: staked_def stake_in_def set_stake_def fun_eq_iff)

lemma set_stake_sel [simp]:
  "l_operator (set_stake op own n L) = l_operator L" "l_power (set_stake op own n L) = l_power L"
  "l_nvp (set_stake op own n L) = l_nvp L" "deposited (set_stake op own n L) = deposited L"
  by (simp_all add: set_stake_def deposited_def fun_eq_iff)

lemma put_stake_sel [simp]:
  "l_operator (put_stake op own n L) = l_operator L" "l_power (put_stake op own n L) = l_power L"
  "l_nvp (put_stake op own n L) = l_nvp L" "deposited (put_stake op own n L) = deposited L"
  "l_delegated (put_stake op own n L) x x = l_delegated L x x"
  by (auto simp: put_stake_def deposited_def fun_eq_iff)

lemma staked_put_stake: "staked (put_stake op own n L) = upd2 (staked L) op own n"
  by (auto simp: staked_def stake_in_def put_stake_def fun_eq_iff)

lemma put_stake_other: "x \<noteq> op \<Longrightarrow> stake_in (put_stake op own n L) x y = stake_in L x y"
  by (auto simp: stake_in_def put_stake_def)

lemma records_complete_stake:
  "records_complete L \<Longrightarrow> records_complete (set_stake op own n L)"
  "records_complete L \<Longrightarrow> records_complete (put_stake op own n L)"
  by (auto simp: records_complete_def set_stake_def put_stake_def)

lemma set_stake_other: "x \<noteq> op \<Longrightarrow> stake_in (set_stake op own n L) x y = stake_in L x y"
  by (auto simp: stake_in_def set_stake_def)

lemma set_pool_power_sel [simp]:
  "l_operator (set_pool_power op pw m L) = l_operator L"
  "l_power (set_pool_power op pw m L) = (l_power L)(op := Some pw)" "l_nvp (set_pool_power op pw m L) = m"
  "l_delegated (set_pool_power op pw m L) = l_delegated L"
  "stake_in (set_pool_power op pw m L) = stake_in L" "staked (set_pool_power op pw m L) = staked L"
  "deposited (set_pool_power op pw m L) = deposited L" "records_complete (set_pool_power op pw m L) = records_complete L"
  by (simp_all add: set_pool_power_def deposited_def staked_def stake_in_def records_complete_def fun_eq_iff)

text \<open>What a heap holds after an insertion.\<close>

lemma heap_insert_entries:
  assumes "heap_insert m a n r m'" "m a = None" "m' x = Some k"
  shows "x = a \<and> k = n \<or> x \<noteq> a \<and> m x = Some k"
  using assms by (induction m a n r m' rule: heap_insert.induct) (auto split: if_splits)

lemma power_fell_entries:
  assumes "power_fell op pw m m'" "m' x = Some k"
  shows "x = op \<and> k = pw \<or> x \<noteq> op \<and> m x = Some k"
  using assms heap_insert_entries[of m op pw _ m' x k]
  by (fastforce simp: power_fell_def split: if_splits)

lemma power_rose_entries:
  assumes "power_rose op pw m m'" "m' x = Some k"
  shows "x = op \<and> k = pw \<or> x \<noteq> op \<and> m x = Some k"
  using assms heap_insert_entries[of m op pw _ m' x k]
  by (fastforce simp: power_rose_def split: if_splits)

text \<open>A pool whose stakes have changed is in order again once its power is their sum.\<close>

lemma repowered:
  assumes L: "pools_add_up cmp L" "nvp_current L" "pool_in L op" and L1: "stakes_covered L1"
    and same: "l_operator L1 = l_operator L" "l_power L1 = l_power L"
      "\<And>x own. x \<noteq> op \<Longrightarrow> stake_in L1 x own = stake_in L x own"
    and pw: "cmp (\<Sum>own\<in>UNIV. staked L1 op own) pw" "pw \<le> U64_MAX"
    and m: "\<And>x k. m x = Some k \<Longrightarrow> x = op \<and> k = pw \<or> x \<noteq> op \<and> l_nvp L x = Some k"
  shows "pools_add_up cmp (set_pool_power op pw m L1)" "stakes_covered (set_pool_power op pw m L1)"
    "nvp_current (set_pool_power op pw m L1)"
proof -
  have "x \<noteq> op \<Longrightarrow> staked L1 x = staked L x" for x
    by (simp add: staked_def same(3) fun_eq_iff)
  then show "pools_add_up cmp (set_pool_power op pw m L1)"
    using L(1,3) same pw by (auto simp: pools_add_up_def)
  show "stakes_covered (set_pool_power op pw m L1)"
    using L1 by (simp add: stakes_covered_def)
  show "nvp_current (set_pool_power op pw m L1)"
    using m L(2) same(2) by (force simp: nvp_current_def)
qed

section \<open>Every step of the specification keeps the invariant\<close>

lemma supply_cong: "deposited L' = deposited L \<Longrightarrow> total_supply L' bal = total_supply L bal"
  by (simp add: total_supply_def)

text \<open>Unstaking: the stake falls to \<open>k\<close> and the pool loses the difference.\<close>

lemma stake_falls:
  assumes cmp: "tally cmp" and add: "pools_add_up cmp L" "nvp_current L" "pool_in L op" "l_power L op = Some pw"
    and stk: "stake_in L op own = Some stk" "k \<le> stk"
    and cov: "stakes_covered (set_stake op own k L)"
    and m: "power_fell op (pw - (stk - k)) (l_nvp L) m"
  defines "L' \<equiv> set_pool_power op (pw - (stk - k)) m (set_stake op own k L)"
  shows "pools_add_up cmp L'" "stakes_covered L'" "nvp_current L'"
proof -
  have "cmp (\<Sum>y\<in>UNIV. staked L op y) pw" "pw \<le> U64_MAX"
    using pool_power add by blast+
  then have "cmp (\<Sum>y\<in>UNIV. staked (set_stake op own k L) op y) (pw - (stk - k))" "pw - (stk - k) \<le> U64_MAX"
    using sum_update[of "staked L op" own k] stk cmp
    by (auto simp: tally_def staked_set_stake upd2_def staked_def)
  from repowered[OF add(1-3) cov _ _ _ this power_fell_entries[OF m]] show
    "pools_add_up cmp L'" "stakes_covered L'" "nvp_current L'"
    unfolding L'_def by (simp_all add: set_stake_other)
qed

lemma set_stake_self [simp]: "l_delegated (set_stake op own n L) x x = l_delegated L x x"
  by (auto simp: set_stake_def)

lemma covered_set_stake:
  "stakes_covered L \<Longrightarrow> k \<le> deposited L op own \<Longrightarrow> stakes_covered (set_stake op own k L)"
  by (simp add: stakes_covered_def staked_set_stake)

lemma covered_stake: "stakes_covered L \<Longrightarrow> stake_in L op own = Some stk \<Longrightarrow> stk \<le> deposited L op own"
  by (metis staked_def option.case(2) id_apply stakes_covered_def)

lemma unstake_keeps:
  assumes "ledger_inv cmp L bal" "staking_error own (UnstakeDeposit op n) L bal = None"
    and "staking_effect own (UnstakeDeposit op n) L bal amount L' bal'"
  shows "ledger_inv cmp L' bal' \<and> total_supply L' bal' = total_supply L bal"
proof -
  have pool: "pool_in L op"
    using assms(2) by (simp split: if_split_asm)
  then obtain pw where pw: "l_power L op = Some pw"
    using ledger_wf_power[OF ledger_inv_wf[OF assms(1)]] by blast
  obtain stk where stk: "stake_in L op own = Some stk"
    using assms(2) by (auto split: if_split_asm)
  obtain m where m: "power_fell op (pw - min stk n) (l_nvp L) m"
    and eqs: "bal' = bal" "L' = set_pool_power op (pw - min stk n) m (set_stake op own (stk - n) L)"
    using assms(3) unfolding staking_effect.simps Let_def stk pw option.sel by blast
  have inv: "pools_add_up cmp L" "nvp_current L" "stakes_covered L" "tally cmp" "records_complete L"
    using assms(1) by (simp_all add: ledger_inv_def)
  have cov: "stakes_covered (set_stake op own (stk - n) L)"
    using covered_set_stake[OF inv(3)] covered_stake[OF inv(3) stk] by simp
  have eq: "stk - (stk - n) = min stk n"
    by simp
  from stake_falls[OF inv(4,1,2) pool pw stk _ cov, unfolded eq, OF _ m] records_complete_stake(1)[OF inv(5)]
  have "pools_add_up cmp L'" "stakes_covered L'" "nvp_current L'" "records_complete L'"
    using eqs(2) by simp_all
  moreover have "total_supply L' bal' = total_supply L bal"
    using eqs supply_cong[of L' L bal] by simp
  ultimately show ?thesis
    using assms(1) by (simp add: ledger_inv_def)
qed

text \<open>Staking: the stake rises by \<open>n\<close>, perhaps at the cost of a smaller one.\<close>

lemma rose_frame:
  assumes "stake_rose b op own n r L L1"
  shows "deposited L1 = deposited L" "l_operator L1 = l_operator L" "l_power L1 = l_power L"
    "l_nvp L1 = l_nvp L" "\<And>x y. x \<noteq> op \<Longrightarrow> stake_in L1 x y = stake_in L x y" "records_complete L \<Longrightarrow> records_complete L1"
proof -
  have *: "(\<exists>k. L1 = put_stake op own k L) \<or> (\<exists>m. L1 = L\<lparr>l_delegated := (l_delegated L)(op := m)\<rparr>)"
    using assms unfolding stake_rose_def by (meson)
  show "deposited L1 = deposited L" "l_operator L1 = l_operator L" "l_power L1 = l_power L"
    "l_nvp L1 = l_nvp L" "\<And>x y. x \<noteq> op \<Longrightarrow> stake_in L1 x y = stake_in L x y"
    using * by (auto simp: put_stake_other) (simp_all add: deposited_def stake_in_def fun_eq_iff)
  show "records_complete L \<Longrightarrow> records_complete L1"
    using * records_complete_stake(2)[of L op own] by (elim disjE exE) (simp_all add: records_complete_def)
qed

text \<open>
  The stakes in the pool after the rise: the stake rises by \<open>n\<close>, a new stake pushes out that of \<open>c\<close>, or
  a new stake is refused, which only a caller that does not exit on it gets to see.
\<close>

definition stakes_after ::
  "bool \<Rightarrow> (public_address \<Rightarrow> u64) \<Rightarrow> (public_address \<Rightarrow> u64) \<Rightarrow> public_address \<Rightarrow> u64 \<Rightarrow> u64 \<Rightarrow> bool" where
  "stakes_after b f f' own n add \<longleftrightarrow> f' = f(own := f own + n) \<and> add = n \<or>
     (\<exists>c. c \<noteq> own \<and> f own = 0 \<and> f' = f(own := n, c := 0) \<and> f c \<le> n \<and> add = n - f c) \<or>
     \<not> b \<and> f' = f \<and> add = n"

lemma stakes_after_le: "stakes_after b f f' own n add \<Longrightarrow> f' y \<le> f y \<or> y = own \<and> f' y = f own + n"
  by (auto simp: stakes_after_def split: if_splits)

lemma stakes_after_sum:
  assumes "stakes_after b f f' own n add"
  shows "(\<Sum>y\<in>UNIV. f' y) \<le> (\<Sum>y\<in>UNIV. f y) + add" "b \<Longrightarrow> (\<Sum>y\<in>UNIV. f' y) = (\<Sum>y\<in>UNIV. f y) + add"
proof (atomize (full), use assms[unfolded stakes_after_def] in \<open>elim disjE exE conjE\<close>)
  assume "f' = f(own := f own + n)" "add = n"
  then show "(\<Sum>y\<in>UNIV. f' y) \<le> (\<Sum>y\<in>UNIV. f y) + add \<and> (b \<longrightarrow> (\<Sum>y\<in>UNIV. f' y) = (\<Sum>y\<in>UNIV. f y) + add)"
    using sum_update[of f own "f own + n"] by simp
next
  fix c
  assume "c \<noteq> own" "f own = 0" "f' = f(own := n, c := 0)" "f c \<le> n" "add = n - f c"
  then show "(\<Sum>y\<in>UNIV. f' y) \<le> (\<Sum>y\<in>UNIV. f y) + add \<and> (b \<longrightarrow> (\<Sum>y\<in>UNIV. f' y) = (\<Sum>y\<in>UNIV. f y) + add)"
    using sum_update[of f own n] sum_update[of "f(own := n)" c 0] by simp linarith
qed simp

lemma rose_stakes:
  assumes cov: "stakes_covered L" and le: "staked L op own + n \<le> U64_MAX"
    and rose: "stake_rose b op own n (Inr add) L L1"
  shows "stakes_after b (staked L op) (staked L1 op) own n add \<and> l_delegated L1 x x = None"
proof (cases "op = own \<or> stake_in L op own \<noteq> None")
  case True
  then have "add = n" "L1 = put_stake op own (staked L op own + n) L"
    using rose le by (auto simp: stake_rose_def saturating_add_def staked_def)
  then show ?thesis
    using cov by (simp add: stakes_after_def staked_put_stake upd2_def stakes_covered_def)
next
  case False
  then obtain h m where ins: "heap_insert (l_delegated L op) own n h m" and
    L1: "L1 = L\<lparr>l_delegated := (l_delegated L)(op := m)\<rparr>" and
    add: "Inr add = (case h of Inl _ \<Rightarrow> if b then Inl () else Inr n | Inr None \<Rightarrow> Inr n
      | Inr (Some (b, k)) \<Rightarrow> Inr (n - k))"
    using rose by (auto simp: stake_rose_def)
  have none: "l_delegated L op op = None" "l_delegated L x x = None"
    using cov by (simp_all add: stakes_covered_def)
  obtain c where st: "staked L1 op = (\<lambda>y. if y = op then c else case_option 0 id (m y))"
    "staked L op = (\<lambda>y. if y = op then c else case_option 0 id (l_delegated L op y))"
    using L1 by (simp add: staked_def stake_in_def fun_eq_iff)
  have del: "l_delegated L1 x x = (if x = op then m op else None)"
    using L1 none by simp
  show ?thesis
  proof (cases h)
    case (Inl u)
    then show ?thesis
      using ins add none del by (cases b) (simp_all add: stakes_after_def st fun_eq_iff)
  next
    case (Inr e)
    show ?thesis
    proof (cases e)
      case None
      have "l_delegated L op own = None" "op \<noteq> own"
        using False by (auto simp: stake_in_delegated)
      then show ?thesis
        using ins add none del unfolding Inr None by (simp add: stakes_after_def st fun_eq_iff)
    next
      case (Some bk)
      obtain d k where bk: "bk = (d, k)"
        by force
      have "op \<noteq> own" "l_delegated L op own = None" "d \<noteq> op"
        using False ins none unfolding Inr Some bk by (auto simp: stake_in_delegated)
      then show ?thesis
        using ins add none del unfolding Inr Some bk stakes_after_def
        by (intro conjI disjI2 disjI1 exI[of _ d]) (auto simp: st fun_eq_iff)
    qed
  qed
qed

lemma stake_rises:
  assumes inv: "ledger_inv cmp L bal" and refused: "b \<or> cmp = (\<le>)"
    and pool: "pool_in L op" "l_power L op = Some pw" and le: "staked L op own + n \<le> deposited L op own"
    and gain: "stake_gained b op own pw n (Inr ()) L L'"
  shows "ledger_inv cmp L' bal" "deposited L' = deposited L"
    "staked L' x y \<le> staked L x y \<or> (x, y) = (op, own) \<and> staked L' x y = staked L op own + n"
proof -
  note parts = inv[unfolded ledger_inv_def]
  obtain add L1 m where rose: "stake_rose b op own n (Inr add) L L1" and
    m: "power_rose op (saturating_add pw add) (l_nvp L) m" and
    L': "L' = set_pool_power op (saturating_add pw add) m L1"
    using gain by (auto simp: stake_gained_Inr)
  note fr = rose_frame[OF rose]
  have bound: "staked L op own + n \<le> U64_MAX"
    using le supply_ge[of bal own L op own] parts by simp
  note stakes = rose_stakes[OF _ bound rose]
  have others: "x \<noteq> op \<Longrightarrow> staked L1 x y = staked L x y" for x y
    using fr(5)[of x y] by (simp add: staked_def)
  have rise: "staked L1 x y \<le> staked L x y \<or> (x, y) = (op, own) \<and> staked L1 x y = staked L op own + n" for x y
    using stakes_after_le[of b "staked L op" "staked L1 op" own n add y] stakes parts others[of x y]
    by (cases "x = op") auto
  have "staked L1 x y \<le> deposited L x y" for x y
    using rise[of x y] le parts unfolding stakes_covered_def by (metis order.trans prod.inject)
  then have cov: "stakes_covered L1"
    using stakes parts fr(1) by (simp add: stakes_covered_def)
  have sum: "(\<Sum>y\<in>UNIV. staked L1 op y) \<le> (\<Sum>y\<in>UNIV. staked L op y) + add"
    "b \<Longrightarrow> (\<Sum>y\<in>UNIV. staked L1 op y) = (\<Sum>y\<in>UNIV. staked L op y) + add"
    using stakes_after_sum stakes parts by blast+
  have "cmp (\<Sum>y\<in>UNIV. staked L op y) pw"
    using pool_power(1)[OF _ pool] parts by blast
  moreover have "(\<Sum>y\<in>UNIV. staked L1 op y) \<le> U64_MAX"
    using pool_sum_le[OF cov, of op bal] parts supply_cong[OF fr(1), of bal] by simp
  ultimately have "cmp (\<Sum>y\<in>UNIV. staked L1 op y) (saturating_add pw add)" "saturating_add pw add \<le> U64_MAX"
    using sum refused parts by (auto simp: saturating_add_def tally_def)
  from repowered[where cmp = cmp, OF _ _ pool(1) cov fr(2,3,5) this power_rose_entries[OF m]] parts fr(6) supply_cong[of L' L bal]
  show "ledger_inv cmp L' bal" "deposited L' = deposited L"
    using L' fr(1) by (simp_all add: ledger_inv_def)
  show "staked L' x y \<le> staked L x y \<or> (x, y) = (op, own) \<and> staked L' x y = staked L op own + n"
    using rise L' by simp
qed

lemma stake_keeps:
  assumes "ledger_inv cmp L bal" "staking_error own (StakeDeposit op n) L bal = None"
    and "staking_effect own (StakeDeposit op n) L bal amount L' bal'"
  shows "ledger_inv cmp L' bal' \<and> total_supply L' bal' = total_supply L bal"
proof -
  obtain dep where dep: "l_deposit L op own = Some dep" and pool: "pool_in L op"
    and pos: "stakable L op own dep n \<noteq> 0"
    using assms(2) by (simp split: option.split_asm if_split_asm)
  obtain pw where pw: "l_power L op = Some pw"
    using ledger_wf_power[OF ledger_inv_wf[OF assms(1)] pool] by blast
  have gain: "stake_gained True op own pw (stakable L op own dep n) (Inr ()) L L'" and bal: "bal' = bal"
    using assms(3) unfolding staking_effect.simps Let_def dep pw option.sel by blast+
  have "staked L op own + stakable L op own dep n \<le> deposited L op own"
    using pos by (simp add: stakable_def staked_def deposited_def dep min_def split: if_splits)
  from stake_rises[OF assms(1) _ pool pw this gain] bal show ?thesis
    using supply_cong[of L' L bal] by simp
qed

text \<open>Withdrawing: the deposit falls, then the stake is capped by what is left of it.\<close>

lemma stakes_same:
  assumes "l_operator_stake L1 = l_operator_stake L" "l_delegated L1 = l_delegated L"
  shows "stake_in L1 = stake_in L" "staked L1 = staked L"
  using assms by (simp_all add: stake_in_def staked_def fun_eq_iff)

lemma capped_keeps:
  assumes cmp: "tally cmp" and add: "pools_add_up cmp L" "nvp_current L" "records_complete L" and del: "\<And>x. l_delegated L x x = None"
    and others: "\<And>x y. \<not> (x = op \<and> y = own) \<Longrightarrow> staked L x y \<le> deposited L x y"
    and cap: "stake_capped op own (deposited L op own) L L'"
  shows "pools_add_up cmp L' \<and> records_complete L' \<and> stakes_covered L' \<and> nvp_current L' \<and> deposited L' = deposited L"
proof -
  let ?d = "deposited L op own"
  show ?thesis
  proof (cases "staked L op own \<le> ?d")
    case True
    have "L' = L"
      using cap True unfolding stake_capped_def staked_def by (auto split: option.split_asm)
    moreover have "staked L x y \<le> deposited L x y" for x y
      using others[of x y] True by (cases "x = op \<and> y = own") auto
    ultimately show ?thesis
      using add del by (simp add: stakes_covered_def)
  next
    case False
    then obtain p where p: "stake_in L op own = Some p" "?d < p"
      unfolding staked_def by (cases "stake_in L op own") auto
    then have pool: "pool_in L op"
      using add(1) unfolding pools_add_up_def by (metis option.distinct(1))
    then obtain pw where pw: "l_power L op = Some pw"
      using add(1) unfolding pools_add_up_def by metis
    obtain m where m: "power_fell op (pw - (p - ?d)) (l_nvp L) m"
      "L' = set_pool_power op (pw - (p - ?d)) m (set_stake op own ?d L)"
      using cap p pw by (auto simp: stake_capped_def)
    have cov: "stakes_covered (set_stake op own ?d L)"
      using others del by (auto simp: stakes_covered_def staked_set_stake)
    from stake_falls[OF cmp add(1,2) pool pw p(1) _ cov m(1)] p(2) m(2) records_complete_stake(1)[OF add(3)]
    show ?thesis
      by simp
  qed
qed

lemma withdraw_keeps:
  assumes "ledger_inv cmp L bal" "staking_error own (WithdrawDeposit op n) L bal = None"
    and "staking_effect own (WithdrawDeposit op n) L bal amount L' bal'"
  shows "ledger_inv cmp L' bal' \<and> total_supply L' bal' = total_supply L bal"
proof -
  obtain dep where dep: "l_deposit L op own = Some dep"
    using assms(2) by (auto split: option.split_asm)
  define w where "w = withdrawable L op own dep n"
  define L1 where "L1 = (if dep = w then L\<lparr>l_deposit := upd2 (l_deposit L) op own None,
      l_auto := upd2 (l_auto L) op own None\<rparr> else L\<lparr>l_deposit := upd2 (l_deposit L) op own (Some (dep - w))\<rparr>)"
  have cap: "stake_capped op own (dep - w) L1 L'" and bal: "bal' = bal(own := saturating_add (bal own) w)"
    using assms(3) unfolding staking_effect.simps Let_def dep option.sel w_def L1_def by blast+
  have same: "l_operator L1 = l_operator L" "l_power L1 = l_power L" "l_nvp L1 = l_nvp L"
    "l_delegated L1 = l_delegated L" "l_operator_stake L1 = l_operator_stake L"
    and dep1: "deposited L1 = upd2 (deposited L) op own (dep - w)"
    by (auto simp: L1_def deposited_def fun_eq_iff)
  have "records_complete L1"
    using assms(1) by (auto simp: L1_def ledger_inv_def records_complete_def)
  have inv: "tally cmp" "pools_add_up cmp L1" "nvp_current L1" "records_complete L1" "\<And>x. l_delegated L1 x x = None"
    "\<And>x y. \<not> (x = op \<and> y = own) \<Longrightarrow> staked L1 x y \<le> deposited L1 x y"
    using assms(1) same stakes_same[OF same(5,4)] dep1 \<open>records_complete L1\<close>
    by (auto simp: ledger_inv_def pools_add_up_def nvp_current_def stakes_covered_def)
  have "stake_capped op own (deposited L1 op own) L1 L'"
    using cap dep1 by simp
  note keep = capped_keeps[OF inv this]
  have "w \<le> dep" "deposited L op own = dep"
    using dep by (simp_all add: w_def withdrawable_le deposited_def)
  moreover have "bal own + dep \<le> U64_MAX"
    using supply_ge[of bal own L op own] assms(1) \<open>deposited L op own = dep\<close> by (simp add: ledger_inv_def)
  ultimately have "total_supply L' bal' = total_supply L bal"
    using keep dep1 bal
    by (intro supply_move[where a = own and op = op and d = "dep - w" and v = "saturating_add (bal own) w"])
       (simp_all add: saturating_add_def)
  then show ?thesis
    using keep assms(1) by (simp add: ledger_inv_def)
qed

text \<open>Paying in: what leaves the balance arrives in the deposit.\<close>

lemma pay_in_keeps:
  assumes inv: "ledger_inv cmp L bal" and n: "n \<le> bal own"
    and same: "l_operator L' = l_operator L" "l_power L' = l_power L" "l_nvp L' = l_nvp L"
      "l_delegated L' = l_delegated L" "l_operator_stake L' = l_operator_stake L" "records_complete L'"
    and dep: "deposited L' = upd2 (deposited L) op own (deposited L op own + n)"
    and bal: "bal' = bal(own := bal own - n)"
  shows "ledger_inv cmp L' bal' \<and> total_supply L' bal' = total_supply L bal"
proof -
  have "total_supply L' bal' = total_supply L bal"
    using n by (intro supply_move[OF _ bal dep]) (simp add: bal dep)
  moreover have "stakes_covered L'"
    using inv same(4) stakes_same[OF same(5,4)]
    by (auto simp: ledger_inv_def stakes_covered_def dep intro: trans_le_add1)
  ultimately show ?thesis
    using inv same stakes_same[OF same(5,4)]
    by (simp add: ledger_inv_def pools_add_up_def nvp_current_def)
qed

lemma create_deposit_keeps:
  assumes "ledger_inv cmp L bal" "staking_error own (CreateDeposit op n auto) L bal = None"
    and "staking_effect own (CreateDeposit op n auto) L bal amount L' bal'"
  shows "ledger_inv cmp L' bal' \<and> total_supply L' bal' = total_supply L bal"
  using assms
  by (intro pay_in_keeps[where op = op and n = n and own = own])
     (auto simp: deposited_def ledger_inv_def records_complete_def fun_eq_iff split: if_split_asm)

lemma topup_keeps:
  assumes "ledger_inv cmp L bal" "staking_error own (TopUpDeposit op n) L bal = None"
    and "staking_effect own (TopUpDeposit op n) L bal amount L' bal'"
  shows "ledger_inv cmp L' bal' \<and> total_supply L' bal' = total_supply L bal"
proof -
  obtain dep where dep: "l_deposit L op own = Some dep" and n: "n \<le> bal own"
    using assms(2) by (auto split: if_split_asm)
  have "dep + n \<le> U64_MAX"
    using supply_ge[of bal own L op own] assms(1) n dep by (simp add: ledger_inv_def deposited_def)
  then show ?thesis
    using assms(1,3) n dep
    by (intro pay_in_keeps[where op = op and n = n and own = own])
       (auto simp: deposited_def saturating_add_def ledger_inv_def records_complete_def fun_eq_iff)
qed

text \<open>Pools that come and go.\<close>

lemma create_pool_keeps:
  assumes "ledger_inv cmp L bal" "staking_error op (CreatePool rate) L bal = None"
    and "staking_effect op (CreatePool rate) L bal amount L' bal'"
  shows "ledger_inv cmp L' bal' \<and> total_supply L' bal' = total_supply L bal"
proof -
  obtain r m where m: "heap_insert (l_nvp L) op 0 r m" and bal: "bal' = bal" and
    L': "L' = L\<lparr>l_operator := (l_operator L)(op := Some op), l_power := (l_power L)(op := Some 0),
      l_rate := (l_rate L)(op := Some rate), l_operator_stake := (l_operator_stake L)(op := Some None), l_nvp := m\<rparr>"
    using assms(3) by auto
  have new: "\<not> pool_in L op"
    using assms(2) by (simp split: if_split_asm)
  then have none: "\<And>own. stake_in L op own = None" "l_nvp L op = None"
    using assms(1) ledger_wf_nvp[OF ledger_inv_wf[OF assms(1)] new]
    by (auto simp: ledger_inv_def pools_add_up_def)
  have stakes: "stake_in L' x y = stake_in L x y" for x y
    using none(1)[of y] by (auto simp: L' stake_in_def)
  have eqs: "staked L' = staked L" "deposited L' = deposited L"
    by (simp_all add: staked_def stakes fun_eq_iff) (simp add: L' deposited_def fun_eq_iff)
  have sels: "l_operator L' = (l_operator L)(op := Some op)" "l_power L' = (l_power L)(op := Some 0)"
    "l_nvp L' = m" "l_delegated L' = l_delegated L"
    by (simp_all add: L')
  have "nvp_current L'"
    using assms(1) heap_insert_entries[OF m none(2)] sels(2,3)
    by (force simp: ledger_inv_def nvp_current_def)
  moreover have "staked L op = (\<lambda>_. 0)"
    by (simp add: staked_def none(1) fun_eq_iff)
  moreover have "records_complete L'"
    using assms(1,2) by (auto simp: ledger_inv_def records_complete_def L' split: if_split_asm)
  ultimately show ?thesis
    using assms(1) supply_cong[OF eqs(2)] bal sels eqs stakes
    by (auto simp: ledger_inv_def pools_add_up_def stakes_covered_def tally_def)
qed

lemma delete_pool_keeps:
  assumes "ledger_inv cmp L bal" "staking_effect op DeletePool L bal amount L' bal'"
  shows "ledger_inv cmp L' bal' \<and> total_supply L' bal' = total_supply L bal"
proof -
  have bal: "bal' = bal" and L': "L' = L\<lparr>l_operator := (l_operator L)(op := None),
      l_power := (l_power L)(op := None), l_rate := (l_rate L)(op := None),
      l_operator_stake := (l_operator_stake L)(op := None),
      l_delegated := (l_delegated L)(op := (\<lambda>_. None)), l_nvp := (l_nvp L)(op := None)\<rparr>"
    using assms(2) by simp_all
  have stakes: "stake_in L' x y = (if x = op then None else stake_in L x y)" for x y
    by (auto simp: L' stake_in_def)
  have staked: "staked L' x = (if x = op then (\<lambda>_. 0) else staked L x)" for x
    by (auto simp: staked_def stakes fun_eq_iff)
  have dep: "deposited L' = deposited L"
    by (simp add: L' deposited_def fun_eq_iff)
  have sels: "l_operator L' = (l_operator L)(op := None)" "l_power L' = (l_power L)(op := None)"
    "l_nvp L' = (l_nvp L)(op := None)" "l_delegated L' = (l_delegated L)(op := (\<lambda>_. None))"
    by (simp_all add: L')
  show ?thesis
    using assms(1) supply_cong[OF dep] bal sels staked stakes dep
    by (simp add: ledger_inv_def pools_add_up_def records_complete_def stakes_covered_def nvp_current_def L')
qed

text \<open>Settings.\<close>

lemma settings_keep:
  assumes "ledger_inv cmp L bal" "bal' = bal"
    and "L' = L\<lparr>l_rate := (l_rate L)(op := Some rate)\<rparr> \<and> rate \<le> 100 \<or>
      L' = L\<lparr>l_auto := upd2 (l_auto L) op own b\<rparr> \<and> l_deposit L op own \<noteq> None"
  shows "ledger_inv cmp L' bal' \<and> total_supply L' bal' = total_supply L bal"
proof -
  have sels: "l_operator L' = l_operator L" "l_power L' = l_power L" "l_nvp L' = l_nvp L"
      "l_delegated L' = l_delegated L" "l_operator_stake L' = l_operator_stake L" "deposited L' = deposited L"
    using assms(3) by (auto simp: deposited_def fun_eq_iff)
  moreover have "records_complete L'"
    using assms(1,3) by (auto simp: ledger_inv_def records_complete_def split: if_split_asm)
  ultimately show ?thesis
    using assms(1,2) stakes_same[OF sels(5,4)] supply_cong[OF sels(6)]
    by (simp add: ledger_inv_def pools_add_up_def stakes_covered_def nvp_current_def)
qed

lemma staking_effect_keeps:
  assumes "ledger_inv cmp L bal" "staking_error actor cmd L bal = None" "staking_effect actor cmd L bal amount L' bal'"
  shows "ledger_inv cmp L' bal' \<and> total_supply L' bal' = total_supply L bal"
proof (cases cmd)
  case (CreatePool rate)
  show ?thesis by (rule create_pool_keeps[OF assms[unfolded CreatePool]])
next
  case (SetPoolSettings rate)
  show ?thesis by (rule settings_keep[OF assms(1)]) (use assms(2,3) SetPoolSettings in \<open>auto split: if_split_asm\<close>)
next
  case DeletePool
  show ?thesis by (rule delete_pool_keeps[OF assms(1) assms(3)[unfolded DeletePool]])
next
  case (CreateDeposit op n auto)
  show ?thesis by (rule create_deposit_keeps[OF assms[unfolded CreateDeposit]])
next
  case (SetDepositSettings op auto)
  show ?thesis
    by (rule settings_keep[OF assms(1)]) (use assms(2,3) SetDepositSettings in \<open>auto split: if_split_asm\<close>)
next
  case (TopUpDeposit op n)
  show ?thesis by (rule topup_keeps[OF assms[unfolded TopUpDeposit]])
next
  case (WithdrawDeposit op n)
  show ?thesis by (rule withdraw_keeps[OF assms[unfolded WithdrawDeposit]])
next
  case (StakeDeposit op n)
  show ?thesis by (rule stake_keeps[OF assms[unfolded StakeDeposit]])
next
  case (UnstakeDeposit op n)
  show ?thesis by (rule unstake_keeps[OF assms[unfolded UnstakeDeposit]])
qed (use assms(3) in simp_all)

section \<open>The commands keep the invariant\<close>

text \<open>Success of a staking command, with what it leaves behind.\<close>

lemma staking_ok:
  fixes R :: "('w, 'c, 'm, 'v) runtime" and st st' :: "('w, 'c, 'e) execution_state"
  assumes "network_laws R ab good" "at_state R ab good md L bal st" "ledger_wf L" "is_staking cmd"
    and "execute R st i actor cmd = Some (Ok, st')"
  obtains amount L' bal' where "staking_error actor cmd L bal = None"
    "staking_effect actor cmd L bal amount L' bal'" "at_state R ab good md L' bal' st'"
  using staking_runs[OF assms(1-4), of i actor] assms(5)
  by (auto simp: runs_def staking_outcome_def split: option.split_asm)

text \<open>A step that touches neither balances nor storage keeps the ledger.\<close>

lemma at_state_frame:
  assumes "at_state R ab good md L bal st" "es_frame (rt_ws R) {} C {} D st st'"
  shows "at_state R ab good md L bal st'"
proof -
  have "wsc_balance_view (rt_ws R) (es_cache st') = wsc_balance_view (rt_ws R) (es_cache st)"
    "gm_storage R (es_gm st') = gm_storage R (es_gm st)" "txn_meta st' = txn_meta st"
    using assms(2)
    by (auto simp: es_frame_def ctx_frame_def gm_frame_def wsc_frame_def es_cache_gm es_gm_def gm_storage_def
        net_view_def fun_eq_iff)
  then show ?thesis
    using assms es_frame_inv[OF assms(2)] by (simp add: at_state_def at_ledger_def gm_ok_def es_cache_gm)
qed

lemma transfer_moves:
  fixes R :: "('w, 'c, 'm, 'v) runtime" and st st' :: "('w, 'c, 'e) execution_state"
  assumes "at_state R ab good md L bal st" "transfer R st recipient amount = Some (Ok, st')"
  shows "amount \<le> bal (signer md) \<and> at_state R ab good md L
    ((bal(signer md := bal (signer md) - amount))(recipient :=
       saturating_add ((bal(signer md := bal (signer md) - amount)) recipient) amount)) st'"
proof -
  let ?b = "bal(signer md := bal (signer md) - amount)"
  have md: "txn_meta st = md"
    using assms(1) by (simp add: at_state_def)
  have "runs (transfer R st recipient amount) (\<lambda>r st'. r = Ok \<longrightarrow> amount \<le> bal (signer md) \<and>
    at_state R ab good md L (?b(recipient := saturating_add (?b recipient) amount)) st')"
    unfolding transfer_def Let_def md using assms(1)
    by - (assumption | rule balance_bind set_balance_bind runs_if | simp only: prod.case
      | (simp add: runs_def abort_def abort_if_gas_exhausted_def; fail))+
  then show ?thesis
    using assms(2) by (simp add: runs_def)
qed

lemma sum_transfer:
  fixes bal :: bank
  assumes "amount \<le> bal a" "(\<Sum>x\<in>UNIV. bal x) \<le> U64_MAX"
  shows "(\<Sum>x\<in>UNIV. ((bal(a := bal a - amount))(c := saturating_add ((bal(a := bal a - amount)) c) amount)) x) =
    (\<Sum>x\<in>UNIV. bal x)"
proof -
  let ?b = "bal(a := bal a - amount)"
  have s: "(\<Sum>x\<in>UNIV. ?b x) + amount = (\<Sum>x\<in>UNIV. bal x)"
    using sum_update[of bal a "bal a - amount"] assms(1) by simp
  then have "?b c + amount \<le> U64_MAX"
    using le_sum[of ?b c] assms(2) by simp
  then show ?thesis
    using sum_update[of ?b c "?b c + amount"] s by (simp add: saturating_add_def)
qed

lemma transfer_conserves:
  assumes "amount \<le> bal a" "total_supply L bal \<le> U64_MAX"
  shows "total_supply L ((bal(a := bal a - amount))(c := saturating_add ((bal(a := bal a - amount)) c) amount)) =
    total_supply L bal"
  using sum_transfer[of amount bal a c] assms by (simp add: total_supply_def)

lemma ledger_inv_bank: "ledger_inv cmp L bal \<Longrightarrow> total_supply L bal' \<le> total_supply L bal \<Longrightarrow> ledger_inv cmp L bal'"
  by (simp add: ledger_inv_def)

lemma command_keeps_books:
  fixes R :: "('w, 'c, 'm, 'v) runtime" and st st' :: "('w, 'c, 'e) execution_state"
  assumes laws: "network_laws R ab good" and at: "at_state R ab good md L bal st" and inv: "ledger_inv cmp L bal"
    and run: "execute R st i actor cmd = Some (Ok, st')" and no_call: "command_kind_of cmd \<noteq> KCall"
  shows "\<exists>L' bal'. at_state R ab good md L' bal' st' \<and> ledger_inv cmp L' bal' \<and>
    total_supply L' bal' = total_supply L bal"
proof (cases "is_staking cmd")
  case True
  then show ?thesis
    using staking_ok[OF laws at ledger_inv_wf[OF inv] True run] staking_effect_keeps[OF inv] by metis
next
  case False
  then consider (transfer) recipient amount where "cmd = Transfer recipient amount"
    | (deploy) code cbi where "cmd = Deploy code cbi" | (epoch) "cmd = NextEpoch"
    using no_call by (cases cmd) auto
  then show ?thesis
  proof cases
    case transfer
    define bal1 where "bal1 = bal(signer md := bal (signer md) - amount)"
    have moved: "amount \<le> bal (signer md)"
      "at_state R ab good md L (bal1(recipient := saturating_add (bal1 recipient) amount)) st'"
      using transfer_moves[OF at, of recipient amount st'] run unfolding transfer bal1_def by simp_all
    have "total_supply L (bal1(recipient := saturating_add (bal1 recipient) amount)) = total_supply L bal"
      using transfer_conserves[where bal = bal and a = "signer md" and amount = amount, OF moved(1)] inv unfolding bal1_def by (simp add: ledger_inv_def)
    then show ?thesis
      using moved(2) inv by (metis ledger_inv_bank order_refl)
  next
    case deploy
    have "at_state R ab good md L bal st'"
      using at_state_frame[OF at] exec.success_frame[OF run] unfolding deploy by simp
    then show ?thesis
      using inv by blast
  next
    case epoch
    then show ?thesis
      using run by simp
  qed
qed

end
