(* ===== verification/Example_Ledger.thy ===== *)
theory Example_Ledger
  imports Staking_Refinement
begin

text \<open>
  A network account that keeps the laws of the staking ledger, on every world state: each field is
  one storage cell, a pool has room for one delegated stake and the next validator set for one pool.
  It shows that the hypotheses on the network account can hold, evictions included.
\<close>

section \<open>Cells\<close>

fun enc_nat :: "nat \<Rightarrow> bytes" where
  "enc_nat n = (if n = 0 then [] else word_of_nat (n mod 256) # enc_nat (n div 256))"

declare enc_nat.simps [simp del]

lemma from_enc_nat [simp]: "from_le_bytes (enc_nat n) = n"
proof (induction n rule: enc_nat.induct)
  case (1 n)
  have "unat (word_of_nat (n mod 256) :: byte) = n mod 256"
    by (simp add: unat_of_nat)
  then show ?case
    using 1 by (subst enc_nat.simps) (auto simp: mult.commute)
qed

lemma enc_nat_evals:
  "enc_nat 0 = []" "enc_nat (numeral k) = word_of_nat (numeral k mod 256) # enc_nat (numeral k div 256)"
  "enc_nat (Suc 0) = [1]"
  by (subst enc_nat.simps; simp add: enc_nat.simps[of 0])+

definition cell_key :: "byte \<Rightarrow> public_address \<Rightarrow> public_address \<Rightarrow> bytes" where
  "cell_key t a b = t # to_le_bytes 32 (unat a) @ to_le_bytes 32 (unat b)"

lemma le_bytes_address: "to_le_bytes 32 (unat a) = to_le_bytes 32 (unat b) \<longleftrightarrow> a = b" for a b :: public_address
proof
  assume "to_le_bytes 32 (unat a) = to_le_bytes 32 (unat b)"
  then have "from_le_bytes (to_le_bytes 32 (unat a)) = from_le_bytes (to_le_bytes 32 (unat b))"
    by simp
  moreover have "unat c < 256 ^ 32" for c :: public_address
    using unsigned_less[of c] by simp
  ultimately show "a = b"
    by (simp add: from_to_le_bytes_exact word_unat_eq_iff)
qed simp

lemma cell_key_eq [simp]: "cell_key t a b = cell_key t' a' b' \<longleftrightarrow> t = t' \<and> a = a' \<and> b = b'"
  by (auto simp: cell_key_def le_bytes_address append_eq_append_conv)

lemma length_cell_key: "length (cell_key t a b) = 65"
  by (simp add: cell_key_def)

text \<open>A cell holds a number; the empty value stands for no number.\<close>

definition put_cell :: "nat \<Rightarrow> bytes" where
  "put_cell n = 1 # enc_nat n"

fun val_cell :: "bytes option \<Rightarrow> nat option" where
  "val_cell (Some (x # bs)) = Some (from_le_bytes bs)"
| "val_cell _ = None"

lemma val_put_cell [simp]: "val_cell (Some (put_cell n)) = Some n"
  by (simp add: put_cell_def)

definition cell :: "net_storage \<Rightarrow> byte \<Rightarrow> public_address \<Rightarrow> public_address \<Rightarrow> nat option" where
  "cell \<sigma> t a b = (case \<sigma> (cell_key t a b) of Some v \<Rightarrow> val_cell v | None \<Rightarrow> None)"

definition sound :: "net_storage \<Rightarrow> bool" where
  "sound \<sigma> \<longleftrightarrow> (\<forall>k. \<sigma> k \<noteq> None)"

lemma cell_put [simp]:
  "cell (\<sigma>(cell_key t a b := Some (Some (put_cell n)))) t' a' b' =
     (if t' = t \<and> a' = a \<and> b' = b then Some n else cell \<sigma> t' a' b')"
  "cell (\<sigma>(cell_key t a b := Some (Some []))) t' a' b' =
     (if t' = t \<and> a' = a \<and> b' = b then None else cell \<sigma> t' a' b')"
  by (simp_all add: cell_def)

text \<open>An address with a power in one cell.\<close>

definition enc_entry :: "public_address \<Rightarrow> u64 \<Rightarrow> nat" where
  "enc_entry a n = n * 2 ^ 256 + unat a"

definition entry_owner :: "nat \<Rightarrow> public_address" where
  "entry_owner e = word_of_nat e"

definition entry_power :: "nat \<Rightarrow> u64" where
  "entry_power e = e div 2 ^ 256"

lemma entry_sel [simp]: "entry_owner (enc_entry a n) = a" "entry_power (enc_entry a n) = n"
proof -
  have lt: "unat a < 2 ^ 256"
    using unsigned_less[of a] by simp
  have "(word_of_nat (n * 2 ^ 256 + unat a) :: public_address) = word_of_nat (unat a)"
    unfolding word_of_nat_eq_iff by (simp add: take_bit_eq_mod)
  then show "entry_owner (enc_entry a n) = a"
    by (simp add: entry_owner_def enc_entry_def)
  show "entry_power (enc_entry a n) = n"
    using lt by (simp add: entry_power_def enc_entry_def)
qed

section \<open>The network account\<close>

definition get_cell :: "byte \<Rightarrow> public_address \<Rightarrow> public_address \<Rightarrow> (nat option \<Rightarrow> 'a na_prog) \<Rightarrow> 'a na_prog" where
  "get_cell t a b c = NA_Get (cell_key t a b) (\<lambda>v. c (val_cell v))"

definition set_cell :: "byte \<Rightarrow> public_address \<Rightarrow> public_address \<Rightarrow> nat \<Rightarrow> 'a na_prog \<Rightarrow> 'a na_prog" where
  "set_cell t a b n c = NA_Set (cell_key t a b) (put_cell n) c"

definition del_cell :: "byte \<Rightarrow> public_address \<Rightarrow> public_address \<Rightarrow> 'a na_prog \<Rightarrow> 'a na_prog" where
  "del_cell t a b c = NA_Delete (cell_key t a b) c"

text \<open>A slot holds at most one entry, and a stronger one takes its place.\<close>

definition slot_insert ::
  "byte \<Rightarrow> public_address \<Rightarrow> (nat \<Rightarrow> 'k) \<Rightarrow> public_address \<Rightarrow> u64 \<Rightarrow> (unit + 'k option) na_prog" where
  "slot_insert t p conv a n = get_cell t p 0 (\<lambda>v. case v of
     None \<Rightarrow> set_cell t p 0 (enc_entry a n) (NA_Return (Inr None))
   | Some e \<Rightarrow> if entry_power e < n then set_cell t p 0 (enc_entry a n) (NA_Return (Inr (Some (conv e))))
       else NA_Return (Inl ()))"

definition slot_remove :: "byte \<Rightarrow> public_address \<Rightarrow> public_address \<Rightarrow> unit na_prog" where
  "slot_remove t p a = get_cell t p 0 (\<lambda>v. case v of
     Some e \<Rightarrow> if entry_owner e = a then del_cell t p 0 (NA_Return ()) else NA_Return ()
   | None \<Rightarrow> NA_Return ())"

definition slot_of :: "nat option \<Rightarrow> public_address \<Rightarrow> u64 option" where
  "slot_of v a = (case v of Some e \<Rightarrow> if entry_owner e = a then Some (entry_power e) else None | None \<Rightarrow> None)"

definition enc_stake :: "stake option \<Rightarrow> nat" where
  "enc_stake k = (case k of None \<Rightarrow> 0 | Some s \<Rightarrow> Suc (enc_entry (owner s) (stake_power s)))"

definition dec_stake :: "nat \<Rightarrow> stake option" where
  "dec_stake e = (case e of 0 \<Rightarrow> None | Suc d \<Rightarrow> Some \<lparr>owner = entry_owner d, stake_power = entry_power d\<rparr>)"

lemma dec_enc_stake [simp]: "dec_stake (enc_stake k) = k"
  by (simp add: dec_stake_def enc_stake_def split: option.split)

definition slot_stake :: "nat \<Rightarrow> stake" where
  "slot_stake e = \<lparr>owner = entry_owner e, stake_power = entry_power e\<rparr>"

definition slot_pool :: "nat \<Rightarrow> pool_key" where
  "slot_pool e = \<lparr>pk_operator = entry_owner e, pk_power = entry_power e\<rparr>"

definition cell_pools :: "public_address pool_api" where
  "cell_pools =
     \<lparr>p_exists = (\<lambda>op. get_cell 0 op 0 (\<lambda>v. NA_Return (v \<noteq> None))),
      p_operator = (\<lambda>op. get_cell 0 op 0 (\<lambda>v. NA_Return (map_option word_of_nat v))),
      p_power = (\<lambda>op. get_cell 1 op 0 NA_Return),
      p_commission_rate = (\<lambda>op. get_cell 2 op 0 NA_Return),
      p_operator_stake = (\<lambda>op. get_cell 3 op 0 (\<lambda>v. NA_Return (map_option dec_stake v))),
      p_set_operator = (\<lambda>op a. set_cell 0 op 0 (unat a) (NA_Return ())),
      p_set_power = (\<lambda>op n. set_cell 1 op 0 n (NA_Return ())),
      p_set_commission_rate = (\<lambda>op n. set_cell 2 op 0 n (NA_Return ())),
      p_set_operator_stake = (\<lambda>op k. set_cell 3 op 0 (enc_stake k) (NA_Return ())),
      p_delete = (\<lambda>op. del_cell 0 op 0 (del_cell 1 op 0 (del_cell 2 op 0 (del_cell 3 op 0
         (del_cell 4 op 0 (NA_Return ())))))),
      ds_length = (\<lambda>op. get_cell 4 op 0 (\<lambda>v. NA_Return (if v = None then 0 else 1))),
      ds_get = (\<lambda>op i. get_cell 4 op 0 (\<lambda>v. NA_Return (if i = 0 then map_option slot_stake v else None))),
      ds_get_by = (\<lambda>op a. get_cell 4 op 0 (\<lambda>v. NA_Return
         (map_option (\<lambda>n. \<lparr>owner = a, stake_power = n\<rparr>) (slot_of v a)))),
      ds_unordered_values = (\<lambda>op. get_cell 4 op 0 (\<lambda>v. NA_Return
         (case v of Some e \<Rightarrow> [slot_stake e] | None \<Rightarrow> []))),
      ds_change_key = (\<lambda>op k. set_cell 4 op 0 (enc_entry (owner k) (stake_power k)) (NA_Return ())),
      ds_insert_extract = (\<lambda>op k. slot_insert 4 op slot_stake (owner k) (stake_power k)),
      ds_remove_item = (\<lambda>op a. slot_remove 4 op a)\<rparr>"

definition cell_deposits :: deposits_api where
  "cell_deposits =
     \<lparr>d_exists = (\<lambda>op a. get_cell 5 op a (\<lambda>v. NA_Return (v \<noteq> None))),
      d_balance = (\<lambda>op a. get_cell 5 op a NA_Return),
      d_auto_stake_rewards = (\<lambda>op a. get_cell 6 op a (\<lambda>v. NA_Return (map_option (\<lambda>n. n = 1) v))),
      d_set_balance = (\<lambda>op a n. set_cell 5 op a n (NA_Return ())),
      d_set_auto_stake_rewards = (\<lambda>op a b. set_cell 6 op a (if b then 1 else 0) (NA_Return ())),
      d_delete = (\<lambda>op a. del_cell 5 op a (del_cell 6 op a (NA_Return ())))\<rparr>"

definition cell_nvp :: nvp_api where
  "cell_nvp =
     \<lparr>nvp_length = get_cell 7 0 0 (\<lambda>v. NA_Return (if v = None then 0 else 1)),
      nvp_get = (\<lambda>i. get_cell 7 0 0 (\<lambda>v. NA_Return (if i = 0 then map_option slot_pool v else None))),
      nvp_get_by = (\<lambda>op. get_cell 7 0 0 (\<lambda>v. NA_Return
         (map_option (\<lambda>n. \<lparr>pk_operator = op, pk_power = n\<rparr>) (slot_of v op)))),
      nvp_change_key = (\<lambda>k. set_cell 7 0 0 (enc_entry (pk_operator k) (pk_power k)) (NA_Return ())),
      nvp_insert_extract = (\<lambda>k. slot_insert 7 0 slot_pool (pk_operator k) (pk_power k)),
      nvp_remove_item = (\<lambda>op. slot_remove 7 0 op)\<rparr>"

text \<open>A validator set has room for one pool; its handle names the set.\<close>

definition handle_set :: "pool_handle \<Rightarrow> public_address" where
  "handle_set h = (if h = [0] then 0 else 1)"

definition or_zero :: "nat option \<Rightarrow> nat" where
  "or_zero v = (case v of Some n \<Rightarrow> n | None \<Rightarrow> 0)"

definition cell_vs_pools :: "pool_handle pool_api" where
  "cell_vs_pools = (kv_pool_api (\<lambda>h. [5] @ h))
     \<lparr>p_operator := (\<lambda>h. get_cell 8 (handle_set h) 0 (\<lambda>v. NA_Return (map_option word_of_nat v))),
      p_commission_rate := (\<lambda>h. get_cell 9 (handle_set h) 0 (\<lambda>v. NA_Return (Some (or_zero v)))),
      p_power := (\<lambda>h. get_cell 10 (handle_set h) 0 (\<lambda>v. NA_Return (Some (or_zero v)))),
      p_operator_stake := (\<lambda>h. get_cell 11 (handle_set h) 0 (\<lambda>v. NA_Return (Some (dec_stake (or_zero v))))),
      ds_length := (\<lambda>h. get_cell 12 (handle_set h) 0 (\<lambda>v. NA_Return (if v = None then 0 else 1))),
      ds_get := (\<lambda>h j. get_cell 12 (handle_set h) 0 (\<lambda>v. NA_Return (if j = 0 then map_option slot_stake v else None))),
      ds_get_by := (\<lambda>h a. get_cell 12 (handle_set h) 0 (\<lambda>v. NA_Return
         (map_option (\<lambda>n. \<lparr>owner = a, stake_power = n\<rparr>) (slot_of v a))))\<rparr>"

definition seat_handle :: "pool_handle \<Rightarrow> public_address \<Rightarrow> nat option \<Rightarrow> pool_handle option" where
  "seat_handle h op v = (case v of Some n \<Rightarrow> if word_of_nat n = op then Some h else None | None \<Rightarrow> None)"

definition cell_set :: "pool_handle \<Rightarrow> validator_set_api" where
  "cell_set h = (let w = handle_set h in
     \<lparr>vs_length = get_cell 8 w 0 (\<lambda>v. NA_Return (if v = None then 0 else 1)),
      vs_pool_at = (\<lambda>i. get_cell 8 w 0 (\<lambda>v. NA_Return (if v \<noteq> None \<and> i = 0 then Some h else None))),
      vs_pool = (\<lambda>op. get_cell 8 w 0 (\<lambda>v. NA_Return (seat_handle h op v))),
      vs_clear = del_cell 8 w 0 (del_cell 9 w 0 (del_cell 10 w 0 (del_cell 11 w 0 (del_cell 12 w 0 (NA_Return ()))))),
      vs_push = (\<lambda>p ss. set_cell 8 w 0 (unat (pl_operator p)) (set_cell 9 w 0 (pl_commission_rate p)
        (set_cell 10 w 0 (pl_power p) (set_cell 11 w 0 (enc_stake (pl_operator_stake p))
          (case ss of [] \<Rightarrow> del_cell 12 w 0 (NA_Return ())
           | k # _ \<Rightarrow> set_cell 12 w 0 (enc_entry (owner k) (stake_power k)) (NA_Return ()))))))\<rparr>)"

definition cell_network :: network_account where
  "cell_network = kv_network\<lparr>pools := cell_pools, deposits := cell_deposits, nvp := cell_nvp,
     vs_pools := cell_vs_pools, vp := cell_set [0], pvp := cell_set [1],
     na_current_epoch := get_cell 13 0 0 (\<lambda>v. NA_Return (or_zero v)),
     na_set_current_epoch := (\<lambda>n. set_cell 13 0 0 n (NA_Return ()))\<rparr>"

definition ledger_of :: "net_storage \<Rightarrow> ledger" where
  "ledger_of \<sigma> =
     \<lparr>l_operator = (\<lambda>op. map_option word_of_nat (cell \<sigma> 0 op 0)),
      l_power = (\<lambda>op. cell \<sigma> 1 op 0), l_rate = (\<lambda>op. cell \<sigma> 2 op 0),
      l_operator_stake = (\<lambda>op. map_option dec_stake (cell \<sigma> 3 op 0)),
      l_delegated = (\<lambda>op. slot_of (cell \<sigma> 4 op 0)),
      l_deposit = cell \<sigma> 5, l_auto = (\<lambda>op a. map_option (\<lambda>n. n = 1) (cell \<sigma> 6 op a)),
      l_nvp = slot_of (cell \<sigma> 7 0 0),
      l_vp = (\<lambda>op. seat_handle [0] op (cell \<sigma> 8 0 0)), l_pvp = (\<lambda>op. seat_handle [1] op (cell \<sigma> 8 1 0)),
      l_vs_operator_stake = (\<lambda>h. Some (dec_stake (or_zero (cell \<sigma> 11 (handle_set h) 0)))),
      l_vs_delegated = (\<lambda>h. slot_of (cell \<sigma> 12 (handle_set h) 0))\<rparr>"

section \<open>The laws hold\<close>

text \<open>
  A storage in which every key can be read and the keys of \<open>free\<close> can be written; the two storages of
  the network account are such storages, on all sound states and on those that agree on a part of
  their cells.
\<close>

text \<open>A program without a result that changes the storage by \<open>w\<close>.\<close>

definition stores ::
  "'s nas \<Rightarrow> ('s \<Rightarrow> net_storage) \<Rightarrow> ('s \<Rightarrow> bool) \<Rightarrow> unit na_prog \<Rightarrow> (net_storage \<Rightarrow> net_storage) \<Rightarrow> bool" where
  "stores I obs ok p w \<longleftrightarrow> (\<forall>s. ok s \<longrightarrow> (\<exists>s'. run_na I p s = Some ((), s') \<and> obs s' = w (obs s) \<and> ok s'))"

lemma slot_of_entry [simp]: "slot_of (Some (enc_entry a n)) = (\<lambda>x. if x = a then Some n else None)"
  "slot_of None = (\<lambda>x. None)"
  by (auto simp: slot_of_def fun_eq_iff)

lemma network_cells:
  "pools cell_network = cell_pools" "deposits cell_network = cell_deposits" "nvp cell_network = cell_nvp"
  "vs_pools cell_network = cell_vs_pools" "vp cell_network = cell_set [0]" "pvp cell_network = cell_set [1]"
  by (simp_all add: cell_network_def)

locale cell_storage =
  fixes I :: "'s nas" and obs :: "'s \<Rightarrow> net_storage" and ok :: "'s \<Rightarrow> bool" and free :: "byte set"
  assumes get_cells: "ok s \<Longrightarrow> \<exists>v s'. nas_get I s (cell_key t a b) = Some (v, s') \<and> obs s' = obs s \<and> ok s' \<and>
      val_cell v = cell (obs s) t a b"
    and set_cells: "ok s \<Longrightarrow> t \<in> free \<Longrightarrow> \<exists>s'. nas_set I s (cell_key t a b) d = Some s' \<and>
      obs s' = (obs s)(cell_key t a b := Some (Some d)) \<and> ok s'"
    and delete_cells: "ok s \<Longrightarrow> t \<in> free \<Longrightarrow> \<exists>s'. nas_delete I s (cell_key t a b) = Some s' \<and>
      obs s' = (obs s)(cell_key t a b := Some (Some [])) \<and> ok s'"
begin

lemma run_get_cell:
  "ok s \<Longrightarrow> \<exists>s'. run_na I (get_cell t a b c) s = run_na I (c (cell (obs s) t a b)) s' \<and> obs s' = obs s \<and> ok s'"
  using get_cells[of s t a b] by (auto simp: get_cell_def)

lemma run_set_cell:
  "ok s \<Longrightarrow> t \<in> free \<Longrightarrow> \<exists>s'. run_na I (set_cell t a b n c) s = run_na I c s' \<and>
    obs s' = (obs s)(cell_key t a b := Some (Some (put_cell n))) \<and> ok s'"
  using set_cells[of s t a b "put_cell n"] by (auto simp: set_cell_def)

lemma run_del_cell:
  "ok s \<Longrightarrow> t \<in> free \<Longrightarrow> \<exists>s'. run_na I (del_cell t a b c) s = run_na I c s' \<and>
    obs s' = (obs s)(cell_key t a b := Some (Some [])) \<and> ok s'"
  using delete_cells[of s t a b] by (auto simp: del_cell_def)

lemma answers_get:
  assumes "\<And>s. ok s \<Longrightarrow> F (ab (obs s)) = f (cell (obs s) t a b)"
  shows "answers I (\<lambda>s. ab (obs s)) ok (get_cell t a b (\<lambda>v. NA_Return (f v))) F"
  unfolding answers_def
proof (intro allI impI)
  fix s
  assume "ok s"
  from run_get_cell[OF this, of t a b "\<lambda>v. NA_Return (f v)"] assms[OF this]
  show "\<exists>s'. run_na I (get_cell t a b (\<lambda>v. NA_Return (f v))) s = Some (F (ab (obs s)), s') \<and> ab (obs s') = ab (obs s) \<and> ok s'"
    by auto
qed

lemma stores_return: "stores I obs ok (NA_Return ()) (\<lambda>\<sigma>. \<sigma>)"
  by (simp add: stores_def)

lemma stores_set:
  "stores I obs ok p w \<Longrightarrow> t \<in> free \<Longrightarrow> stores I obs ok (set_cell t a b n p) (\<lambda>\<sigma>. w (\<sigma>(cell_key t a b := Some (Some (put_cell n)))))"
  unfolding stores_def by (metis run_set_cell)

lemma stores_del:
  "stores I obs ok p w \<Longrightarrow> t \<in> free \<Longrightarrow> stores I obs ok (del_cell t a b p) (\<lambda>\<sigma>. w (\<sigma>(cell_key t a b := Some (Some []))))"
  unfolding stores_def by (metis run_del_cell)

lemma stores_get:
  "(\<And>v. stores I obs ok (p v) (w v)) \<Longrightarrow> stores I obs ok (get_cell t a b p) (\<lambda>\<sigma>. w (cell \<sigma> t a b) \<sigma>)"
  unfolding stores_def by (metis run_get_cell)

lemma stores_updates:
  assumes "stores I obs ok p w" "\<And>\<sigma>. pre (ab \<sigma>) \<Longrightarrow> ab (w \<sigma>) = u (ab \<sigma>)"
  shows "updates I (\<lambda>s. ab (obs s)) ok p pre u"
  unfolding updates_def
proof (intro allI impI)
  fix s
  assume "ok s" "pre (ab (obs s))"
  then show "\<exists>s'. run_na I p s = Some ((), s') \<and> ab (obs s') = u (ab (obs s)) \<and> ok s'"
    using assms unfolding stores_def by metis
qed

lemma stores_slot_remove:
  "t \<in> free \<Longrightarrow> stores I obs ok (slot_remove t p a) (\<lambda>\<sigma>. case cell \<sigma> t p 0 of
     Some e \<Rightarrow> if entry_owner e = a then \<sigma>(cell_key t p 0 := Some (Some [])) else \<sigma> | None \<Rightarrow> \<sigma>)"
  unfolding slot_remove_def
  by (rule stores_get[where w = "\<lambda>v \<sigma>. case v of
        Some e \<Rightarrow> if entry_owner e = a then \<sigma>(cell_key t p 0 := Some (Some [])) else \<sigma> | None \<Rightarrow> \<sigma>"])
     (auto simp: stores_return stores_del[OF stores_return] split: option.split)

lemma inserts_slot:
  assumes free: "t \<in> free" and entry: "\<And>e. entry (conv e) = (entry_owner e, entry_power e)"
    and heap: "\<And>\<sigma>. heap (ledger_of \<sigma>) = slot_of (cell \<sigma> t p 0)"
    and put: "\<And>\<sigma>. ledger_of (\<sigma>(cell_key t p 0 := Some (Some (put_cell (enc_entry a n))))) =
      put (\<lambda>x. if x = a then Some n else None) (ledger_of \<sigma>)"
    and same: "\<And>\<sigma>. put (slot_of (cell \<sigma> t p 0)) (ledger_of \<sigma>) = ledger_of \<sigma>"
  shows "inserts I (\<lambda>s. ledger_of (obs s)) ok (slot_insert t p conv a n)
    entry heap put a n"
  unfolding inserts_def
proof (intro allI impI)
  fix g
  assume ok: "ok g" and none: "heap (ledger_of (obs g)) a = None"
  let ?s = "cell (obs g) t p 0"
  obtain g1 where g1: "obs g1 = obs g" "ok g1" and
    run: "run_na I (slot_insert t p conv a n) g = run_na I (case ?s of
       None \<Rightarrow> set_cell t p 0 (enc_entry a n) (NA_Return (Inr None))
     | Some e \<Rightarrow> if entry_power e < n then set_cell t p 0 (enc_entry a n) (NA_Return (Inr (Some (conv e))))
         else NA_Return (Inl ())) g1"
    using run_get_cell[OF ok, of t p 0 "\<lambda>v. case v of
       None \<Rightarrow> set_cell t p 0 (enc_entry a n) (NA_Return (Inr None))
     | Some e \<Rightarrow> if entry_power e < n then set_cell t p 0 (enc_entry a n) (NA_Return (Inr (Some (conv e))))
         else NA_Return (Inl ())"]
    unfolding slot_insert_def by blast
  have set: "\<exists>g'. run_na I (set_cell t p 0 (enc_entry a n) (NA_Return r)) g1 = Some (r, g') \<and>
      ledger_of (obs g') = put (\<lambda>x. if x = a then Some n else None) (ledger_of (obs g)) \<and>
      ok g'" for r :: "unit + 'k option"
    using run_set_cell[OF g1(2) free, of p 0 "enc_entry a n" "NA_Return r"] g1(1) put by auto
  show "\<exists>r g' m. run_na I (slot_insert t p conv a n) g = Some (r, g') \<and>
      heap_insert (heap (ledger_of (obs g))) a n (map_sum id (map_option entry) r) m \<and>
      ledger_of (obs g') = put m (ledger_of (obs g)) \<and> ok g'"
  proof (cases ?s)
    case None
    have "heap_insert (heap (ledger_of (obs g))) a n (map_sum id (map_option entry) (Inr None))
      (\<lambda>x. if x = a then Some n else None)"
      by (simp add: heap None fun_eq_iff)
    then show ?thesis
      using set[of "Inr None"] unfolding run None option.case by blast
  next
    case (Some e)
    then have slot: "heap (ledger_of (obs g)) = (\<lambda>x. if x = entry_owner e then Some (entry_power e) else None)"
      and ne: "entry_owner e \<noteq> a"
      using none by (auto simp: heap slot_of_def fun_eq_iff split: if_split_asm)
    show ?thesis
    proof (cases "entry_power e < n")
      case True
      have "heap_insert (heap (ledger_of (obs g))) a n (map_sum id (map_option entry) (Inr (Some (conv e))))
        (\<lambda>x. if x = a then Some n else None)"
        using True ne by (auto simp: slot entry fun_eq_iff)
      then show ?thesis
        using set[of "Inr (Some (conv e))"] True unfolding run Some option.case if_P[OF True] by blast
    next
      case False
      have "put (heap (ledger_of (obs g))) (ledger_of (obs g)) = ledger_of (obs g)"
        using same heap by simp
      then show ?thesis
        using run Some False g1 by (intro exI[of _ "Inl ()"] exI[of _ g1] exI[of _ "heap (ledger_of (obs g))"]) simp
    qed
  qed
qed

lemma pool_laws_cells:
  assumes "{0, 1, 2, 3, 4} \<subseteq> free"
  shows "pool_laws cell_network I (\<lambda>s. ledger_of (obs s)) ok"
  unfolding pool_laws_def network_cells cell_pools_def pool_api.simps
  by (intro allI conjI; (rule answers_get[where ab = ledger_of] stores_updates[where ab = ledger_of, OF stores_set[OF stores_return]]
      stores_updates[where ab = ledger_of, OF stores_del[OF stores_del[OF stores_del[OF stores_del[OF stores_del[OF stores_return]]]]]])+)
    (use assms in \<open>auto simp: ledger_of_def fun_eq_iff\<close>)

lemma deposit_laws_cells:
  assumes "{5, 6} \<subseteq> free"
  shows "deposit_laws cell_network I (\<lambda>s. ledger_of (obs s)) ok"
  unfolding deposit_laws_def network_cells cell_deposits_def deposits_api.simps
  by (intro allI conjI; (rule answers_get[where ab = ledger_of] stores_updates[where ab = ledger_of, OF stores_set[OF stores_return]]
      stores_updates[where ab = ledger_of, OF stores_del[OF stores_del[OF stores_return]]])+)
    (use assms in \<open>auto simp: ledger_of_def fun_eq_iff\<close>)

lemma delegation_laws_cells:
  assumes "4 \<in> free"
  shows "delegation_laws cell_network I (\<lambda>s. ledger_of (obs s)) ok"
  unfolding delegation_laws_def network_cells cell_pools_def pool_api.simps stake.simps
  by (intro allI conjI;
     ((rule answers_get[where ab = ledger_of], (simp add: ledger_of_def; fail))
    | (rule stores_updates[where ab = ledger_of, OF stores_set[OF stores_return assms]] stores_updates[where ab = ledger_of, OF stores_slot_remove[OF assms]],
       (auto simp: ledger_of_def fun_eq_iff slot_of_def split: option.splits if_splits; fail))
    | (rule inserts_slot[OF assms]; simp add: ledger_of_def fun_eq_iff slot_stake_def stake_entry_def)))

lemma nvp_laws_cells:
  assumes "7 \<in> free"
  shows "nvp_laws cell_network I (\<lambda>s. ledger_of (obs s)) ok"
  unfolding nvp_laws_def network_cells cell_nvp_def nvp_api.simps pool_key.simps
  by (intro allI conjI;
     ((rule answers_get[where ab = ledger_of], (simp add: ledger_of_def; fail))
    | (rule stores_updates[where ab = ledger_of, OF stores_set[OF stores_return assms]] stores_updates[where ab = ledger_of, OF stores_slot_remove[OF assms]],
       (auto simp: ledger_of_def fun_eq_iff slot_of_def split: option.splits if_splits; fail))
    | (rule inserts_slot[OF assms]; simp add: ledger_of_def fun_eq_iff slot_pool_def pool_entry_def)))

lemma validator_laws_cells: "validator_laws cell_network I (\<lambda>s. ledger_of (obs s)) ok"
  unfolding validator_laws_def network_cells cell_set_def cell_vs_pools_def Let_def
  by (simp, intro allI conjI; rule answers_get[where ab = ledger_of]; simp add: ledger_of_def handle_set_def)

lemma ledger_laws_cells: "{0, 1, 2, 3, 4, 5, 6, 7} \<subseteq> free \<Longrightarrow> ledger_laws cell_network I (\<lambda>s. ledger_of (obs s)) ok"
  unfolding ledger_laws_def
  by (intro conjI pool_laws_cells delegation_laws_cells deposit_laws_cells nvp_laws_cells validator_laws_cells) simp_all

end

text \<open>Sound states whose cells outside of \<open>free\<close> satisfy \<open>q\<close>.\<close>

definition agreeing ::
  "byte set \<Rightarrow> ((byte \<Rightarrow> public_address \<Rightarrow> public_address \<Rightarrow> nat option) \<Rightarrow> bool) \<Rightarrow> net_storage \<Rightarrow> bool" where
  "agreeing free q \<sigma> \<longleftrightarrow> sound \<sigma> \<and> q (\<lambda>t. if t \<in> free then (\<lambda>_ _. None) else cell \<sigma> t)"

lemma agreeing_all: "agreeing UNIV (\<lambda>_. True) = sound"
  by (simp add: agreeing_def fun_eq_iff)

lemma agreeing_set:
  assumes "agreeing free q \<sigma>" "t \<in> free"
  shows "agreeing free q (\<sigma>(cell_key t a b := Some v))"
proof -
  have "cell (\<sigma>(cell_key t a b := Some v)) t' = cell \<sigma> t'" if "t' \<notin> free" for t'
    using that assms(2) by (auto simp: cell_def fun_eq_iff)
  then have "(\<lambda>t'. if t' \<in> free then (\<lambda>_ _. None) else cell (\<sigma>(cell_key t a b := Some v)) t') =
    (\<lambda>t. if t \<in> free then (\<lambda>_ _. None) else cell \<sigma> t)"
    by (simp add: fun_eq_iff)
  then show ?thesis
    using assms(1) by (simp add: agreeing_def sound_def)
qed

lemma agreeing_key: "agreeing free q \<sigma> \<Longrightarrow> \<sigma> k \<noteq> None"
  by (simp add: agreeing_def sound_def)

text \<open>The storage of the network account in a transaction, which charges gas.\<close>

lemma gm_get_cells:
  assumes "gm_ok R (agreeing free q) g"
  shows "\<exists>v g'. nas_get (es_nas R) g (cell_key t a b) = Some (v, g') \<and> gm_storage R g' = gm_storage R g \<and>
    gm_ok R (agreeing free q) g' \<and> val_cell v = cell (gm_storage R g) t a b"
proof -
  let ?W = "rt_ws R" and ?net = "NETWORK_ADDRESS (rt_net R)" and ?k = "cell_key t a b"
  have inv: "wsc_inv ?W (ws_cache g)" and some: "net_view ?W ?net (ws_cache g) ?k \<noteq> None"
    using assms agreeing_key by (auto simp: gm_ok_def gm_storage_def)
  then obtain v g' where get: "gm_ws_storage_data ?W g ?net ?k = Some (v, g')"
    using gm_view_get_total by fastforce
  have view: "net_view ?W ?net (ws_cache g') = net_view ?W ?net (ws_cache g)"
    "val_cell v = cell (gm_storage R g) t a b"
    using gm_view_get[OF get inv] by (auto simp: cell_def gm_storage_def)
  have "wsc_inv ?W (ws_cache g')"
    using gm_frame_reads(2)[OF get, of "{}" "{}" "{}"] inv
    by (auto simp: gm_frame_def dest: wsc_frame_step intro: wsc_step_inv)
  then show ?thesis
    using get view assms by (auto simp: es_nas_def gm_nas_def gm_ok_def gm_storage_def)
qed

lemma gm_set_cells:
  assumes "gm_ok R (agreeing free q) g" "t \<in> free"
  shows "\<exists>g'. gm_ws_set_storage_data (rt_ws R) g (NETWORK_ADDRESS (rt_net R)) (cell_key t a b) d = Some g' \<and>
    gm_storage R g' = (gm_storage R g)(cell_key t a b := Some (Some d)) \<and> gm_ok R (agreeing free q) g'"
proof -
  let ?W = "rt_ws R" and ?net = "NETWORK_ADDRESS (rt_net R)" and ?k = "cell_key t a b"
  have inv: "wsc_inv ?W (ws_cache g)" and some: "net_view ?W ?net (ws_cache g) ?k \<noteq> None"
    using assms agreeing_key by (auto simp: gm_ok_def gm_storage_def)
  then obtain g' where set: "gm_ws_set_storage_data ?W g ?net ?k d = Some g'"
    using net_view_get_total[OF inv some]
    by (auto simp: gm_ws_set_storage_data_def op_ws_set_storage_data_def op_ws_storage_data_def bind_convs Let_def)
  have "wsc_inv ?W (ws_cache g')"
    using gm_frame_writes(1)[OF set, of "{?net}" "{}" "{}"] inv
    by (auto simp: gm_frame_def dest: wsc_frame_step intro: wsc_step_inv)
  then show ?thesis
    using set gm_view_set[OF set] assms agreeing_set by (auto simp: gm_ok_def gm_storage_def)
qed

interpretation cg: cell_storage "es_nas R" "gm_storage R" "gm_ok R (agreeing free q)" free
  for R :: "('w, 'c, 'm, 'v) runtime" and free q
  by unfold_locales
    (use gm_get_cells gm_set_cells in \<open>fastforce simp: es_nas_def gm_nas_def\<close>)+

text \<open>The storage that the next epoch command uses, which charges nothing.\<close>

lemma ws_get_cells:
  assumes "ws_ok W net (agreeing free q) s"
  shows "\<exists>v s'. wsc_storage_data W s net (cell_key t a b) = Some (v, s') \<and> net_view W net s' = net_view W net s \<and>
    ws_ok W net (agreeing free q) s' \<and> val_cell v = cell (net_view W net s) t a b"
proof -
  have inv: "wsc_inv W s" and some: "net_view W net s (cell_key t a b) \<noteq> None"
    using assms agreeing_key by (auto simp: ws_ok_def)
  then obtain v s' where get: "wsc_storage_data W s net (cell_key t a b) = Some (v, s')"
    using net_view_get_total by fastforce
  have "wsc_inv W s'"
    using wsc_frame_storage[OF get, of "{}" "{}" "{}"] inv by (auto dest: wsc_frame_step intro: wsc_step_inv)
  then show ?thesis
    using get net_view_frame_get[OF inv get] assms by (auto simp: ws_ok_def cell_def)
qed

lemma ws_set_cells:
  assumes "ws_ok W net (agreeing free q) s" "t \<in> free"
  shows "ws_ok W net (agreeing free q) (wsc_set_storage_data s net (cell_key t a b) d)"
  using assms agreeing_set wsc_step_inv[OF wsc_step_sets(4), of W s]
  by (auto simp: ws_ok_def net_view_set)

interpretation cw: cell_storage "ws_nas W net" "net_view W net" "ws_ok W net (agreeing free q)" free
  for W :: "'w ws_ops" and net free q
  by unfold_locales
    (use ws_get_cells ws_set_cells in \<open>fastforce simp: ws_nas_def net_view_set\<close>)+

lemma network_laws_cells:
  fixes R :: "('w, 'c, 'm, 'v) runtime"
  assumes "rt_net R = cell_network"
  shows "network_laws R ledger_of sound"
  unfolding network_laws_def assms agreeing_all[symmetric] by (rule cg.ledger_laws_cells) simp

section \<open>An example\<close>

text \<open>
  Account 1 operates a pool at a commission rate of 10 percent, with 300 of its deposit of 500 staked;
  the pool is in the next validator set. Account 2 has staked 900 of its deposit of 1000, which takes
  the only place among the delegated stakes.
\<close>

definition example_cells :: "(bytes \<times> bytes) list" where
  "example_cells =
     [(cell_key 0 1 0, put_cell 1), (cell_key 1 1 0, put_cell 1200), (cell_key 2 1 0, put_cell 10),
      (cell_key 3 1 0, put_cell (enc_stake (Some \<lparr>owner = 1, stake_power = 300\<rparr>))),
      (cell_key 4 1 0, put_cell (enc_entry 2 900)), (cell_key 5 1 1, put_cell 500), (cell_key 6 1 1, put_cell 0), (cell_key 5 1 2, put_cell 1000),
      (cell_key 6 1 2, put_cell 1),
      (cell_key 7 0 0, put_cell (enc_entry 1 1200))]"

text \<open>The runtime deploys every contract at the same address, which is not that of the network account.\<close>

definition ledger_runtime :: "(kv_world, dir, nat, bytes) runtime" where
  "ledger_runtime = kv_runtime\<lparr>rt_net := cell_network,
     contract_address_v1 := (\<lambda>a n. 100), contract_address_v2 := (\<lambda>a n i. 100)\<rparr>"

definition ledger_world :: kv_world where
  "ledger_world = example_world\<lparr>kv_storage := (\<lambda>a k. if a = 0 then map_of example_cells k else None)\<rparr>"

definition ledger_state :: "(kv_world, dir, unit) execution_state" where
  "ledger_state = es_new (example_meta V2 U64_MAX []) example_block (ctx_new V2 ledger_world U64_MAX)"

definition example_ledger :: ledger where
  "example_ledger = ledger_of (\<lambda>k. Some (map_of example_cells k))"

definition example_bank :: bank where
  "example_bank = (\<lambda>_. 0)(1 := 1000000000)"

lemmas ledger_evals = ledger_runtime_def ledger_world_def cell_network_def cell_deposits_def get_cell_def
  set_cell_def example_cells_def na_def es_nas_def kv_network_def gm_nas_def put_cell_def enc_nat_evals
  length_cell_key

lemma ledger_runtime_laws: "network_laws ledger_runtime ledger_of sound"
  by (rule network_laws_cells) (simp add: ledger_runtime_def)

lemma ledger_state_at:
  "at_state ledger_runtime ledger_of sound (example_meta V2 U64_MAX []) example_ledger example_bank ledger_state"
proof -
  have "gm_storage ledger_runtime (es_gm ledger_state) = (\<lambda>k. Some (map_of example_cells k))"
    by (simp add: gm_storage_def net_view_def wsc_storage_view_def cd_view_def ledger_state_def ledger_world_def ledger_runtime_def
        state_evals kv_world_evals gm_new_def kv_runtime_def cell_network_def kv_network_def fun_eq_iff
        wsc_storage_base_def)
  moreover have "wsc_inv kv_ops (ws_cache (es_gm ledger_state))"
    by (simp add: ledger_state_def es_new_def ctx_new_def es_gm_def gm_new_def)
  moreover have "wsc_balance_view kv_ops (es_cache ledger_state) = (\<lambda>a. Some (example_bank a))"
    by (simp add: wsc_balance_view_def ledger_state_def ledger_world_def state_evals kv_world_evals es_cache_def
        gas_free_ws_cache_def gm_new_def example_bank_def fun_eq_iff)
  moreover have "txn_meta ledger_state = example_meta V2 U64_MAX []"
    by (simp add: ledger_state_def es_new_def)
  moreover have "rt_ws ledger_runtime = kv_ops"
    by (simp add: ledger_runtime_def kv_runtime_def)
  ultimately show ?thesis
    by (simp add: at_state_def at_ledger_def gm_ok_def sound_def example_ledger_def)
qed

end
