(* ===== verification/Staking_Properties.thy ===== *)
theory Staking_Properties
  imports Staking_Invariant Example_Ledger
begin

text \<open>
  The properties of the staking commands over the whole dispatch: the refinement of the ledger, and
  two places where the code departs from it, with witnesses on the example network account.
\<close>

section \<open>The example ledger\<close>

lemma example_cell:
  "cell (\<lambda>k. Some (map_of example_cells k)) t a b =
     (if t = 0 \<and> a = 1 \<and> b = 0 then Some 1 else if t = 1 \<and> a = 1 \<and> b = 0 then Some 1200
      else if t = 2 \<and> a = 1 \<and> b = 0 then Some 10
      else if t = 3 \<and> a = 1 \<and> b = 0 then Some (enc_stake (Some \<lparr>owner = 1, stake_power = 300\<rparr>))
      else if t = 4 \<and> a = 1 \<and> b = 0 then Some (enc_entry 2 900)
      else if t = 5 \<and> a = 1 \<and> b = 1 then Some 500 else if t = 6 \<and> a = 1 \<and> b = 1 then Some 0
      else if t = 5 \<and> a = 1 \<and> b = 2 then Some 1000 else if t = 6 \<and> a = 1 \<and> b = 2 then Some 1
      else if t = 7 \<and> a = 0 \<and> b = 0 then Some (enc_entry 1 1200) else None)"
  by (simp add: cell_def example_cells_def)

lemma example_ledger_sel:
  "l_operator example_ledger = (\<lambda>op. if op = 1 then Some 1 else None)"
  "l_power example_ledger = (\<lambda>op. if op = 1 then Some 1200 else None)"
  "l_rate example_ledger = (\<lambda>op. if op = 1 then Some 10 else None)"
  "l_operator_stake example_ledger =
     (\<lambda>op. if op = 1 then Some (Some \<lparr>owner = 1, stake_power = 300\<rparr>) else None)"
  "l_delegated example_ledger = (\<lambda>op a. if op = 1 \<and> a = 2 then Some 900 else None)"
  "l_deposit example_ledger = (\<lambda>op a. if op = 1 \<and> a = 1 then Some 500 else if op = 1 \<and> a = 2 then Some 1000 else None)"
  "l_nvp example_ledger = (\<lambda>op. if op = 1 then Some 1200 else None)"
  "l_auto example_ledger = (\<lambda>op a. if op = 1 \<and> a = 1 then Some False else if op = 1 \<and> a = 2 then Some True else None)"
  by (auto simp: example_ledger_def ledger_of_def example_cell fun_eq_iff)

lemma example_staked:
  "staked example_ledger op own = (if op = 1 then ((\<lambda>_. 0)(1 := 300, 2 := 900)) own else 0)"
  by (simp add: staked_def stake_in_def example_ledger_sel)

lemma example_deposited: "deposited example_ledger op own =
    (if op = 1 then (if own = 1 then 500 else if own = 2 then 1000 else 0) else 0)"
  by (simp add: deposited_def example_ledger_sel)

lemma example_supply: "total_supply example_ledger example_bank = 1000001500"
proof -
  have "deposited example_ledger = upd2 (upd2 (\<lambda>_ _. 0) 1 1 500) 1 2 1000"
    by (auto simp: example_deposited fun_eq_iff)
  then show ?thesis
    using sum_update[of "\<lambda>_ :: public_address. 0" 1 1000000000]
      sum_update2[of "\<lambda>_ _ :: public_address. 0" "1 :: public_address" 1 500]
      sum_update2[of "upd2 (\<lambda>_ _ :: public_address. 0) (1 :: public_address) 1 500" 1 2 1000]
    by (simp add: total_supply_def example_bank_def)
qed

lemma example_ledger_inv:
  assumes "tally cmp"
  shows "ledger_inv cmp example_ledger example_bank"
proof -
  have "(\<Sum>own\<in>UNIV. staked example_ledger 1 own) = 1200"
    using sum_update[of "\<lambda>_ :: public_address. 0" 1 300] sum_update[of "(\<lambda>_ :: public_address. 0)(1 := 300)" 2 900]
    by (simp add: example_staked del: fun_upd_apply) simp
  then have "pools_add_up cmp example_ledger"
    using assms by (auto simp: pools_add_up_def example_ledger_sel stake_in_def tally_def U64_MAX_def)
  moreover have "records_complete example_ledger"
    by (simp add: records_complete_def example_ledger_sel)
  moreover have "stakes_covered example_ledger"
    by (simp add: stakes_covered_def example_staked example_deposited example_ledger_sel)
  moreover have "nvp_current example_ledger"
    by (simp add: nvp_current_def example_ledger_sel)
  ultimately show ?thesis
    using assms by (simp add: ledger_inv_def example_supply U64_MAX_def)
qed

lemma example_wf: "ledger_wf example_ledger"
  by (rule ledger_inv_wf[OF example_ledger_inv[OF tally_eq]])

lemma no_gas_limit:
  "gas_limit (txn_meta st) = U64_MAX \<Longrightarrow> \<not> gas_exhausted st"
  by (simp add: gas_exhausted_def total_gas_used_def saturating_add_def not_less)

text \<open>On the example a command that the specification does not refuse succeeds.\<close>

lemma example_succeeds:
  assumes "staking_error actor cmd example_ledger example_bank = None" "is_staking cmd"
    and "\<not> needs_room actor cmd example_ledger"
  obtains st' where "execute ledger_runtime ledger_state 0 actor cmd = Some (Ok, st')"
proof -
  obtain r st' where run: "execute ledger_runtime ledger_state 0 actor cmd = Some (r, st')" and
    out: "staking_outcome ledger_runtime ledger_of sound actor cmd (example_meta V2 U64_MAX []) example_ledger
      example_bank r st'"
    using staking_runs[OF ledger_runtime_laws ledger_state_at example_wf assms(2)]
    unfolding runs_def by blast
  have "txn_meta st' = txn_meta ledger_state"
    using exec.keeps[OF run] by (simp add: es_keeps_def)
  then have "\<not> gas_exhausted st'"
    by (intro no_gas_limit) (simp add: ledger_state_def es_new_def example_meta_def)
  then have "r = Ok"
    using out assms by (auto simp: staking_outcome_def)
  with run show ?thesis
    using that by blast
qed

section \<open>Refinement\<close>

text \<open>C5: The staking commands refine the ledger. On a sound state that stands for a well-formed ledger,
  every staking command returns: no \<^verbatim>\<open>unwrap\<close> panics. If the specification refuses the command, its error
  is the answer. Else the command succeeds with the effect the specification gives on the ledger and
  the balances, the amount it withdrew, staked or unstaked being in its output, unless its gas is
  exhausted or the pool has no room for a new delegated stake.\<close>

theorem staking_refines:
  fixes R :: "('w, 'c, 'm, 'v) runtime" and st :: "('w, 'c, 'e) execution_state"
  assumes "network_laws R ab good" "at_state R ab good md L bal st" "ledger_wf L" "is_staking cmd"
  shows "\<exists>r st'. execute R st i actor cmd = Some (r, st') \<and> staking_outcome R ab good actor cmd md L bal r st'"
  using staking_runs[OF assms] by (simp add: runs_def)

theorem staking_refines_witness:
  "network_laws ledger_runtime ledger_of sound \<and>
   at_state ledger_runtime ledger_of sound (example_meta V2 U64_MAX []) example_ledger example_bank ledger_state \<and>
   ledger_wf example_ledger \<and> is_staking (UnstakeDeposit 1 100) \<and>
   (\<exists>st'. execute ledger_runtime ledger_state 0 1 (UnstakeDeposit 1 100) = Some (Ok, st') \<and>
      staking_outcome ledger_runtime ledger_of sound 1 (UnstakeDeposit 1 100) (example_meta V2 U64_MAX [])
        example_ledger example_bank Ok st')"
proof -
  have "staking_error 1 (UnstakeDeposit 1 100) example_ledger example_bank = None"
    by (simp add: example_ledger_sel stake_in_def)
  then obtain st' where "execute ledger_runtime ledger_state 0 1 (UnstakeDeposit 1 100) = Some (Ok, st')"
    by (rule example_succeeds) simp_all
  then show ?thesis
    using staking_refines[OF ledger_runtime_laws ledger_state_at example_wf,
        of "UnstakeDeposit 1 100" 0 1]
      ledger_runtime_laws ledger_state_at example_wf by simp
qed

section \<open>Where the books break\<close>

text \<open>A pool's heap of delegated stakes that has no room for a stake of \<open>n\<close>.\<close>

definition refuses :: "network_account \<Rightarrow> 's nas \<Rightarrow> public_address \<Rightarrow> public_address \<Rightarrow> u64 \<Rightarrow> 's \<Rightarrow> bool" where
  "refuses N I op own n s \<longleftrightarrow>
     (\<exists>s'. run_na I (ds_insert_extract (pools N) op \<lparr>owner = own, stake_power = n\<rparr>) s = Some (Inl (), s'))"

lemma increase_refused:
  assumes laws: "ledger_laws N I led ok" and at: "at_ledger led ok L s" and n: "0 < n" "op \<noteq> own"
    and none: "l_delegated L op own = None" and ref: "refuses N I op own n s"
  shows "runs (increase_stake_power N I op pw own None n False s) (\<lambda>_ s'. \<exists>L'. at_ledger led ok L' s' \<and>
    stake_in L' = stake_in L \<and> l_operator L' = l_operator L \<and>
    l_power L' = (l_power L)(op := Some (saturating_add pw n)))"
proof -
  obtain s1 where run: "run_na I (ds_insert_extract (pools N) op \<lparr>owner = own, stake_power = n\<rparr>) s = Some (Inl (), s1)"
    using ref by (auto simp: refuses_def)
  obtain L1 where L1: "at_ledger led ok L1 s1" "L1 = L\<lparr>l_delegated := (l_delegated L)(op := l_delegated L op)\<rparr>"
    using inserts_runs[OF ledger_inserts(1)[OF laws, where n = n] at none] run by (auto simp: runs_def)
  then have at1: "at_ledger led ok L s1"
    by simp
  have inc: "increase_stake N I op own None n False s = Some (Inr n, s1)"
    using run n(2) by (simp add: increase_stake_def)
  have tail: "runs (run_na I (p_set_power (pools N) op (saturating_add pw n)) s1)
    (\<lambda>_. at_ledger led ok (L\<lparr>l_power := (l_power L)(op := Some (saturating_add pw n))\<rparr>))"
    using updates_runs[OF ledger_updates(2)[OF laws] at1] by simp
  show ?thesis
    unfolding increase_stake_power_def inc Option.bind.simps prod.case sum.case Let_def
  proof (rule runs_bind[OF tail], unfold prod.case, erule runs_mono[OF nvp_rose_runs[OF ledger_raise[OF laws]]], elim conjE exE)
    fix r :: "unit + unit" and s2 m
    assume "at_ledger led ok (L\<lparr>l_power := (l_power L)(op \<mapsto> saturating_add pw n), l_nvp := m\<rparr>) s2"
    then show "\<exists>L'. at_ledger led ok L' s2 \<and> stake_in L' = stake_in L \<and> l_operator L' = l_operator L \<and>
      l_power L' = (l_power L)(op := Some (saturating_add pw n))"
      by (intro exI[of _ "L\<lparr>l_power := (l_power L)(op \<mapsto> saturating_add pw n), l_nvp := m\<rparr>"])
         (simp add: stake_in_def fun_eq_iff)
  qed
qed

text \<open>C37: Staking rewards at the epoch change can leave a pool with more power than its stakes. When the
  pool has no room for the stake of an account that earns rewards and stakes them automatically,
  the reward is added to the power of the pool although no stake was entered, so the books no
  longer add up.\<close>

theorem auto_stake_inflates_power:
  assumes laws: "ledger_laws N I led ok" and at: "at_ledger led ok L s" and add: "pools_add_up (=) L"
    and pool: "pool_in L op" "l_power L op = Some pw" "pw + n \<le> U64_MAX" and n: "0 < n" "op \<noteq> own"
    and none: "l_delegated L op own = None"
    and ref: "\<And>s. at_ledger led ok L s \<Longrightarrow> refuses N I op own n s"
  shows "\<exists>s' L'. auto_stake N I (op, own, n) s = Some ((), s') \<and> at_ledger led ok L' s' \<and>
    stake_in L' = stake_in L \<and> l_power L' op = Some (pw + n) \<and> \<not> pools_add_up (=) L'"
proof -
  have "stake_in L op own = None"
    using n(2) none by (simp add: stake_in_def)
  note inc = increase_refused[OF laws _ n none ref]
  have "runs (auto_stake N I (op, own, n) s) (\<lambda>_ s'. \<exists>L'. at_ledger led ok L' s' \<and> stake_in L' = stake_in L \<and>
    l_operator L' = l_operator L \<and> l_power L' = (l_power L)(op := Some (saturating_add pw n)))"
    unfolding auto_stake_def prod.case
    using at pool(1,2) \<open>stake_in L op own = None\<close> inc
    by - (assumption | rule runs_if ledger_answers(1,2)[OF laws, THEN answers_bind]
        runs_bind[OF stake_of_pool_runs[OF ledger_raise[OF laws]]] runs_bind[OF inc] runs_return
      | simp only: prod.case option.case | elim conjE | hypsubst | (simp; fail))+
  then obtain s' L' where run: "auto_stake N I (op, own, n) s = Some ((), s')" "at_ledger led ok L' s'" and
    L': "stake_in L' = stake_in L" "l_operator L' = l_operator L"
      "l_power L' = (l_power L)(op := Some (saturating_add pw n))"
    by (auto simp: runs_def)
  have "l_power L' op = Some (pw + n)"
    using L'(3) pool(3) by (simp add: saturating_add_def)
  moreover have "\<not> pools_add_up (=) L'"
  proof
    assume "pools_add_up (=) L'"
    moreover have "staked L' = staked L"
      by (simp add: staked_def L'(1) fun_eq_iff)
    ultimately show False
      using pool_power(1)[OF add pool(1,2)] pool_power(1)[of "(=)" L' op "pw + n"] pool(1) n(1) L'(2)
        \<open>l_power L' op = Some (pw + n)\<close> by simp
  qed
  ultimately show ?thesis
    using run L'(1) by blast
qed

lemma slot_refuses:
  assumes "gm_ok R sound g" "cell (gm_storage R g) 4 op 0 = Some e" "\<not> entry_power e < n" "rt_net R = cell_network"
  shows "refuses (rt_net R) (es_nas R) op own n g"
proof -
  have "ds_insert_extract (pools (rt_net R)) op \<lparr>owner = own, stake_power = n\<rparr> = slot_insert 4 op slot_stake own n"
    by (simp add: assms(4) cell_network_def cell_pools_def)
  then show ?thesis
    using assms(2,3) cg.run_get_cell[where free = UNIV and q = "\<lambda>_. True", unfolded agreeing_all, OF assms(1), of 4 op 0 "\<lambda>v. case v of
       None \<Rightarrow> set_cell 4 op 0 (enc_entry own n) (NA_Return (Inr None))
     | Some e \<Rightarrow> if entry_power e < n then set_cell 4 op 0 (enc_entry own n) (NA_Return (Inr (Some (slot_stake e))))
         else NA_Return (Inl ())"]
    by (auto simp: refuses_def slot_insert_def)
qed

theorem auto_stake_inflates_power_witness:
  "\<exists>g' L'. auto_stake (rt_net ledger_runtime) (es_nas ledger_runtime) (1, 3, 50) (es_gm ledger_state) = Some ((), g') \<and>
     at_ledger (\<lambda>g. ledger_of (gm_storage ledger_runtime g)) (gm_ok ledger_runtime sound) L' g' \<and>
     stake_in L' = stake_in example_ledger \<and> l_power L' 1 = Some 1250 \<and> \<not> pools_add_up (=) L'"
proof -
  let ?led = "\<lambda>g. ledger_of (gm_storage ledger_runtime g)" and ?ok = "gm_ok ledger_runtime sound"
  have laws: "ledger_laws (rt_net ledger_runtime) (es_nas ledger_runtime) ?led ?ok"
    using ledger_runtime_laws by (simp add: network_laws_def)
  have at: "at_ledger ?led ?ok example_ledger (es_gm ledger_state)"
    using ledger_state_at by (simp add: at_state_def)
  have ref: "refuses (rt_net ledger_runtime) (es_nas ledger_runtime) 1 3 50 g" if "at_ledger ?led ?ok example_ledger g" for g
  proof -
    have "slot_of (cell (gm_storage ledger_runtime g) 4 1 0) 2 = Some 900"
      using that fun_cong[OF fun_cong[OF example_ledger_sel(5)], of 1 2]
      by (simp add: at_ledger_def ledger_of_def) (metis ledger.select_convs(5))
    then obtain e where "cell (gm_storage ledger_runtime g) 4 1 0 = Some e" "entry_power e = 900"
      by (auto simp: slot_of_def split: option.split_asm if_split_asm)
    then show ?thesis
      using that by (intro slot_refuses) (auto simp: at_ledger_def ledger_runtime_def)
  qed
  from auto_stake_inflates_power[OF laws at _ _ _ _ _ _ _ ref, where pw = 1200] example_ledger_inv[OF tally_eq]
  show ?thesis
    by (simp add: example_ledger_sel ledger_inv_def U64_MAX_def)
qed

text \<open>C38: The amount of a withdrawal, a stake or an unstake can get lost. When the refunds of the command
  outweigh its costs, the check before the amount is reported may find the gas limit exceeded although
  it is not: the command then succeeds without the amount in its output.\<close>

theorem amount_lost:
  fixes st :: "('w, 'c, 'e) execution_state"
  defines "u \<equiv> gas_used_for_current_command (es_gm st)" and "c \<equiv> blockchain_storage_cost 8"
    and "booked \<equiv> total_gas_used_for_executed_commands (es_gm st)"
  assumes "deduct u + c \<le> reward u" "booked \<le> gas_limit (txn_meta st)" "gas_limit (txn_meta st) < booked + c"
    and "booked + c \<le> U64_MAX"
  shows "\<exists>st'. finish_with_amount st set_v2 n = Some (Ok, st') \<and>
    output_cache_of_current_command (es_gm st') = output_cache_of_current_command (es_gm st) \<and>
    total_gas_used (es_gm st') \<le> gas_limit (txn_meta st)"
proof -
  have cost: "(case version (txn_meta st) of
      V1 \<Rightarrow> fst (net_cost (cc_deduct (blockchain_storage_cost (length (to_le_bytes 8 n)))))
    | V2 \<Rightarrow> fst (net_cost (cc_deduct (blockchain_storage_cost 8)))) = c"
    by (simp add: c_def cc_simps saturating_sub_def split: txn_version.split)
  have used: "total_gas_used (es_gm st) = booked"
    using assms(4-7) by (simp add: total_gas_used_def booked_def[symmetric] gu_chargeable_cost_def net_cost_def
        u_def[symmetric] saturating_sub_def saturating_add_def)
  define st' where "st' = set_es_gm st (manually_charge_gas (es_gm st) c)"
  have "gas_used_for_current_command (es_gm st') = cc_add_assign u (cc_deduct c)"
    "total_gas_used_for_executed_commands (es_gm st') = booked"
    by (simp_all add: st'_def manually_charge_gas_def gm_charge_def gu_charge_def u_def booked_def
        total_gas_used_for_executed_commands_def)
  then have used': "total_gas_used (es_gm st') = booked"
    using assms(4-7) by (simp add: total_gas_used_def gu_chargeable_cost_def cc_simps
        saturating_sub_def saturating_add_def min_def)
  have "finish_with_amount st set_v2 n = Some (Ok, st')"
    using assms(4-7) used'
    by (simp add: finish_with_amount_def Let_def cost used saturating_add_def abort_if_gas_exhausted_def
        st'_def[symmetric]) (simp add: st'_def)
  then show ?thesis
    using used' assms(5) by (auto simp: st'_def manually_charge_gas_def gm_charge_def)
qed

definition refunded_state :: "(kv_world, dir, unit) execution_state" where
  "refunded_state = (let st = cmd_state V2 1000 in set_es_gm st ((es_gm st)
     \<lparr>gas_used_for_txn_inclusion := 900, gas_used_for_current_command := \<lparr>deduct = 5000, reward = 9000\<rparr>\<rparr>))"

theorem amount_lost_witness:
  "\<exists>st'. finish_with_amount refunded_state gm_set_amount_unstaked 42 = Some (Ok, st') \<and>
     oc_amount_unstaked (output_cache_of_current_command (es_gm st')) = None \<and>
     total_gas_used (es_gm st') \<le> 1000"
proof -
  have "deduct (gas_used_for_current_command (es_gm refunded_state)) = 5000"
    "reward (gas_used_for_current_command (es_gm refunded_state)) = 9000"
    "total_gas_used_for_executed_commands (es_gm refunded_state) = 900"
    "gas_limit (txn_meta refunded_state) = 1000" "blockchain_storage_cost 8 = 240"
    "oc_amount_unstaked (output_cache_of_current_command (es_gm refunded_state)) = None"
    by (simp_all add: refunded_state_def Let_def cmd_state_def state_evals gm_new_def saturating_add_def
        U64_MAX_def blockchain_storage_cost_def gas_consts sat_defs oc_default_def)
  then show ?thesis
    using amount_lost[of refunded_state gm_set_amount_unstaked 42] by (auto simp: U64_MAX_def)
qed

end
