(* ===== verification/Contract_Cache.thy ===== *)
theory Contract_Cache
  imports Executor
begin

text \<open>
  What transactions do to the contract cache. Only two operations touch it: loading a contract whose
  module is not cached yet, and deploying one. Both store a module at the address of that contract and
  leave those of all other addresses alone; every other host function and every other command keeps the
  smart contract context as it is.
\<close>

section \<open>Modules of different addresses\<close>

text \<open>
  The cache keeps one file per key, and the metadata files beside them: a module stored for one address
  leaves the modules of all other addresses as they were, and opening or writing a metadata file, even
  without success, leaves every module as it was.
\<close>

definition fs_apart :: "('c, 'm) wasmer_ops \<Rightarrow> bool" where
  "fs_apart M \<longleftrightarrow>
     (\<forall>c a m c' st b. fs_store M c a m = Some c' \<longrightarrow> b \<noteq> a \<longrightarrow> fs_load M c' st b = fs_load M c st b) \<and>
     (\<forall>c a c'. file_open M c a = Some c' \<longrightarrow> fs_load M c' = fs_load M c) \<and>
     (\<forall>c a bs. fs_load M (snd (file_write M c a bs)) = fs_load M c)"

lemma dir_ops_apart: "fs_apart dir_ops"
  by (simp add: fs_apart_def dir_ops_def split: option.split)

lemma module_cache_to_apart:
  assumes "fs_apart M" "b \<noteq> a"
  shows "fs_load M (module_cache_to M cm a c) st b = fs_load M c st b"
proof (cases "fs_store M c a (cm_module cm)")
  case None
  then show ?thesis
    by (simp add: module_cache_to_def cache_store_def)
next
  case (Some c1)
  then have "fs_load M c1 st b = fs_load M c st b"
    using assms unfolding fs_apart_def by blast
  then show ?thesis
    using assms(1) Some
    by (auto simp: module_cache_to_def cache_store_def storage_set_metadata_def fs_apart_def split: option.split)
qed

section \<open>Host functions\<close>

definition hf_sc :: "('w, 'c, 'v, 'a) host_fn \<Rightarrow> bool" where
  "hf_sc m \<longleftrightarrow> (\<forall>hs r hs'. m hs = Some (r, hs') \<longrightarrow> sc_context (hs_ctx hs') = sc_context (hs_ctx hs))"

named_theorems sc_rules \<open>host functions that keep the smart contract context\<close>

lemma hf_scD: "hf_sc m \<Longrightarrow> m hs = Some (r, hs') \<Longrightarrow> sc_context (hs_ctx hs') = sc_context (hs_ctx hs)"
  by (auto simp: hf_sc_def)

lemma hf_sc_basic [sc_rules]: "hf_sc (hf_return a)" "hf_sc (hf_err e)" "hf_sc hf_panic"
  by (auto simp: hf_sc_def hf_return_def hf_err_def hf_panic_def)

lemma hf_sc_bind [sc_rules]:
  assumes "hf_sc m" "\<And>a. hf_sc (f a)"
  shows "hf_sc (hf_bind m f)"
  unfolding hf_sc_def[of "hf_bind m f"]
proof (intro allI impI)
  fix hs r hs'
  assume "hf_bind m f hs = Some (r, hs')"
  then obtain x hs1 where run: "m hs = Some (x, hs1)"
    "(case x of Inl e \<Rightarrow> Some (Inl e, hs1) | Inr a \<Rightarrow> f a hs1) = Some (r, hs')"
    by (auto simp: hf_bind_def bind_convs)
  have "sc_context (hs_ctx hs') = sc_context (hs_ctx hs1)"
    using run(2) hf_scD[OF assms(2)] by (cases x) auto
  then show "sc_context (hs_ctx hs') = sc_context (hs_ctx hs)"
    using hf_scD[OF assms(1) run(1)] by simp
qed

lemma hf_sc_branch [sc_rules]:
  "(b \<Longrightarrow> hf_sc m) \<Longrightarrow> (\<not> b \<Longrightarrow> hf_sc n) \<Longrightarrow> hf_sc (if b then m else n)"
  "(x = None \<Longrightarrow> hf_sc m) \<Longrightarrow> (\<And>v. x = Some v \<Longrightarrow> hf_sc (f v)) \<Longrightarrow> hf_sc (case x of None \<Rightarrow> m | Some v \<Rightarrow> f v)"
  by (simp, cases x) simp_all

lemma hf_sc_let [sc_rules]:
  "hf_sc (g y) \<Longrightarrow> hf_sc (Let y g)"
  "(\<And>a b. z = (a, b) \<Longrightarrow> hf_sc (h a b)) \<Longrightarrow> hf_sc (case z of (a, b) \<Rightarrow> h a b)"
  by (simp, cases z) simp

lemma hf_sc_gas [sc_rules]: "hf_sc hf_remaining_gas" "hf_sc (hf_deduct_gas n)" "hf_sc (hf_charge rcp)"
  by (auto simp: hf_sc_def hf_remaining_gas_def hf_deduct_gas_def hf_charge_def bind_convs)

lemma hs_sc [simp]:
  "sc_context (hs_ctx (set_hs_cache hs s)) = sc_context (hs_ctx hs)"
  "sc_context (hs_ctx (set_hs_output hs c)) = sc_context (hs_ctx hs)"
  by (simp_all add: set_hs_cache_def set_hs_output_def)

lemma hf_sc_world [sc_rules]:
  "hf_sc (hf_ws_get_storage_data R a k)" "hf_sc (hf_ws_get_balance R a)"
  "hf_sc (hf_ws_set_storage_data R a k v)" "hf_sc (hf_ws_set_balance R a n)"
  by (auto simp: hf_sc_def hf_ws_get_storage_data_def hf_ws_get_balance_def hf_ws_set_storage_data_def
      hf_ws_set_balance_def bind_convs hf_bind_def hf_return_def split: sum.split_asm dest!: hf_scD[OF hf_sc_gas(3)])

lemma hf_sc_output [sc_rules]:
  "hf_sc (hf_append_log l)" "hf_sc (hf_set_return_value v)" "hf_sc hf_take_return_value"
  "hf_sc (hf_digest m)" "hf_sc (hf_append_deferred d)"
  by (auto simp: hf_sc_def hf_append_log_def hf_set_return_value_def hf_take_return_value_def hf_digest_def
      hf_append_deferred_def append_deferred_command_def bind_convs case_prod_beta Let_def dest!: hf_scD[OF hf_sc_gas(3)])

lemma hf_sc_crypto [sc_rules]:
  "hf_sc (hf_sha256 R m)" "hf_sc (hf_keccak256 R m)" "hf_sc (hf_ripemd R m)"
  "hf_sc (hf_verify_ed25519_signature R m sig key)"
  unfolding hf_sha256_def hf_keccak256_def hf_ripemd_def hf_verify_ed25519_signature_def by (intro sc_rules)+

lemma hf_sc_write_memory: "hf_sc (write_bytes_to_memory R env v p)"
  by (auto simp: hf_sc_def write_bytes_to_memory_def bind_convs case_prod_beta Let_def
      split: option.split_asm if_split_asm)

lemma hf_sc_memory [sc_rules]: "hf_sc (hf_write_bytes R env v p)" "hf_sc (hf_read_bytes R q l)"
  by (auto simp: hf_sc_def hf_write_bytes_def hf_read_bytes_def op_write_bytes_def op_read_bytes_def bind_convs
      dest!: hf_scD[OF hf_sc_gas(3)] hf_scD[OF hf_sc_write_memory])

lemma hf_sc_reads [sc_rules]:
  "hf_sc (host_get R env a b c)" "hf_sc (host_get_network_storage R env a b c)"
  "hf_sc (host_balance R env)" "hf_sc (host_block_height env)"
  "hf_sc (host_block_timestamp env)" "hf_sc (host_prev_block_hash R env a)"
  "hf_sc (host_calling_account R env a)" "hf_sc (host_current_account R env a)"
  "hf_sc (host_method R env a)" "hf_sc (host_arguments R env a)"
  "hf_sc (host_amount env)" "hf_sc (host_is_internal_call env)"
  "hf_sc (host_transaction_hash R env a)" "hf_sc (host_return_value R env a b)"
  "hf_sc (host_log R env a b)" "hf_sc (host_sha256 R env a b c)"
  "hf_sc (host_keccak256 R env a b c)" "hf_sc (host_ripemd R env a b c)"
  "hf_sc (host_verify_ed25519_signature R env a b c d)" "hf_sc (host_write_len R env v p)"
  unfolding hf_reads by (intro sc_rules)+

lemma hf_sc_writes [sc_rules]:
  "hf_sc (host_set R env a b c d)" "hf_sc (transfer_from_contract R from n to)" "hf_sc (host_defer R env k a b)"
  unfolding host_set_def transfer_from_contract_def host_defer_def by (intro sc_rules)+

section \<open>Loading a contract\<close>

text \<open>A module is stored only at the address that was asked for, and only if there is code at it.\<close>

lemma cached_contract_stores:
  assumes "op_ws_cached_contract W M s sc a = Some (r, s', sc')"
  shows "sc' = sc \<or> (\<exists>cm code s1. wsc_contract_code W s a = Some (Some code, s1) \<and>
    sc' = sc\<lparr>sc_cache := map_option (module_cache_to M cm a) (sc_cache sc)\<rparr>)"
  using assms
  by (auto simp: op_ws_cached_contract_def op_ws_cached_contract_code_def module_from_bytecode_unchecked_def Let_def
      elim!: bind_SomeE split: option.split_asm sum.split_asm prod.split_asm) (rule exI, rule refl)

section \<open>Commands\<close>

definition sc_kept :: "('w, 'c, 'e) execution_state \<Rightarrow> ('w, 'c, 'e) execution_state \<Rightarrow> bool" where
  "sc_kept st st' \<longleftrightarrow> sc_context (ctx st') = sc_context (ctx st)"

definition cmd_sc :: "('w, 'c, 'e) execution_state \<Rightarrow> cmd_result \<times> ('w, 'c, 'e) execution_state \<Rightarrow> bool" where
  "cmd_sc st = (\<lambda>(r, st'). sc_kept st st')"

lemma sc_kept_gm [simp]: "sc_kept st (set_es_gm st' g) \<longleftrightarrow> sc_kept st st'" "sc_kept st st"
  by (simp_all add: sc_kept_def set_es_gm_def)

named_theorems es_sc \<open>calls on the execution state keep the smart contract context\<close>

lemma sc_on_gm [es_sc]:
  "sc_kept st0 st \<Longrightarrow> (\<And>v st'. sc_kept st0 st' \<Longrightarrow> Q (v, st')) \<Longrightarrow> post (on_gm f st) Q"
  by (auto simp: post_def on_gm_def bind_convs)

lemma sc_on_gm_set [es_sc]:
  "sc_kept st0 st \<Longrightarrow> (\<And>st'. sc_kept st0 st' \<Longrightarrow> Q st') \<Longrightarrow> post (on_gm_set f st) Q"
  by (auto simp: post_def on_gm_set_def bind_convs)

lemma sc_na [es_sc]:
  "sc_kept st0 st \<Longrightarrow> (\<And>v st'. sc_kept st0 st' \<Longrightarrow> Q (v, st')) \<Longrightarrow> post (na R p st) Q"
  unfolding na_def by (rule sc_on_gm)

lemma sc_abort [es_sc]:
  "sc_kept st0 st \<Longrightarrow> post (abort st e) (cmd_sc st0)"
  "sc_kept st0 st \<Longrightarrow> post (abort_if_gas_exhausted st) (cmd_sc st0)"
  by (simp_all add: abort_def abort_if_gas_exhausted_def cmd_sc_def sc_kept_def revert_changes_def post_def)

lemma sc_finish [es_sc]:
  "sc_kept st0 st \<Longrightarrow> post (finish_with_amount st f n) (cmd_sc st0)"
  unfolding finish_with_amount_def Let_def
  by (auto intro!: post_rules es_sc split: txn_version.split)

lemma command_keeps_sc:
  assumes "command_kind_of cmd \<notin> {KCall, KDeploy}"
  shows "post (execute R st i actor cmd) (cmd_sc st)"
  using assms
  by (cases cmd; (simp; fail)?; simp only: execute.simps)
    (unfold transfer_def create_pool_def set_pool_settings_def delete_pool_def create_deposit_def set_deposit_settings_def
        topup_deposit_def withdraw_deposit_def pay_out_def stake_deposit_def unstake_deposit_def Let_def,
      (assumption | rule post_rules es_sc sc_kept_gm(2) post_unwrap)+)

text \<open>Deploying a contract stores its module at the address that the contract gets.\<close>

lemma deploy_stores:
  assumes "deploy R st i contract cbi = Some (Ok, st')"
  shows "\<exists>cm. sc_context (ctx st') = (sc_context (ctx st))\<lparr>sc_cache :=
    map_option (module_cache_to (rt_wasmer R) cm (deploy_address R (txn_meta st) i)) (sc_cache (sc_context (ctx st)))\<rparr>"
proof -
  let ?a = "deploy_address R (txn_meta st) i"
  obtain m st1 st2 where
    1: "deploy_instance_instantiate R st contract cbi ?a = Some (Inr m, st1)"
    and 2: "deploy_instance_deploy R st1 m contract cbi ?a = Some (None, st2)" and "abort_if_gas_exhausted st2 = Some (Ok, st')"
    using assms by (auto simp: deploy_def abort_def Let_def split: sum.split_asm option.split_asm elim!: bind_SomeE)
  then have "st' = st2"
    by (auto simp: abort_if_gas_exhausted_def split: if_split_asm)
  moreover have "sc_context (ctx st1) = sc_context (ctx st)"
    using 1 by (auto simp: deploy_instance_instantiate_def on_gm_def set_es_gm_def elim!: bind_SomeE
        split: if_split_asm sum.split_asm module_build_error.split_asm contract_validate_error.split_asm)
  ultimately show ?thesis
    using 2 by (auto simp: deploy_instance_deploy_def on_gm_set_def set_es_gm_def Let_def elim!: bind_SomeE
        split: if_split_asm)
qed

end
