(* ===== verification/Contract_Ledger.thy ===== *)
theory Contract_Ledger
  imports Staking_Invariant Contract_Cache
begin

text \<open>
  Contracts and the books. Whatever its code, a contract that runs to its end leaves the storage of
  the network account alone and neither creates nor destroys balances, and so do the contracts it
  calls; hence a call keeps the ledger and the supply, as every other command does.
\<close>

section \<open>What a contract leaves alone\<close>

text \<open>No contract can run at the address of the network account: it has no code in the world state,
  and no module is stored for it in the contract cache of the context, if the context has one.\<close>

definition no_module :: "('w, 'c, 'm, 'v) runtime \<Rightarrow> 'c smart_contract_context \<Rightarrow> bool" where
  "no_module R sc \<longleftrightarrow>
     (\<forall>c lim. sc_cache sc = Some c \<longrightarrow> fs_load (rt_wasmer R) c lim (NETWORK_ADDRESS (rt_net R)) = None)"

definition quiet :: "('w, 'c, 'm, 'v) runtime \<Rightarrow> ('w, 'c) transition_context \<Rightarrow> bool" where
  "quiet R c \<longleftrightarrow> wsc_inv (rt_ws R) (gas_free_ws_cache c) \<and>
     wsc_code_view (rt_ws R) (gas_free_ws_cache c) (NETWORK_ADDRESS (rt_net R)) = Some None \<and>
     no_module R (sc_context c)"

definition holds :: "('w, 'c, 'm, 'v) runtime \<Rightarrow> ('w, 'c) transition_context \<Rightarrow> bank \<Rightarrow> bool" where
  "holds R c bal \<longleftrightarrow> wsc_balance_view (rt_ws R) (gas_free_ws_cache c) = (\<lambda>a. Some (bal a)) \<and>
     (\<Sum>a\<in>UNIV. bal a) \<le> U64_MAX"

abbreviation ctx_storage :: "('w, 'c, 'm, 'v) runtime \<Rightarrow> ('w, 'c) transition_context \<Rightarrow> net_storage" where
  "ctx_storage R c \<equiv> net_view (rt_ws R) (NETWORK_ADDRESS (rt_net R)) (gas_free_ws_cache c)"

definition even_step ::
  "('w, 'c, 'm, 'v) runtime \<Rightarrow> ('w, 'c) transition_context \<Rightarrow> ('w, 'c) transition_context \<Rightarrow> bool" where
  "even_step R c c' \<longleftrightarrow> (quiet R c \<longrightarrow> quiet R c' \<and> ctx_storage R c' = ctx_storage R c \<and>
     (\<forall>bal. holds R c bal \<longrightarrow> (\<exists>bal'. holds R c' bal' \<and> (\<Sum>a\<in>UNIV. bal' a) = (\<Sum>a\<in>UNIV. bal a))))"

lemma no_module_stores:
  assumes "fs_apart (rt_wasmer R)" "no_module R sc" "a \<noteq> NETWORK_ADDRESS (rt_net R)"
  shows "no_module R (sc\<lparr>sc_cache := map_option (module_cache_to (rt_wasmer R) cm a) (sc_cache sc)\<rparr>)"
  using assms module_cache_to_apart[OF assms(1), of "NETWORK_ADDRESS (rt_net R)" a cm]
  by (auto simp: no_module_def)

lemma even_step_refl [simp]: "even_step R s s"
  by (auto simp: even_step_def)

lemma even_step_trans: "even_step R s t \<Longrightarrow> even_step R t u \<Longrightarrow> even_step R s u"
  unfolding even_step_def by metis

lemma even_step_frame:
  assumes "wsc_frame (rt_ws R) {} {} S (gas_free_ws_cache c) (gas_free_ws_cache c')" "NETWORK_ADDRESS (rt_net R) \<notin> S"
    and "quiet R c \<Longrightarrow> no_module R (sc_context c')"
  shows "even_step R c c'"
proof -
  have "wsc_balance_view (rt_ws R) (gas_free_ws_cache c') = wsc_balance_view (rt_ws R) (gas_free_ws_cache c)"
    "ctx_storage R c' = ctx_storage R c"
    "wsc_code_view (rt_ws R) (gas_free_ws_cache c') = wsc_code_view (rt_ws R) (gas_free_ws_cache c)"
    using assms(1,2) by (auto simp: wsc_frame_def net_view_def fun_eq_iff)
  then show ?thesis
    using wsc_step_inv[OF wsc_frame_step[OF assms(1)]] assms(3) by (auto simp: even_step_def quiet_def holds_def)
qed

section \<open>Host functions\<close>

text \<open>A host function that succeeds makes an even step. One that fails ends the contract, and with it
  the command.\<close>

definition hf_even :: "('w, 'c, 'm, 'v) runtime \<Rightarrow> ('w, 'c, 'v, 'a) host_fn \<Rightarrow> bool" where
  "hf_even R m \<longleftrightarrow> (\<forall>hs x hs'. m hs = Some (Inr x, hs') \<longrightarrow> even_step R (hs_ctx hs) (hs_ctx hs'))"

lemma hf_evenD: "hf_even R m \<Longrightarrow> m hs = Some (Inr x, hs') \<Longrightarrow> even_step R (hs_ctx hs) (hs_ctx hs')"
  by (auto simp: hf_even_def)

lemma hf_bindE:
  assumes "hf_bind m f hs = Some (Inr x, hs')"
  obtains a hs1 where "m hs = Some (Inr a, hs1)" "f a hs1 = Some (Inr x, hs')"
proof -
  obtain r hs1 where "m hs = Some (r, hs1)" "(case r of Inl e \<Rightarrow> Some (Inl e, hs1) | Inr a \<Rightarrow> f a hs1) = Some (Inr x, hs')"
    using assms by (auto simp: hf_bind_def bind_convs)
  then show thesis
    using that by (cases r) auto
qed

lemma hf_even_bind: "hf_even R m \<Longrightarrow> (\<And>a. hf_even R (f a)) \<Longrightarrow> hf_even R (hf_bind m f)"
  unfolding hf_even_def by (blast elim: hf_bindE intro: even_step_trans)

lemma hf_even_ok:
  assumes "hf_ok (rt_ws R) {} S (\<lambda>_. True) m" "NETWORK_ADDRESS (rt_net R) \<notin> S" "hf_sc m"
  shows "hf_even R m"
  unfolding hf_even_def
proof (intro allI impI)
  fix hs x hs'
  assume run: "m hs = Some (Inr x, hs')"
  show "even_step R (hs_ctx hs) (hs_ctx hs')"
    using hf_okD[OF assms(1) run] hf_scD[OF assms(3) run] assms(2)
    by (intro even_step_frame[where S = S]) (auto simp: hs_keeps_def ctx_frame_wsc quiet_def)
qed

lemma hf_even_if: "(b \<Longrightarrow> hf_even R m) \<Longrightarrow> (\<not> b \<Longrightarrow> hf_even R n) \<Longrightarrow> hf_even R (if b then m else n)"
  by simp

lemma hf_even_option:
  "(x = None \<Longrightarrow> hf_even R m) \<Longrightarrow> (\<And>v. x = Some v \<Longrightarrow> hf_even R (f v)) \<Longrightarrow>
   hf_even R (case x of None \<Rightarrow> m | Some v \<Rightarrow> f v)"
  by (cases x) simp_all

lemma hf_even_err [simp]: "hf_even R (hf_err e)"
  by (simp add: hf_even_def hf_err_def)

lemma hf_balance_view:
  assumes "hf_ws_get_balance R a hs = Some (Inr b, hs')" "wsc_inv (rt_ws R) (hs_cache hs)"
  shows "wsc_balance_view (rt_ws R) (hs_cache hs) a = Some b"
  using assms op_balance_view[of "rt_ws R" "hs_cache hs" a]
  by (auto simp: hf_ws_get_balance_def hf_charge_def bind_convs wsc_inv_def)

lemma hf_set_balance_view:
  assumes "hf_ws_set_balance R a n hs = Some (Inr u, hs')"
  shows "wsc_balance_view (rt_ws R) (hs_cache hs') a = Some n"
  using assms op_set_balance_view[of "rt_ws R" "hs_cache hs" a n]
  by (auto simp: hf_ws_set_balance_def hf_charge_def bind_convs hs_cache_def set_hs_cache_def
      set_gas_free_ws_cache_def gas_free_ws_cache_def)

text \<open>A transfer between balances: all views in turn.\<close>

lemma hf_keeps_views:
  assumes "hf_ok (rt_ws R) A {} (\<lambda>_. True) m" "hf_sc m" "m hs = Some (r, hs')" "quiet R (hs_ctx hs)"
  shows "quiet R (hs_ctx hs')" "net_view (rt_ws R) net (hs_cache hs') = net_view (rt_ws R) net (hs_cache hs)"
    "a \<notin> A \<Longrightarrow> wsc_balance_view (rt_ws R) (hs_cache hs') a = wsc_balance_view (rt_ws R) (hs_cache hs) a"
proof -
  have frame: "wsc_frame (rt_ws R) A {} {} (hs_cache hs) (hs_cache hs')"
    using hf_okD[OF assms(1,3)] by (auto simp: hs_keeps_def hs_cache_def intro: ctx_frame_wsc)
  then show "net_view (rt_ws R) net (hs_cache hs') = net_view (rt_ws R) net (hs_cache hs)"
    "a \<notin> A \<Longrightarrow> wsc_balance_view (rt_ws R) (hs_cache hs') a = wsc_balance_view (rt_ws R) (hs_cache hs) a"
    by (auto simp: wsc_frame_def net_view_def fun_eq_iff)
  show "quiet R (hs_ctx hs')"
    using frame assms(4) wsc_step_inv[OF wsc_frame_step[OF frame]] hf_scD[OF assms(2,3)]
    by (auto simp: quiet_def wsc_frame_def hs_cache_def)
qed

lemma transfer_views:
  assumes "transfer_from_contract R a0 n to hs = Some (Inr u, hs')" "quiet R (hs_ctx hs)"
    and bal: "wsc_balance_view (rt_ws R) (hs_cache hs) = (\<lambda>a. Some (bal a))"
  shows "n \<le> bal a0 \<and> wsc_balance_view (rt_ws R) (hs_cache hs') =
    (\<lambda>a. Some (((bal(a0 := bal a0 - n))(to := saturating_add ((bal(a0 := bal a0 - n)) to) n)) a))"
proof -
  let ?v = "\<lambda>hs. wsc_balance_view (rt_ws R) (hs_cache hs)"
  obtain b hs1 where 1: "hf_ws_get_balance R a0 hs = Some (Inr b, hs1)"
    and rest: "(case checked_sub b n of None \<Rightarrow> hf_err FE_InsufficientBalance
      | Some b' \<Rightarrow> hf_bind (hf_ws_set_balance R a0 b') (\<lambda>_. hf_bind (hf_ws_get_balance R to)
          (\<lambda>c. hf_ws_set_balance R to (saturating_add c n)))) hs1 = Some (Inr u, hs')"
    using assms(1) unfolding transfer_from_contract_def by (rule hf_bindE)
  then have le: "n \<le> b" and "hf_bind (hf_ws_set_balance R a0 (b - n)) (\<lambda>_. hf_bind (hf_ws_get_balance R to)
      (\<lambda>c. hf_ws_set_balance R to (saturating_add c n))) hs1 = Some (Inr u, hs')"
    by (auto simp: checked_sub_def hf_err_def split: if_split_asm)
  then obtain u2 hs2 c hs3 where 2: "hf_ws_set_balance R a0 (b - n) hs1 = Some (Inr u2, hs2)"
    and 3: "hf_ws_get_balance R to hs2 = Some (Inr c, hs3)"
    and 4: "hf_ws_set_balance R to (saturating_add c n) hs3 = Some (Inr u, hs')"
    by (auto elim!: hf_bindE)
  note k1 = hf_keeps_views[OF hf_ok_get_balance hf_sc_world(2) 1] and k2 = hf_keeps_views[OF hf_ok_set_balance[of a0 "{a0}"] hf_sc_world(4) 2]
    and k3 = hf_keeps_views[OF hf_ok_get_balance hf_sc_world(2) 3] and k4 = hf_keeps_views[OF hf_ok_set_balance[of to "{to}"] hf_sc_world(4) 4]
  have q: "quiet R (hs_ctx hs1)" "quiet R (hs_ctx hs2)" "quiet R (hs_ctx hs3)"
    using assms(2) k1(1) k2(1) k3(1) by simp_all
  have b: "b = bal a0"
    using hf_balance_view[OF 1] assms(2) bal by (simp add: quiet_def hs_cache_def)
  have v2: "?v hs2 = (\<lambda>a. Some ((bal(a0 := bal a0 - n)) a))"
    using k1(3)[OF assms(2), of _ "{}"] k2(3)[OF _ q(1)] hf_set_balance_view[OF 2] bal b
    by (auto simp: fun_eq_iff)
  have "c = (bal(a0 := bal a0 - n)) to"
    using hf_balance_view[OF 3] q(2) v2 by (simp add: quiet_def hs_cache_def)
  then show ?thesis
    using k3(3)[OF q(2), of _ "{}"] k4(3)[OF _ q(3)] hf_set_balance_view[OF 4] v2 le b
    by (auto simp: fun_eq_iff)
qed

lemma hf_even_transfer: "hf_even R (transfer_from_contract R a n b)"
  unfolding hf_even_def even_step_def
proof (intro allI impI conjI)
  fix hs u hs' bal
  assume run: "transfer_from_contract R a n b hs = Some (Inr u, hs')" and q: "quiet R (hs_ctx hs)"
  show "quiet R (hs_ctx hs')" "ctx_storage R (hs_ctx hs') = ctx_storage R (hs_ctx hs)"
    using hf_keeps_views(1,2)[OF hf_ok_transfer[of a "{a, b}" b] hf_sc_writes(2) run q] by (simp_all add: hs_cache_def)
  assume bal: "holds R (hs_ctx hs) bal"
  let ?bal = "(bal(a := bal a - n))(b := saturating_add ((bal(a := bal a - n)) b) n)"
  have "n \<le> bal a" "wsc_balance_view (rt_ws R) (hs_cache hs') = (\<lambda>x. Some (?bal x))"
    using transfer_views[OF run q] bal by (simp_all add: holds_def hs_cache_def)
  moreover have "(\<Sum>x\<in>UNIV. ?bal x) = (\<Sum>x\<in>UNIV. bal x)"
    using sum_transfer[where bal = bal and a = a and amount = n] calculation(1) bal by (simp add: holds_def)
  ultimately show "\<exists>bal'. holds R (hs_ctx hs') bal' \<and> (\<Sum>a\<in>UNIV. bal' a) = (\<Sum>a\<in>UNIV. bal a)"
    using bal unfolding holds_def hs_cache_def by (intro exI[of _ ?bal]) simp
qed

lemma hf_even_basic [simp]:
  "hf_even R (hf_return x)" "hf_even R (hf_read_bytes R p l)" "hf_even R hf_remaining_gas" "hf_even R hf_panic"
  "hf_even R (hf_deduct_gas g)" "hf_even R hf_take_return_value" "hf_even R (host_write_len R env v p)"
  by (rule hf_even_ok[where S = "{}"]; (intro hf_rules sc_rules)?; simp)+

lemma hf_even_reads [simp]:
  "hf_even R (host_get R env a b c)" "hf_even R (host_get_network_storage R env a b c)"
  "hf_even R (host_balance R env)" "hf_even R (host_block_height env)"
  "hf_even R (host_block_timestamp env)" "hf_even R (host_prev_block_hash R env a)"
  "hf_even R (host_calling_account R env a)" "hf_even R (host_current_account R env a)"
  "hf_even R (host_method R env a)" "hf_even R (host_arguments R env a)"
  "hf_even R (host_amount env)" "hf_even R (host_is_internal_call env)"
  "hf_even R (host_transaction_hash R env a)" "hf_even R (host_return_value R env a b)"
  "hf_even R (host_log R env a b)" "hf_even R (host_sha256 R env a b c)"
  "hf_even R (host_keccak256 R env a b c)" "hf_even R (host_ripemd R env a b c)"
  "hf_even R (host_verify_ed25519_signature R env a b c d)"
  by (rule hf_even_ok[where S = "{}"]; (intro hf_rules sc_rules)?; simp)+

lemma hf_even_defer: "hf_even R (host_defer R env k a b)"
  unfolding host_defer_def
  by (rule hf_even_ok[where S = "{}"]; (intro hf_rules hf_ok_defer sc_rules)?; simp)

lemma hf_even_set:
  assumes "ct_target (env_call_tx env) \<noteq> NETWORK_ADDRESS (rt_net R)"
  shows "hf_even R (host_set R env a b c d)"
  unfolding host_set_def
  by (rule hf_even_ok[where S = "{ct_target (env_call_tx env)}"]; (intro hf_rules sc_rules)?) (use assms in auto)

lemma hf_even_host_transfer: "hf_even R (host_transfer R env a)"
  unfolding host_transfer_def Let_def by (intro hf_even_bind hf_even_if hf_even_transfer hf_even_basic)

section \<open>Calls between contracts\<close>

definition runner_even :: "('w, 'c, 'm, 'v) runtime \<Rightarrow> ('w, 'c, 'v) contract_runner \<Rightarrow> bool" where
  "runner_even R child \<longleftrightarrow> (\<forall>inst n view tx params c c' g. ct_target tx \<noteq> NETWORK_ADDRESS (rt_net R) \<longrightarrow>
     child inst n view tx params c = Some (c', g, None) \<longrightarrow>
     even_step R c c')"

text \<open>No module is found for the network account, and looking for one elsewhere stores none for it.\<close>

lemma no_contract_found:
  assumes "quiet R c" "op_ws_cached_contract (rt_ws R) (rt_wasmer R) (gas_free_ws_cache c) (sc_context c)
    (NETWORK_ADDRESS (rt_net R)) = Some ((m, cost), s', sc')"
  shows "m = None"
proof -
  let ?net = "NETWORK_ADDRESS (rt_net R)"
  have "module_from_cache (rt_wasmer R) ?net (sc_context c) = Some None"
    using assms(1) by (auto simp: module_from_cache_def cache_load_def quiet_def no_module_def split: option.split)
  moreover have "v = None" if "wsc_contract_code (rt_ws R) (gas_free_ws_cache c) ?net = Some (v, s1)" for v s1
    using code.get_answer[of "rt_ws R" "gas_free_ws_cache c" ?net v s1] that assms(1) by (simp add: quiet_def wsc_inv_def)
  ultimately show ?thesis
    using assms(2) by (auto simp: op_ws_cached_contract_def op_ws_cached_contract_code_def bind_convs Let_def)
qed

lemma no_module_cached_contract:
  assumes "fs_apart (rt_wasmer R)" "quiet R c"
    and "op_ws_cached_contract (rt_ws R) (rt_wasmer R) (gas_free_ws_cache c) (sc_context c) a = Some (r, s', sc')"
  shows "no_module R sc'"
proof (cases "sc' = sc_context c")
  case True
  then show ?thesis
    using assms(2) by (simp add: quiet_def)
next
  case False
  then obtain cm code s1 where code: "wsc_contract_code (rt_ws R) (gas_free_ws_cache c) a = Some (Some code, s1)"
    and sc': "sc' = (sc_context c)\<lparr>sc_cache := map_option (module_cache_to (rt_wasmer R) cm a) (sc_cache (sc_context c))\<rparr>"
    using cached_contract_stores[OF assms(3)] by blast
  have "a \<noteq> NETWORK_ADDRESS (rt_net R)"
    using code.get_answer[OF _ code] code assms(2) by (auto simp: quiet_def wsc_inv_def)
  then show ?thesis
    using no_module_stores[OF assms(1)] assms(2) by (simp add: sc' quiet_def)
qed

lemma hf_even_cached_contract:
  assumes "fs_apart (rt_wasmer R)"
  shows "hf_even R (hf_ws_cached_contract R a)"
  unfolding hf_even_def
proof (intro allI impI)
  fix hs x hs'
  assume run: "hf_ws_cached_contract R a hs = Some (Inr x, hs')"
  have "wsc_frame (rt_ws R) {} {} {} (hs_cache hs) (hs_cache hs')"
    using hf_okD[OF hf_ok_cached_contract[of R "{}" "{}" "\<lambda>_. True"] run]
    by (auto simp: hs_keeps_def hs_cache_def intro: ctx_frame_wsc)
  moreover obtain rcp s where "op_ws_cached_contract (rt_ws R) (rt_wasmer R) (hs_cache hs) (sc_context (hs_ctx hs)) a =
      Some (rcp, s, sc_context (hs_ctx hs'))"
    using run by (auto simp: hf_ws_cached_contract_def hf_charge_def bind_convs Let_def)
  ultimately show "even_step R (hs_ctx hs) (hs_ctx hs')"
    using no_module_cached_contract[OF assms] unfolding hs_cache_def
    by (intro even_step_frame[where S = "{}"]) auto
qed

lemma run_child_even:
  assumes "runner_even R child" "ct_target tx \<noteq> NETWORK_ADDRESS (rt_net R)"
    and "run_child child inst n view tx params hs = Some (Inr (g, None), hs')"
  shows "even_step R (hs_ctx hs) (hs_ctx hs')"
proof -
  obtain c where "child inst n view tx params (hs_ctx hs) = Some (c, g, None)" "hs' = hs\<lparr>hs_ctx := c\<rparr>"
    using assms(3) by (auto simp: run_child_def bind_convs)
  then show ?thesis
    using assms(1)[unfolded runner_even_def, rule_format, OF assms(2)] by (simp add: hs_cache_def)
qed

lemma hf_even_run_contract:
  assumes "runner_even R child" "target \<noteq> NETWORK_ADDRESS (rt_net R)"
  shows "hf_even R (host_run_contract R child env p target m args amount cm gas)"
proof (cases "vm_instantiate (rt_vm R) cm (env_is_view env)")
  case None
  then show ?thesis
    by (simp add: host_run_contract_def)
next
  case (Some inst)
  have tail: "hf_even R (hf_bind hf_take_return_value (\<lambda>res. case res of Some v \<Rightarrow> host_write_len R env v p | None \<Rightarrow> hf_return 0))"
    by (intro hf_even_bind hf_even_option) simp_all
  show ?thesis
    unfolding hf_even_def
  proof (intro allI impI)
    fix hs x hs'
    assume "host_run_contract R child env p target m args amount cm gas hs = Some (Inr x, hs')"
    then obtain g e hs1 u hs2 where
      run: "run_child child inst (saturating_add_u32 (env_call_counter env) 1) (env_is_view env)
        (child_call_tx env gas target m args amount) (env_bd env) hs = Some (Inr (g, e), hs1)"
      and gas: "hf_deduct_gas g hs1 = Some (Inr u, hs2)"
      and rest: "(case e of None \<Rightarrow> hf_bind hf_take_return_value
            (\<lambda>res. case res of Some v \<Rightarrow> host_write_len R env v p | None \<Rightarrow> hf_return 0)
          | Some e \<Rightarrow> hf_bind hf_remaining_gas (\<lambda>gas. if gas = 0 then hf_err FE_GasExhaustionError
              else hf_err (FE_MethodCallError e))) hs2 = Some (Inr x, hs')"
      unfolding host_run_contract_def Some option.case by (auto elim!: hf_bindE)
    have e: "e = None"
      using rest by (cases e) (auto elim!: hf_bindE simp: hf_err_def split: if_split_asm)
    have "even_step R (hs_ctx hs) (hs_ctx hs1)"
      using run_child_even[OF assms(1) _ run[unfolded e]] assms(2) by (simp add: child_call_tx_def)
    moreover have "even_step R (hs_ctx hs1) (hs_ctx hs2)"
      using gas by (rule hf_evenD[OF hf_even_basic(5)])
    moreover have "even_step R (hs_ctx hs2) (hs_ctx hs')"
      using rest unfolding e option.case by (rule hf_evenD[OF tail])
    ultimately show "even_step R (hs_ctx hs) (hs_ctx hs')"
      by (blast intro: even_step_trans)
  qed
qed

text \<open>The target of a call that goes on is not the network account, for which no module is found.\<close>

lemma hf_even_call_contract:
  assumes "runner_even R child" "fs_apart (rt_wasmer R)"
  shows "hf_even R (host_call_contract R child env p target m args amount)"
  unfolding host_call_contract_def
proof (rule hf_even_bind)
  show "hf_even R (case amount of Some a \<Rightarrow> transfer_from_contract R (ct_target (env_call_tx env)) a target
      | None \<Rightarrow> hf_return ())"
    by (intro hf_even_option hf_even_transfer hf_even_basic)
  let ?run = "\<lambda>m'. case m' of None \<Rightarrow> hf_err FE_ContractNotFound
      | Some cm \<Rightarrow> hf_bind hf_remaining_gas (host_run_contract R child env p target m args amount cm)"
  show "hf_even R (hf_bind (hf_ws_cached_contract R target) ?run)"
  proof (cases "target = NETWORK_ADDRESS (rt_net R)")
    case False
    then show ?thesis
      by (intro hf_even_bind hf_even_option hf_even_run_contract[OF assms(1)] hf_even_basic hf_even_err
          hf_even_cached_contract[OF assms(2)])
  next
    case True
    have "\<not> quiet R (hs_ctx hs)" if run: "hf_bind (hf_ws_cached_contract R target) ?run hs = Some (Inr x, hs')" for hs x hs'
    proof
      assume q: "quiet R (hs_ctx hs)"
      obtain m' hs1 where "hf_ws_cached_contract R target hs = Some (Inr m', hs1)" "?run m' hs1 = Some (Inr x, hs')"
        using run by (rule hf_bindE)
      moreover have "m' = None"
        using calculation(1) no_contract_found[OF q] unfolding True
        by (auto simp: hf_ws_cached_contract_def hf_charge_def bind_convs Let_def hs_cache_def)
      ultimately show False
        by (simp add: hf_err_def)
    qed
    then show ?thesis
      unfolding hf_even_def even_step_def by blast
  qed
qed

lemma hf_even_call:
  assumes "runner_even R child" "fs_apart (rt_wasmer R)"
  shows "hf_even R (host_call R child env a b c)"
  unfolding host_call_def
  by (rule hf_even_bind) (auto split: option.split command.split intro: hf_even_call_contract[OF assms])

lemma hf_even_importable:
  assumes "runner_even R child" "fs_apart (rt_wasmer R)" "ct_target (env_call_tx env) \<noteq> NETWORK_ADDRESS (rt_net R)"
  shows "hf_even R (importable R child env f)"
proof -
  have "hf_even R (create_importable R child env f)"
    using hf_even_call[OF assms(1,2)] hf_even_set[OF assms(3)]
    by (cases f) (simp_all add: hf_even_defer hf_even_host_transfer host_defer_create_deposit_def
      host_defer_set_deposit_settings_def host_defer_topup_deposit_def
      host_defer_withdraw_deposit_def host_defer_stake_deposit_def host_defer_unstake_deposit_def)
  then show ?thesis
    by (simp add: importable_def create_importable_view_def)
qed

section \<open>Running a contract\<close>

lemma run_guest_even:
  assumes "runner_even R child" "fs_apart (rt_wasmer R)" "ct_target (env_call_tx env) \<noteq> NETWORK_ADDRESS (rt_net R)"
  shows "run_guest R child env g hs = Some (Inr (), hs') \<Longrightarrow> even_step R (hs_ctx hs) (hs_ctx hs')"
proof (induction g arbitrary: hs)
  case (G_Ops n g)
  then have "run_guest R child env g (hs\<lparr>hs_gas := snd (wasm_ops (hs_gas hs) n)\<rparr>) = Some (Inr (), hs')"
    by (auto split: if_split_asm)
  from G_Ops.IH[OF this] show ?case
    by (simp add: hs_cache_def)
next
  case (G_Host f mem k)
  then obtain x hs1 where "importable R child env f (hs\<lparr>hs_mem := mem\<rparr>) = Some (x, hs1)"
    "(case x of Inl e \<Rightarrow> Some (Inl (Some e), hs1) | Inr v \<Rightarrow> run_guest R child env (k v (hs_mem hs1)) hs1) =
       Some (Inr (), hs')"
    by (auto simp: bind_convs)
  then obtain v where imp: "importable R child env f (hs\<lparr>hs_mem := mem\<rparr>) = Some (Inr v, hs1)"
    and rest: "run_guest R child env (k v (hs_mem hs1)) hs1 = Some (Inr (), hs')"
    by (cases x) auto
  have "even_step R (hs_ctx hs) (hs_ctx hs1)"
    using hf_evenD[OF hf_even_importable[OF assms] imp] by (simp add: hs_cache_def)
  then show ?case
    using G_Host.IH[OF rangeI rangeI rest] by (rule even_step_trans)
qed auto

lemma contract_call_even:
  fixes R :: "('w, 'c, 'm, 'v) runtime"
  assumes "fs_apart (rt_wasmer R)"
  shows "runner_even R (contract_call R depth)"
proof (induction depth)
  case 0
  then show ?case
    by (simp add: runner_even_def)
next
  case (Suc depth)
  show ?case
    unfolding runner_even_def
  proof (intro allI impI)
    fix inst :: "'v wasm_instance" and n view params g and tx :: call_tx
      and c c' :: "('w, 'c) transition_context"
    let ?hs = "\<lparr>hs_ctx = c, hs_gas = wg_initialize (wg_new (gas_limit (base_tx tx))), hs_mem = inst_memory inst\<rparr>"
    assume net: "ct_target tx \<noteq> NETWORK_ADDRESS (rt_net R)"
      and "contract_call R (Suc depth) inst n view tx params c = Some (c', g, None)"
    then obtain rem hs' where "call_method R (contract_call R depth) (env_new inst n view tx params) inst ?hs = Some ((rem, None), hs')"
      and c': "c' = hs_ctx hs'"
      by (auto simp: bind_convs Let_def)
    then obtain entry where "run_guest R (contract_call R depth) (env_new inst n view tx params) entry ?hs = Some (Inr (), hs')"
      by (auto simp: call_method_def Let_def split: option.split_asm sum.split_asm if_split_asm elim!: bind_SomeE)
    then have "even_step R (hs_ctx ?hs) (hs_ctx hs')"
      using net by (intro run_guest_even[OF Suc.IH assms]) (simp_all add: env_new_def)
    then show "even_step R c c'"
      by (simp add: hs_cache_def c')
  qed
qed

section \<open>The call command\<close>

lemma even_step_es_frame:
  assumes "es_frame (rt_ws R) {} {} {} D st st'" "quiet R (ctx st) \<Longrightarrow> no_module R (sc_context (ctx st'))"
  shows "even_step R (ctx st) (ctx st')"
  using assms by (intro even_step_frame[where S = "{}"]) (auto simp: es_frame_def intro: ctx_frame_wsc)

text \<open>Instantiating a contract loads it; that leads to a contract at another address than the network account.\<close>

lemma instantiate_even:
  assumes "fs_apart (rt_wasmer R)" "quiet R (ctx st)"
    and "call_instance_instantiate R st v target m args amount = Some (Inr (inst, tx), st')"
  shows "even_step R (ctx st) (ctx st')" "ct_target tx = target" "target \<noteq> NETWORK_ADDRESS (rt_net R)"
proof -
  let ?M = "rt_wasmer R"
  obtain cbi st1 cm g sc where 1: "on_gm (\<lambda>g. gm_ws_cbi_version (rt_ws R) g target) st = Some (cbi, st1)"
    and 2: "gm_ws_cached_contract (rt_ws R) ?M (es_gm st1) target (sc_context (ctx st1)) = Some (Some cm, g, sc)"
    and 3: "sc_context (ctx st') = sc" and tx: "ct_target tx = target"
    using assms(3) by (auto simp: call_instance_instantiate_def Let_def split: if_split_asm option.split_asm
        elim!: bind_SomeE)
  show "ct_target tx = target"
    by (rule tx)
  have "es_frame (rt_ws R) {} {} {} (\<lambda>_. False) st st1" and sc1: "sc_context (ctx st1) = sc_context (ctx st)"
    using 1 by (auto simp: on_gm_def bind_convs set_es_gm_def intro!: es_frame_set_gm[OF es_frame_refl, unfolded set_es_gm_def]
        intro: gm_frames)
  then have "even_step R (ctx st) (ctx st1)"
    by (intro even_step_es_frame) (auto simp: quiet_def)
  then have q: "quiet R (ctx st1)"
    using assms(2) by (simp add: even_step_def)
  obtain cost s where op: "op_ws_cached_contract (rt_ws R) ?M (gas_free_ws_cache (ctx st1)) (sc_context (ctx st1)) target =
      Some ((Some cm, cost), s, sc)"
    using 2 by (auto simp: gm_ws_cached_contract_def es_gm_def gas_free_ws_cache_def bind_convs)
  show "target \<noteq> NETWORK_ADDRESS (rt_net R)"
    using no_contract_found[OF q] op by auto
  have "post (call_instance_instantiate R st v target m args amount)
      (\<lambda>(r, st'). es_frame (rt_ws R) {} {} {} (\<lambda>_. False) st st')"
    by (rule es_instantiate) (auto intro: es_frame_refl)
  then show "even_step R (ctx st) (ctx st')"
    using assms(3) no_module_cached_contract[OF assms(1) q op] 3 by (auto simp: post_def intro: even_step_es_frame)
qed

lemma call_contract_even_step:
  assumes "fs_apart (rt_wasmer R)" "quiet R (ctx st)" "call_contract R st v target m args amount = Some (Ok, st')"
  shows "even_step R (ctx st) (ctx st')"
proof -
  obtain inst tx st1 st2 where
    1: "call_instance_instantiate R st v target m args amount = Some (Inr (inst, tx), st1)"
    and 2: "call_instance_call R st1 v inst tx = Some (None, st2)" and "abort_if_gas_exhausted st2 = Some (Ok, st')"
    using assms(3) by (auto simp: call_contract_def abort_def split: sum.split_asm option.split_asm elim!: bind_SomeE)
  then have st': "st' = st2"
    by (simp add: exhausted_ok)
  obtain c g where c: "contract_call R (Suc (gas_limit (base_tx tx))) inst 0 v tx (bd st1) (ctx st1) = Some (c, g, None)"
    and st2: "st2 = set_es_gm (st1\<lparr>ctx := c\<rparr>) (manually_charge_gas (es_gm (st1\<lparr>ctx := c\<rparr>)) g)"
    using 2 by (auto simp: call_instance_call_def bind_convs Let_def simp del: contract_call.simps split: if_split_asm)
  note i = instantiate_even[OF assms(1,2) 1]
  have "even_step R (ctx st1) c"
    using contract_call_even[OF assms(1)] c i(2,3) unfolding runner_even_def by blast
  moreover have "even_step R c (ctx st')"
    by (rule even_step_frame[where S = "{}"])
      (simp_all add: st' st2 gas_free_ws_cache_def set_es_gm_def es_gm_def manually_charge_gas_def gm_charge_def quiet_def)
  ultimately show ?thesis
    using i(1) by (metis even_step_trans)
qed

text \<open>An even step keeps the ledger and the supply.\<close>

lemma even_step_books:
  assumes "even_step R (ctx st) (ctx st')" "quiet R (ctx st)" "txn_meta st' = txn_meta st"
    and "at_state R ab good md L bal st" "ledger_inv cmp L bal"
  shows "quiet R (ctx st') \<and>
    (\<exists>bal'. at_state R ab good md L bal' st' \<and> ledger_inv cmp L bal' \<and> total_supply L bal' = total_supply L bal)"
proof -
  have "holds R (ctx st) bal"
    using assms(4,5) by (simp add: holds_def at_state_def ledger_inv_def total_supply_def es_cache_def)
  then obtain bal' where bal': "holds R (ctx st') bal'" "(\<Sum>a\<in>UNIV. bal' a) = (\<Sum>a\<in>UNIV. bal a)"
    and st': "quiet R (ctx st')" "gm_storage R (es_gm st') = gm_storage R (es_gm st)"
    using assms(1,2) by (auto simp: even_step_def gm_storage_def es_gm_def gas_free_ws_cache_def)
  have "at_state R ab good md L bal' st'"
    using assms(3,4) bal'(1) st'
    by (simp add: at_state_def at_ledger_def gm_ok_def holds_def quiet_def es_gm_def es_cache_def gas_free_ws_cache_def)
  then show ?thesis
    using bal'(2) assms(5) st'(1) by (auto simp: total_supply_def ledger_inv_def)
qed

lemma balance_step:
  assumes "at_state R ab good md L bal st" "on_gm (\<lambda>g. gm_ws_balance (rt_ws R) g a) st = Some (b, st')"
  shows "b = bal a \<and> at_state R ab good md L bal st'"
  using balance_bind[OF assms(1), where a = a and c = Some and Q = "\<lambda>b st'. b = bal a \<and> at_state R ab good md L bal st'"] assms(2)
  by (simp add: runs_def)

lemma set_balance_step:
  assumes "at_state R ab good md L bal st" "on_gm_set (\<lambda>g. gm_ws_set_balance (rt_ws R) g a n) st = Some st'"
  shows "at_state R ab good md L (bal(a := n)) st'"
  using set_balance_bind[OF assms(1), where a = a and n = n and c = "\<lambda>st. Some ((), st)" and
      Q = "\<lambda>_ st'. at_state R ab good md L (bal(a := n)) st'"] assms(2)
  by (simp add: runs_def)

lemma quiet_frame:
  assumes "es_frame (rt_ws R) A C S D st st'" "quiet R (ctx st)" "NETWORK_ADDRESS (rt_net R) \<notin> C"
    and "no_module R (sc_context (ctx st'))"
  shows "quiet R (ctx st')"
  using assms es_frame_inv[OF assms(1)]
  by (auto simp: quiet_def es_frame_def es_cache_def wsc_frame_def dest!: ctx_frame_wsc)

lemma quiet_kept:
  "es_frame (rt_ws R) A {} S D st st' \<Longrightarrow> sc_kept st st' \<Longrightarrow> quiet R (ctx st) \<Longrightarrow> quiet R (ctx st')"
  by (rule quiet_frame) (auto simp: quiet_def sc_kept_def)

lemma es_read_balance:
  "on_gm (\<lambda>g. gm_ws_balance W g a) st = Some (v, st') \<Longrightarrow> es_frame W {} {} {} (\<lambda>d. False) st st' \<and> sc_kept st st'"
  by (auto simp: on_gm_def bind_convs intro!: es_frame_set_gm[OF es_frame_refl] intro: gm_frames)

lemma es_write_balance:
  "on_gm_set (\<lambda>g. gm_ws_set_balance W g a v) st = Some st' \<Longrightarrow> es_frame W {a} {} {} (\<lambda>d. False) st st' \<and> sc_kept st st'"
  by (auto simp: on_gm_set_def bind_convs intro!: es_frame_set_gm[OF es_frame_refl] intro: gm_frames)

text \<open>The amount of a call moves to its target before the contract runs.\<close>

lemma call_pays:
  fixes R :: "('w, 'c, 'm, 'v) runtime" and st st' :: "('w, 'c, 'e) execution_state"
  assumes at: "at_state R ab good md L bal st" and inv: "ledger_inv cmp L bal" and q: "quiet R (ctx st)"
    and run: "call R st v target m args amount = Some (Ok, st')"
  shows "\<exists>st1 bal1. at_state R ab good md L bal1 st1 \<and> quiet R (ctx st1) \<and> txn_meta st1 = txn_meta st \<and>
    ledger_inv cmp L bal1 \<and> total_supply L bal1 = total_supply L bal \<and>
    call_contract R st1 v target m args amount = Some (Ok, st')"
proof (cases amount)
  case None
  then show ?thesis
    using assms by (auto simp: call_def)
next
  case (Some n)
  let ?W = "rt_ws R" and ?a = "signer (txn_meta st)"
  obtain b s1 s2 c s3 s4 where
    1: "on_gm (\<lambda>g. gm_ws_balance ?W g ?a) st = Some (b, s1)" and le: "\<not> b < n" and
    2: "on_gm_set (\<lambda>g. gm_ws_set_balance ?W g ?a (b - n)) s1 = Some s2" and
    3: "on_gm (\<lambda>g. gm_ws_balance ?W g target) s2 = Some (c, s3)" and
    4: "on_gm_set (\<lambda>g. gm_ws_set_balance ?W g target (saturating_add c n)) s3 = Some s4" and
    rest: "call_contract R s4 v target m args amount = Some (Ok, st')"
    using run Some by (auto simp: call_def Let_def abort_def split: if_split_asm elim!: bind_SomeE)
  note b1 = balance_step[OF at 1] and q1 = quiet_kept[OF conjunct1[OF es_read_balance[OF 1]] conjunct2[OF es_read_balance[OF 1]] q]
  have md: "txn_meta st = md"
    using at by (simp add: at_state_def)
  let ?b = "bal(?a := bal ?a - n)"
  have b2: "at_state R ab good md L ?b s2" and q2: "quiet R (ctx s2)"
    using set_balance_step[OF _ 2] b1 quiet_kept[OF conjunct1[OF es_write_balance[OF 2]] conjunct2[OF es_write_balance[OF 2]] q1] by simp_all
  note b3 = balance_step[OF b2 3] and q3 = quiet_kept[OF conjunct1[OF es_read_balance[OF 3]] conjunct2[OF es_read_balance[OF 3]] q2]
  have b4: "at_state R ab good md L (?b(target := saturating_add (?b target) n)) s4" and q4: "quiet R (ctx s4)"
    using set_balance_step[OF _ 4] b3 quiet_kept[OF conjunct1[OF es_write_balance[OF 4]] conjunct2[OF es_write_balance[OF 4]] q3] by simp_all
  have "total_supply L (?b(target := saturating_add (?b target) n)) = total_supply L bal"
    using transfer_conserves[of n bal ?a L target] le b1 inv by (simp add: ledger_inv_def)
  then show ?thesis
    using b4 q4 inv rest md by (intro exI[of _ s4] exI[of _ "?b(target := saturating_add (?b target) n)"])
      (simp add: ledger_inv_bank at_state_def)
qed

lemma call_keeps_books:
  fixes R :: "('w, 'c, 'm, 'v) runtime" and st st' :: "('w, 'c, 'e) execution_state"
  assumes at: "at_state R ab good md L bal st" and inv: "ledger_inv cmp L bal" and q: "quiet R (ctx st)" "fs_apart (rt_wasmer R)"
    and run: "call R st False target m args amount = Some (Ok, st')"
  shows "quiet R (ctx st') \<and>
    (\<exists>bal'. at_state R ab good md L bal' st' \<and> ledger_inv cmp L bal' \<and> total_supply L bal' = total_supply L bal)"
proof -
  obtain st1 bal1 where at1: "at_state R ab good md L bal1 st1" "quiet R (ctx st1)" "txn_meta st1 = txn_meta st"
    and inv1: "ledger_inv cmp L bal1" "total_supply L bal1 = total_supply L bal"
    and rest: "call_contract R st1 False target m args amount = Some (Ok, st')"
    using call_pays[OF at inv q(1) run] by blast
  have "txn_meta st' = txn_meta st1"
    using call_cmd.keeps[OF run] at1(3) by (simp add: es_keeps_def)
  then show ?thesis
    using even_step_books[OF call_contract_even_step[OF q(2) at1(2) rest] at1(2) _ at1(1) inv1(1)] inv1(2) by simp
qed

section \<open>Every command keeps the books\<close>

text \<open>Contracts stay clear of the network account: a module stored for one contract is not one of another,
  and no contract is ever deployed at the address of the network account.\<close>

definition contracts_apart :: "('w, 'c, 'm, 'v) runtime \<Rightarrow> bool" where
  "contracts_apart R \<longleftrightarrow> fs_apart (rt_wasmer R) \<and> (\<forall>meta i. deploy_address R meta i \<noteq> NETWORK_ADDRESS (rt_net R))"

lemma command_stays_quiet:
  assumes "contracts_apart R" "quiet R (ctx st)" "execute R st i actor cmd = Some (Ok, st')" "command_kind_of cmd \<noteq> KCall"
  shows "quiet R (ctx st')"
proof (rule quiet_frame[OF exec.success_frame[OF assms(3)] assms(2)])
  show "NETWORK_ADDRESS (rt_net R) \<notin> writes_code R (txn_meta st) i cmd"
    using assms(1) by (cases cmd) (auto simp: contracts_apart_def dest: sym)
  show "no_module R (sc_context (ctx st'))"
  proof (cases "command_kind_of cmd = KDeploy")
    case True
    then obtain code cbi where "deploy R st (i mod 2 ^ 32) code cbi = Some (Ok, st')"
      using assms(3) by (cases cmd) auto
    from deploy_stores[OF this] show ?thesis
      using no_module_stores[of R "sc_context (ctx st)"] assms(1,2) by (auto simp: contracts_apart_def quiet_def)
  next
    case False
    then show ?thesis
      using postD[OF command_keeps_sc assms(3)] assms(2,4) by (auto simp: cmd_sc_def sc_kept_def quiet_def)
  qed
qed

lemma every_command_keeps_books:
  fixes R :: "('w, 'c, 'm, 'v) runtime" and st st' :: "('w, 'c, 'e) execution_state"
  assumes laws: "network_laws R ab good" "contracts_apart R" and at: "at_state R ab good md L bal st"
    and inv: "ledger_inv cmp L bal" "quiet R (ctx st)" and run: "execute R st i actor cmd = Some (Ok, st')"
  shows "quiet R (ctx st') \<and> (\<exists>L' bal'. at_state R ab good md L' bal' st' \<and> ledger_inv cmp L' bal' \<and>
    total_supply L' bal' = total_supply L bal)"
proof (cases "command_kind_of cmd = KCall")
  case True
  then obtain target m args amount where "call R st False target m args amount = Some (Ok, st')"
    using run by (cases cmd) auto
  then show ?thesis
    using call_keeps_books[OF at inv, of target m args amount st'] laws(2) unfolding contracts_apart_def by blast
next
  case False
  then show ?thesis
    using command_stays_quiet[OF laws(2) inv(2) run] command_keeps_books[OF laws(1) at inv(1) run] by blast
qed

end
