(* ===== verification/Transaction_Runs.thy ===== *)
theory Transaction_Runs
  imports Executor
begin

text \<open>
  Runs of the command loop as a step relation, and the invariant of its reachable configurations:
  what is on the stack, what the receipt buffer answers and what the meter has booked. The receipt
  versions enter through the locale \<open>receipt_version\<close>, interpreted on both.
\<close>

section \<open>Configurations and steps\<close>

type_synonym ('w, 'c, 'e) loop_config = "executable_commands \<times> usize \<times> ('w, 'c, 'e) execution_state"

inductive loop_steps ::
  "('w, 'c, 'm, 'v) runtime \<Rightarrow> ('e, 'r) finalize_ops \<Rightarrow> ('w, 'c, 'e) loop_config \<Rightarrow>
   ('w, 'c, 'e) loop_config \<Rightarrow> bool" for R F where
  start: "loop_steps R F c c"
| step: "loop_steps R F c (stack, i, st) \<Longrightarrow> next_command stack = Some (cmd, rest) \<Longrightarrow>
    consume_and_execute R cmd st i = Some (Ok, st1) \<Longrightarrow>
    handle_command_execution_result F st1 (ec_command_kind cmd) Ok (is_txn_sent cmd) = (deferred, st2) \<Longrightarrow>
    loop_steps R F c (pushed rest deferred, if is_txn_sent cmd then i + 1 else i, st2)"

lemma loop_steps_converse:
  assumes "next_command stack = Some (cmd, rest)" "consume_and_execute R cmd st i = Some (Ok, st1)"
    and "handle_command_execution_result F st1 (ec_command_kind cmd) Ok (is_txn_sent cmd) = (deferred, st2)"
    and "loop_steps R F (pushed rest deferred, if is_txn_sent cmd then i + 1 else i, st2) c'"
  shows "loop_steps R F (stack, i, st) c'"
  using assms(4)
proof (induction "(pushed rest deferred, if is_txn_sent cmd then i + 1 else i, st2)" c' rule: loop_steps.induct)
  case start
  show ?case
    by (rule loop_steps.step[OF loop_steps.start assms(1-3)])
qed (rule loop_steps.step)

text \<open>The loop ends in a reachable configuration: the stack is empty, or its top command fails.\<close>

definition loop_ends ::
  "('w, 'c, 'm, 'v) runtime \<Rightarrow> ('e, 'r) finalize_ops \<Rightarrow> ('w, 'c, 'e) loop_config \<Rightarrow>
   ('w, 'r) transition_result \<Rightarrow> bool" where
  "loop_ends R F = (\<lambda>(stack, i, st) res.
     stack = [] \<and> handle_charge R F st = Some res \<or>
     (\<exists>cmd rest e st1. next_command stack = Some (cmd, rest) \<and>
        consume_and_execute R cmd st i = Some (Inl e, st1) \<and>
        handle_abort R F (snd (handle_command_execution_result F st1 (ec_command_kind cmd) (Inl e)
          (is_txn_sent cmd))) e = Some res))"

lemma loop_outcome:
  assumes "execute_loop R F stack i st = Some res"
  shows "\<exists>c. loop_steps R F (stack, i, st) c \<and> loop_ends R F c res"
  using assms
proof (induction R F stack i st rule: execute_loop.induct)
  case (1 R F stack i st)
  show ?case
  proof (cases "next_command stack")
    case None
    then have "handle_charge R F st = Some res"
      using "1.prems" by (subst (asm) execute_loop.simps) simp
    then have "loop_ends R F (stack, i, st) res"
      using None by (simp add: loop_ends_def next_command_None)
    then show ?thesis
      using loop_steps.start by blast
  next
    case (Some p)
    then obtain cmd rest where nc: "next_command stack = Some (cmd, rest)"
      by (cases p) auto
    obtain r st1 where run: "consume_and_execute R cmd st i = Some (r, st1)"
      using "1.prems" nc by (auto simp: execute_loop.simps[of R F stack] bind_convs)
    obtain deferred st2 where h: "handle_command_execution_result F st1 (ec_command_kind cmd) r
        (is_txn_sent cmd) = (deferred, st2)"
      by fastforce
    show ?thesis
    proof (cases r)
      case (Inl e)
      then have "loop_ends R F (stack, i, st) res"
        using "1.prems" nc run h by (auto simp: execute_loop.simps[of R F stack] loop_ends_def)
      then show ?thesis
        using loop_steps.start by blast
    next
      case (Inr u)
      then have ok: "r = Ok"
        by simp
      have "execute_loop R F (pushed rest deferred) (if is_txn_sent cmd then i + 1 else i) st2 = Some res"
        using "1.prems" nc run h ok by (simp add: execute_loop.simps[of R F stack])
      then show ?thesis
        using "1.IH"[OF nc refl run refl _ refl] h[unfolded ok] loop_steps_converse[OF nc run[unfolded ok] h[unfolded ok]] ok
        by (metis Inr)
    qed
  qed
qed

section \<open>Receipt versions\<close>

text \<open>
  What the invariant needs of a receipt version: a command receipt carries the gas, the kind and
  the outcome of its command, and the receipt of a deferred command is merged into the last one,
  whose gas grows by it, whose kind stays and whose outcome it replaces.
\<close>

locale receipt_version =
  fixes F :: "('e, 'r) finalize_ops" and gas_of :: "'e \<Rightarrow> u64"
    and kind_of :: "'e \<Rightarrow> 'k" and tag :: "command_kind \<Rightarrow> 'k" and ok_of :: "'e \<Rightarrow> bool"
  assumes command_gas: "gas_of (f_command_receipt F kind res g out) = g"
    and command_kind: "kind_of (f_command_receipt F kind res g out) = tag kind"
    and command_ok: "ok_of (f_command_receipt F kind res g out) \<longleftrightarrow> res = Ok"
    and push_deferred: "\<exists>r'. f_push_deferred F (buf @ [r0]) r = buf @ [r'] \<and>
      gas_of r' = saturating_add (gas_of r0) (gas_of r) \<and> kind_of r' = kind_of r0 \<and>
      ok_of r' = ok_of r"

definition succeeded_v1 :: "command_receipt_v1 \<Rightarrow> bool" where
  "succeeded_v1 r \<longleftrightarrow> r1_exit_code r = Success_V1"

definition succeeded_v2 :: "command_receipt_v2 \<Rightarrow> bool" where
  "succeeded_v2 r \<longleftrightarrow> snd (gas_used_and_exit_code_v2 r) = Ok_V2"

definition gas_used_of_v2 :: "command_receipt_v2 \<Rightarrow> u64" where
  "gas_used_of_v2 r = fst (gas_used_and_exit_code_v2 r)"

interpretation v1: receipt_version finalize_v1 r1_gas_used "\<lambda>_. ()" "\<lambda>_. ()" succeeded_v1
  by unfold_locales
    (simp_all add: finalize_v1_def command_receipt_v1_of_def succeeded_v1_def exit_code_v1_of_def
      split: sum.split)

interpretation v2: receipt_version finalize_v2 gas_used_of_v2 receipt_kind "\<lambda>k. k" succeeded_v2
  by unfold_locales
    (simp_all add: finalize_v2_def command_receipt_v2_of_def gas_used_of_v2_def succeeded_v2_def
      exit_code_v2_of_def split: sum.split)

section \<open>The invariant\<close>

text \<open>The state of a run against the state \<open>st0\<close> it started in.\<close>

definition run_state ::
  "'w ws_ops \<Rightarrow> ('e \<Rightarrow> u64) \<Rightarrow> ('w, 'c, 'e) execution_state \<Rightarrow> ('w, 'c, 'e) execution_state \<Rightarrow> bool" where
  "run_state W gas_of st0 st \<longleftrightarrow>
     txn_meta st = txn_meta st0 \<and> bd st = bd st0 \<and>
     wsc_inv W (es_cache st) \<and> ws (es_cache st) = ws (es_cache st0) \<and>
     gm_within_limit (es_gm st) \<and> gm_gas_limit (es_gm st) = gm_gas_limit (es_gm st0) \<and>
     gas_used_for_txn_inclusion (es_gm st) = gas_used_for_txn_inclusion (es_gm st0) \<and>
     gas_used_for_executed_commands (es_gm st) = (\<Sum>r\<leftarrow>receipt_buf st. gas_of r) \<and>
     deferred_commands (ctx st) = []"

text \<open>
  The stack holds, from the top, the deferred commands \<open>ds\<close> of the last finished command and then
  the rest of the transaction; the buffer has one receipt of the right kind per finished command.
\<close>

definition run_stack ::
  "('e \<Rightarrow> 'k) \<Rightarrow> (command_kind \<Rightarrow> 'k) \<Rightarrow> command list \<Rightarrow> executable_commands \<Rightarrow> usize \<Rightarrow> 'e list \<Rightarrow> bool" where
  "run_stack kind_of tag commands stack i buf \<longleftrightarrow>
     (\<exists>finished todo ds. commands = finished @ todo \<and> i = length finished \<and>
        stack = rev (map TransactionCommmand todo) @ rev (map DeferredCommand ds) \<and>
        list_all defer_ok ds \<and> (finished = [] \<longrightarrow> ds = []) \<and>
        map kind_of buf = map (\<lambda>c. tag (command_kind_of c)) finished)"

lemma take_result_frame:
  assumes "take_current_command_result g = ((used, out), g')" "gm_within_limit g"
  shows "gm_within_limit g'" "gm_gas_limit g' = gm_gas_limit g"
    "gas_used_for_txn_inclusion g' = gas_used_for_txn_inclusion g"
    "gas_used_for_executed_commands g' = gas_used_for_executed_commands g + used"
    "ws_cache g' = ws_cache g"
proof -
  have used: "gas_used_for_txn_inclusion g + gas_used_for_executed_commands g + used \<le> gm_gas_limit g"
    using assms executed_exact[OF assms(2)]
    by (auto simp: take_current_command_result_def gm_within_limit_def saturating_sub_def
        case_prod_beta Let_def)
  then have "gas_used_for_executed_commands g + used \<le> U64_MAX"
    using assms(2) by (simp add: gm_within_limit_def)
  then show "gas_used_for_executed_commands g' = gas_used_for_executed_commands g + used"
    using assms(1) by (auto simp: take_current_command_result_def case_prod_beta Let_def saturating_add_exact)
  moreover show "gm_gas_limit g' = gm_gas_limit g"
    "gas_used_for_txn_inclusion g' = gas_used_for_txn_inclusion g" "ws_cache g' = ws_cache g"
    using assms(1) by (auto simp: take_current_command_result_def case_prod_beta Let_def)
  ultimately show "gm_within_limit g'"
    using used assms(2) by (simp add: gm_within_limit_def)
qed

lemma pop_stack:
  "rev (map TransactionCommmand todo) @ rev (map DeferredCommand ds) = rest @ [cmd] \<longleftrightarrow>
     (\<exists>c todo'. ds = [] \<and> todo = c # todo' \<and> cmd = TransactionCommmand c \<and>
        rest = rev (map TransactionCommmand todo')) \<or>
     (\<exists>d ds'. ds = d # ds' \<and> cmd = DeferredCommand d \<and>
        rest = rev (map TransactionCommmand todo) @ rev (map DeferredCommand ds'))"
  by (cases ds; cases todo) auto

text \<open>A command that runs is either the next one of the transaction or a deferred one.\<close>

lemma run_stack_pop:
  assumes "run_stack kind_of tag commands stack i buf" "next_command stack = Some (cmd, rest)"
  obtains (sent) c finished todo where "cmd = TransactionCommmand c" "commands = finished @ c # todo"
      "i = length finished" "rest = rev (map TransactionCommmand todo)"
      "map kind_of buf = map (\<lambda>c. tag (command_kind_of c)) finished"
    | (deferred) d finished todo ds where "cmd = DeferredCommand d" "commands = finished @ todo"
      "i = length finished" "finished \<noteq> []" "defer_ok d" "list_all defer_ok ds"
      "rest = rev (map TransactionCommmand todo) @ rev (map DeferredCommand ds)"
      "map kind_of buf = map (\<lambda>c. tag (command_kind_of c)) finished"
proof -
  obtain finished todo ds where f: "commands = finished @ todo" "i = length finished"
    "stack = rev (map TransactionCommmand todo) @ rev (map DeferredCommand ds)"
    "list_all defer_ok ds" "finished = [] \<longrightarrow> ds = []"
    "map kind_of buf = map (\<lambda>c. tag (command_kind_of c)) finished"
    using assms(1) unfolding run_stack_def by blast
  then have "rev (map TransactionCommmand todo) @ rev (map DeferredCommand ds) = rest @ [cmd]"
    using assms(2) by (simp add: next_command_Some)
  from this[unfolded pop_stack] show thesis
    using f sent[of _ finished] deferred[of _ finished todo] by auto
qed

lemma run_stack_ready:
  assumes "run_stack kind_of tag commands stack i buf" "next_command stack = Some (cmd, rest)"
  shows "is_txn_sent cmd \<or> buf \<noteq> []"
  using assms by (cases rule: run_stack_pop) auto

lemma run_stack_step:
  assumes "run_stack kind_of tag commands stack i buf" "next_command stack = Some (cmd, rest)"
    and "\<And>ds. deferred = Some ds \<Longrightarrow> is_txn_sent cmd \<and> list_all defer_ok ds"
    and "map kind_of buf' = (if is_txn_sent cmd then map kind_of buf @ [tag (ec_command_kind cmd)]
      else map kind_of buf)"
  shows "run_stack kind_of tag commands (pushed rest deferred) (if is_txn_sent cmd then i + 1 else i) buf'"
  using assms(1,2)
proof (cases rule: run_stack_pop)
  case (sent c finished todo)
  let ?ds = "case deferred of Some ds \<Rightarrow> ds | None \<Rightarrow> []"
  have "list_all defer_ok ?ds"
    using assms(3) by (simp split: option.split)
  then show ?thesis
    using sent assms(4) unfolding run_stack_def
    by (intro exI[of _ "finished @ [c]"] exI[of _ todo] exI[of _ ?ds])
      (simp add: pushed_def push_deferred_commands_def split: option.split)
next
  case (deferred d finished todo ds)
  then have "pushed rest deferred = rest"
    using assms(3) by (cases deferred) auto
  then show ?thesis
    using deferred assms(4) unfolding run_stack_def
    by (intro exI[of _ finished] exI[of _ todo] exI[of _ ds]) simp
qed

context receipt_version
begin

text \<open>The buffer after a command: a receipt of its own, or one merged into the last.\<close>

lemma buffer_step:
  assumes "buf' = (if sent then buf @ [rcp] else f_push_deferred F buf rcp)"
    and "rcp = f_command_receipt F kind res used out" "sent \<or> buf \<noteq> []"
    and "(\<Sum>r\<leftarrow>buf. gas_of r) + used \<le> U64_MAX"
  shows "(\<Sum>r\<leftarrow>buf'. gas_of r) = (\<Sum>r\<leftarrow>buf. gas_of r) + used"
    "map kind_of buf' = (if sent then map kind_of buf @ [tag kind] else map kind_of buf)"
    "list_all ok_of buf \<Longrightarrow> \<exists>init r. buf' = init @ [r] \<and> list_all ok_of init \<and> (ok_of r \<longleftrightarrow> res = Ok)"
proof -
  have "(\<Sum>r\<leftarrow>buf'. gas_of r) = (\<Sum>r\<leftarrow>buf. gas_of r) + used \<and>
    map kind_of buf' = (if sent then map kind_of buf @ [tag kind] else map kind_of buf) \<and>
    (list_all ok_of buf \<longrightarrow> (\<exists>init r. buf' = init @ [r] \<and> list_all ok_of init \<and> (ok_of r \<longleftrightarrow> res = Ok)))"
  proof (cases sent)
    case True
    then show ?thesis
      using assms(1,2) by (simp add: command_gas command_kind command_ok)
  next
    case False
    then obtain init r0 where b: "buf = init @ [r0]"
      using assms(3) by (metis append_butlast_last_id)
    obtain r' where "f_push_deferred F (init @ [r0]) rcp = init @ [r']"
      "gas_of r' = saturating_add (gas_of r0) used" "kind_of r' = kind_of r0" "ok_of r' \<longleftrightarrow> res = Ok"
      using push_deferred[of init r0 rcp] by (auto simp: assms(2) command_gas command_ok)
    then show ?thesis
      using False assms(1,4) by (simp add: b saturating_add_exact)
  qed
  then show "(\<Sum>r\<leftarrow>buf'. gas_of r) = (\<Sum>r\<leftarrow>buf. gas_of r) + used"
    "map kind_of buf' = (if sent then map kind_of buf @ [tag kind] else map kind_of buf)"
    "list_all ok_of buf \<Longrightarrow> \<exists>init r. buf' = init @ [r] \<and> list_all ok_of init \<and> (ok_of r \<longleftrightarrow> res = Ok)"
    by simp_all
qed

text \<open>Closing a command keeps the state of the run, whatever the command's result was.\<close>

lemma close_command:
  assumes "run_state W gas_of st0 st" "es_keeps W defer_ok st st1"
    and "handle_command_execution_result F st1 kind res sent = (deferred, st2)"
    and "sent \<or> receipt_buf st \<noteq> []"
  shows "run_state W gas_of st0 st2" and "es_cache st2 = es_cache st1"
    and "\<And>ds. deferred = Some ds \<Longrightarrow> sent \<and> list_all defer_ok ds"
    and "map kind_of (receipt_buf st2) =
      (if sent then map kind_of (receipt_buf st) @ [tag kind] else map kind_of (receipt_buf st))"
    and "list_all ok_of (receipt_buf st) \<Longrightarrow>
      \<exists>buf r. receipt_buf st2 = buf @ [r] \<and> list_all ok_of buf \<and> (ok_of r \<longleftrightarrow> res = Ok)"
proof -
  obtain used out g' where take: "take_current_command_result (es_gm st1) = ((used, out), g')"
    by (metis surj_pair)
  have within: "gm_within_limit (es_gm st1)"
    using assms(1,2) by (simp add: run_state_def es_keeps_def gm_within_limit_def)
  note t = take_result_frame[OF take within]
  let ?rcp = "f_command_receipt F kind res used out"
  have st2: "st2 = st1\<lparr>ctx := (ctx st1)\<lparr>ctx_gas_meter := g', deferred_commands := []\<rparr>,
      receipt_buf := (if sent then receipt_buf st @ [?rcp] else f_push_deferred F (receipt_buf st) ?rcp)\<rparr>"
    and def: "deferred = (if sent \<and> deferred_commands (ctx st1) \<noteq> [] then Some (deferred_commands (ctx st1)) else None)"
    using assms(2,3) take
    by (auto simp: handle_command_execution_result_def finalize_cmd_receipt_collect_deferred_def
        finalize_deferred_cmd_receipt_def complete_cmd_execution_def es_gm_def Let_def es_keeps_def
        push_command_receipt_def split: if_split_asm)
  show "es_cache st2 = es_cache st1"
    using t(5) by (simp add: st2 es_cache_def gas_free_ws_cache_def es_gm_def)
  show "sent \<and> list_all defer_ok ds" if "deferred = Some ds" for ds
    using that def assms(1,2) by (auto simp: es_keeps_def run_state_def split: if_split_asm)
  have "(\<Sum>r\<leftarrow>receipt_buf st. gas_of r) + used \<le> U64_MAX"
    using t(1,4) assms(1,2) by (simp add: gm_within_limit_def run_state_def es_keeps_def)
  note buf = buffer_step[OF _ refl assms(4) this, of "receipt_buf st2" kind res out]
  show "map kind_of (receipt_buf st2) =
      (if sent then map kind_of (receipt_buf st) @ [tag kind] else map kind_of (receipt_buf st))"
    "list_all ok_of (receipt_buf st) \<Longrightarrow>
      \<exists>buf r. receipt_buf st2 = buf @ [r] \<and> list_all ok_of buf \<and> (ok_of r \<longleftrightarrow> res = Ok)"
    using buf(2,3) by (simp_all add: st2)
  show "run_state W gas_of st0 st2"
    using assms(1,2) t buf(1)
    by (auto simp: run_state_def es_keeps_def st2 es_gm_def es_cache_def gas_free_ws_cache_def
        dest: wsc_step_ws wsc_step_inv)
qed

lemma loop_invariant:
  assumes "loop_steps R F (executable_commands_new commands, 0, st0) (stack, i, st)"
    and "run_state (rt_ws R) gas_of st0 st0" and "receipt_buf st0 = []"
  shows "run_state (rt_ws R) gas_of st0 st \<and> run_stack kind_of tag commands stack i (receipt_buf st) \<and>
    list_all ok_of (receipt_buf st)"
  using assms(1)
proof (induction "(executable_commands_new commands, 0::nat, st0)" "(stack, i, st)"
    arbitrary: stack i st rule: loop_steps.induct)
  case start
  then show ?case
    using assms(2,3) by (auto simp: run_stack_def executable_commands_new_def)
next
  case (step stack i st cmd rest st1 deferred st2)
  note IH = step(2)
  note stack = conjunct1[OF conjunct2[OF IH]]
  note close = close_command[OF conjunct1[OF IH] consume_keeps[OF step(4)] step(5)
      run_stack_ready[OF stack step(3)]]
  show ?case
    using close(1,5) IH run_stack_step[OF stack step(3) close(3,4)] by auto
qed

text \<open>How a run ends: with a settlement, after every command or after one that failed.\<close>

lemma loop_result:
  assumes "execute_loop R F (executable_commands_new commands) 0 st0 = Some res"
    and "run_state (rt_ws R) gas_of st0 st0" and "receipt_buf st0 = []"
  obtains st st' w r where "run_state (rt_ws R) gas_of st0 st" "charge R st = Some st'"
    "finalize_receipt R F st' = Some (w, r)"
    "new_state res = w" "receipt res = Some r" "tr_validator_changes res = None"
    "length (receipt_buf st) \<le> length commands"
    "map kind_of (receipt_buf st) = take (length (receipt_buf st)) (map (\<lambda>c. tag (command_kind_of c)) commands)"
    "tr_error res = None \<longrightarrow> length (receipt_buf st) = length commands \<and> list_all ok_of (receipt_buf st) \<and>
       loop_steps R F (executable_commands_new commands, 0, st0) ([], length commands, st)"
    "tr_error res \<noteq> None \<longrightarrow> wsc_clean (es_cache st) \<and>
       (\<exists>buf r. receipt_buf st = buf @ [r] \<and> list_all ok_of buf \<and> \<not> ok_of r)"
proof -
  obtain stack i st where steps: "loop_steps R F (executable_commands_new commands, 0, st0) (stack, i, st)"
    and ends: "loop_ends R F (stack, i, st) res"
    using loop_outcome[OF assms(1)] by auto
  note inv = loop_invariant[OF steps assms(2,3)]
  note istack = conjunct1[OF conjunct2[OF inv]]
  from ends consider (charge) "stack = []" "handle_charge R F st = Some res"
    | (fail) cmd rest e st1 where "next_command stack = Some (cmd, rest)"
        "consume_and_execute R cmd st i = Some (Inl e, st1)"
        "handle_abort R F (snd (handle_command_execution_result F st1 (ec_command_kind cmd) (Inl e)
          (is_txn_sent cmd))) e = Some res"
    by (auto simp: loop_ends_def)
  then show thesis
  proof cases
    case charge
    have kinds: "map kind_of (receipt_buf st) = map (\<lambda>c. tag (command_kind_of c)) commands"
      using inv charge(1) by (auto simp: run_stack_def)
    then have len: "length (receipt_buf st) = length commands"
      by (metis length_map)
    have "i = length commands"
      using istack charge(1) by (auto simp: run_stack_def)
    with steps charge(1) have "loop_steps R F (executable_commands_new commands, 0, st0) ([], length commands, st)"
      by simp
    then show thesis
      using charge(2) inv kinds len that[of st]
      by (auto simp: handle_charge_def bind_convs)
  next
    case fail
    obtain deferred st2 where h: "handle_command_execution_result F st1 (ec_command_kind cmd) (Inl e)
        (is_txn_sent cmd) = (deferred, st2)"
      by fastforce
    note close = close_command[OF conjunct1[OF inv] consume_keeps[OF fail(2)] h
        run_stack_ready[OF istack fail(1)]]
    have "run_stack kind_of tag commands (pushed rest deferred)
        (if is_txn_sent cmd then i + 1 else i) (receipt_buf st2)"
      by (rule run_stack_step[OF istack fail(1) close(3,4)])
    then obtain finished todo where f: "commands = finished @ todo"
      "map kind_of (receipt_buf st2) = map (\<lambda>c. tag (command_kind_of c)) finished"
      by (auto simp: run_stack_def)
    then have len: "length (receipt_buf st2) = length finished"
      by (metis length_map)
    have codes: "\<exists>buf r. receipt_buf st2 = buf @ [r] \<and> list_all ok_of buf \<and> \<not> ok_of r"
      using close(5) inv by auto
    show thesis
      using fail(3) h close(1,2) consume_failure_clean[OF fail(2)] f len codes that[of st2]
      by (auto simp: handle_abort_def bind_convs)
  qed
qed

end

section \<open>The order of execution\<close>

text \<open>
  A reference for the loop without a stack: each command of the transaction is followed at once by
  the commands it deferred, in the order it deferred them, and the first failure ends the run.
\<close>

primrec run_deferred ::
  "('w, 'c, 'm, 'v) runtime \<Rightarrow> ('e, 'r) finalize_ops \<Rightarrow> deferred_command list \<Rightarrow> usize \<Rightarrow>
   ('w, 'c, 'e) execution_state \<Rightarrow>
   (('w, 'r) transition_result + ('w, 'c, 'e) execution_state) option" where
  "run_deferred R F [] i st = Some (Inr st)"
| "run_deferred R F (d # ds) i st = do {
     (res, st) \<leftarrow> execute_deferred_command R d st i;
     let st = finalize_deferred_cmd_receipt F st (command_kind_of (dc_command d)) res;
     case res of
       Inl e \<Rightarrow> map_option Inl (handle_abort R F st e)
     | Inr _ \<Rightarrow> run_deferred R F ds i st
   }"

primrec run_in_order ::
  "('w, 'c, 'm, 'v) runtime \<Rightarrow> ('e, 'r) finalize_ops \<Rightarrow> command list \<Rightarrow> usize \<Rightarrow>
   ('w, 'c, 'e) execution_state \<Rightarrow> ('w, 'r) transition_result option" where
  "run_in_order R F [] i st = handle_charge R F st"
| "run_in_order R F (cmd # cmds) i st = do {
     (res, st) \<leftarrow> execute_command R cmd st i;
     let (deferred, st) = finalize_cmd_receipt_collect_deferred F st (command_kind_of cmd) res;
     case res of
       Inl e \<Rightarrow> handle_abort R F st e
     | Inr _ \<Rightarrow> do {
         out \<leftarrow> run_deferred R F (case deferred of Some ds \<Rightarrow> ds | None \<Rightarrow> []) (i + 1) st;
         case out of Inl result \<Rightarrow> Some result | Inr st \<Rightarrow> run_in_order R F cmds (i + 1) st
       }
   }"

lemma next_command_snoc [simp]: "next_command (rest @ [c]) = Some (c, rest)"
  by (simp add: next_command_def)

lemma bind_Inl [simp]: "map_option Inl m \<bind> case_sum Some f = m"
  by (cases m) simp_all

lemma loop_deferred:
  "execute_loop R F (stack @ rev (map DeferredCommand ds)) i st =
     run_deferred R F ds i st \<bind>
       (\<lambda>out. case out of Inl result \<Rightarrow> Some result | Inr st \<Rightarrow> execute_loop R F stack i st)"
proof (induction ds arbitrary: st)
  case (Cons d ds)
  have "execute_loop R F (stack @ rev (map DeferredCommand (d # ds))) i st =
    (execute_deferred_command R d st i \<bind> (\<lambda>(res, st).
       let st = finalize_deferred_cmd_receipt F st (command_kind_of (dc_command d)) res in
       case res of Inl e \<Rightarrow> handle_abort R F st e
       | Inr _ \<Rightarrow> execute_loop R F (stack @ rev (map DeferredCommand ds)) i st))"
    using next_command_snoc[of "stack @ rev (map DeferredCommand ds)" "DeferredCommand d"]
    by (subst execute_loop.simps)
      (simp add: handle_command_execution_result_def Let_def cong: sum.case_cong)
  then show ?case
    by (cases "execute_deferred_command R d st i")
      (auto simp: Cons Let_def split: sum.split option.split)
qed simp

lemma execute_loop_in_order:
  "execute_loop R F (executable_commands_new commands) i st = run_in_order R F commands i st"
proof (induction commands arbitrary: i st)
  case Nil
  show ?case
    by (subst execute_loop.simps) (simp add: executable_commands_new_def next_command_def)
next
  case (Cons c cs)
  have top: "next_command (executable_commands_new (c # cs)) =
      Some (TransactionCommmand c, executable_commands_new cs)"
    by (simp add: executable_commands_new_def)
  have rest: "execute_loop R F (pushed (executable_commands_new cs) deferred) (Suc i) st' =
      run_deferred R F (case deferred of Some ds \<Rightarrow> ds | None \<Rightarrow> []) (Suc i) st' \<bind>
        (\<lambda>out. case out of Inl result \<Rightarrow> Some result | Inr st \<Rightarrow> run_in_order R F cs (Suc i) st)"
    for deferred st'
    using loop_deferred[of R F "executable_commands_new cs", unfolded Cons.IH] Cons.IH
    by (cases deferred) (simp_all add: pushed_def push_deferred_commands_def)
  show ?case
    by (subst execute_loop.simps)
      (simp add: top handle_command_execution_result_def Let_def rest cong: sum.case_cong)
qed

text \<open>C11: The stack of executable commands runs a transaction in the documented order: after the
  pre-charge phase, executing the commands gives the same result, receipts and world state as
  running each command of the transaction followed at once by the commands it deferred, in the
  order it deferred them, up to the first failure.\<close>

theorem stack_runs_in_order:
  "execute_commands R F st commands =
     pre_charge R st \<bind> (\<lambda>(res, st). case res of
         Inl e \<Rightarrow> handle_precharge_error R F st e
       | Inr _ \<Rightarrow> run_in_order R F commands 0 st)"
  by (simp add: execute_commands_def execute_loop_in_order cong: sum.case_cong)

end
