(* ===== verification/Next_Epoch.thy ===== *)
theory Next_Epoch
  imports Transaction_Runs
begin

text \<open>
  The execution of a next epoch transaction, \<^verbatim>\<open>src/execution/execute_next_epoch.rs\<close>, and of a view call,
  \<^verbatim>\<open>src/execution/execute_view.rs\<close>. As for the commands, the two strategies of a next epoch differ
  only in the receipt types and are one definition over \<open>finalize_ops\<close>.
\<close>

section \<open>Next epoch\<close>

definition handle_invalid_next_epoch_command ::
  "('w, 'c, 'e) execution_state \<Rightarrow> ('w, 'r) transition_result" where
  "handle_invalid_next_epoch_command st =
     \<lparr>new_state = ws (es_cache st), receipt = None, tr_error = Some InvalidNextEpochCommand,
      tr_validator_changes = None\<rparr>"

definition handle_post_execution ::
  "('w, 'c, 'm, 'v) runtime \<Rightarrow> ('e, 'r) finalize_ops \<Rightarrow> ('w, 'c, 'e) execution_state \<Rightarrow>
   validator_changes \<Rightarrow> ('w, 'r) transition_result option" where
  "handle_post_execution R F st changes = do {
     let (_, st) = finalize_cmd_receipt_collect_deferred F st KNextEpoch Ok;
     (w, r) \<leftarrow> finalize_receipt R F st;
     Some \<lparr>new_state = w, receipt = Some r, tr_error = None, tr_validator_changes = Some changes\<rparr>
   }"

definition execute_next_epoch_command ::
  "('w, 'c, 'm, 'v) runtime \<Rightarrow> ('e, 'r) finalize_ops \<Rightarrow> ('w, 'c, 'e) execution_state \<Rightarrow>
   command list \<Rightarrow> ('w, 'r) transition_result option" where
  "execute_next_epoch_command R F st commands = do {
     let signer_address = signer (txn_meta st);
     origin_nonce \<leftarrow> at_nonce (rt_ws R) (ws (es_cache st)) signer_address;
     if length commands \<noteq> 1 \<or> (case commands of c # _ \<Rightarrow> c \<noteq> NextEpoch | [] \<Rightarrow> True) \<or>
        bp_validator_performance (bd st) = None \<or> nonce (txn_meta st) \<noteq> origin_nonce
     then Some (handle_invalid_next_epoch_command st)
     else do {
       (st, new_vs) \<leftarrow> next_epoch R st;
       w \<leftarrow> at_set_nonce (rt_ws R) (ws (es_cache st)) signer_address (saturating_add origin_nonce 1);
       handle_post_execution R F (set_es_cache st ((es_cache st)\<lparr>ws := w\<rparr>)) new_vs
     }
   }"

definition execute_next_epoch_v1 ::
  "('w, 'c, 'm, 'v) runtime \<Rightarrow> ('w, 'c, command_receipt_v1) execution_state \<Rightarrow> command list \<Rightarrow>
   ('w, receipt_v1) transition_result option" where
  "execute_next_epoch_v1 R = execute_next_epoch_command R finalize_v1"

definition execute_next_epoch_v2 ::
  "('w, 'c, 'm, 'v) runtime \<Rightarrow> ('w, 'c, command_receipt_v2) execution_state \<Rightarrow> command list \<Rightarrow>
   ('w, receipt_v2) transition_result option" where
  "execute_next_epoch_v2 R = execute_next_epoch_command R finalize_v2"

section \<open>View calls\<close>

definition execute_view_v1 ::
  "('w, 'c, 'm, 'v) runtime \<Rightarrow> ('w, 'c, command_receipt_v1) execution_state \<Rightarrow> public_address \<Rightarrow>
   string \<Rightarrow> bytes list option \<Rightarrow> (command_receipt_v1 \<times> transition_error option) option" where
  "execute_view_v1 R st target method args = do {
     (res, st) \<leftarrow> call R st True target method args None;
     let (exit_code, transition_error) = (case res of
           Inr _ \<Rightarrow> (Success_V1, None)
         | Inl e \<Rightarrow> (exit_code_v1_of e, Some e));
     let ((gas_used, command_output, _), _) = complete_cmd_execution (ctx st);
     Some (\<lparr>r1_exit_code = exit_code, r1_gas_used = gas_used,
            r1_return_values = co_return_value command_output, r1_logs = co_logs command_output\<rparr>,
           transition_error)
   }"

definition execute_view_v2 ::
  "('w, 'c, 'm, 'v) runtime \<Rightarrow> ('w, 'c, command_receipt_v2) execution_state \<Rightarrow> public_address \<Rightarrow>
   string \<Rightarrow> bytes list option \<Rightarrow> (command_receipt_v2 \<times> transition_error option) option" where
  "execute_view_v2 R st target method args = do {
     (res, st) \<leftarrow> call R st True target method args None;
     let (exit_code, transition_error) = (case res of
           Inr _ \<Rightarrow> (Ok_V2, None)
         | Inl e \<Rightarrow> (exit_code_v2_of e, Some e));
     let ((gas_used, command_output, _), _) = complete_cmd_execution (ctx st);
     Some (R_Call exit_code gas_used (co_logs command_output) (co_return_value command_output),
           transition_error)
   }"

end
