(* ===== verification/Transition.thy ===== *)
theory Transition
  imports Next_Epoch
begin

text \<open>
  The entry points of the runtime, \<^verbatim>\<open>src/transition.rs\<close>: an instance holds the smart contract cache and
  the memory limit and offers the transition of both transaction versions, the view calls, and
  the next epoch transaction that upgrades the world state to its second version. The upgrade
  itself belongs to \<^verbatim>\<open>pchain_world_state\<close> and is a parameter.
\<close>

section \<open>Instances\<close>

record 'c pchain_runtime =
  rn_sc_context :: "'c smart_contract_context"

definition runtime_new :: "'c pchain_runtime" where
  "runtime_new = \<lparr>rn_sc_context = sc_default\<rparr>"

definition set_smart_contract_cache :: "'c pchain_runtime \<Rightarrow> 'c \<Rightarrow> 'c pchain_runtime" where
  "set_smart_contract_cache self c =
     self\<lparr>rn_sc_context := (rn_sc_context self)\<lparr>sc_cache := Some c\<rparr>\<rparr>"

definition set_smart_contract_memory_limit :: "'c pchain_runtime \<Rightarrow> usize \<Rightarrow> 'c pchain_runtime" where
  "set_smart_contract_memory_limit self limit =
     self\<lparr>rn_sc_context := (rn_sc_context self)\<lparr>sc_memory_limit := Some limit\<rparr>\<rparr>"

section \<open>Transitions\<close>

text \<open>The execution state in which a transaction or a view call starts.\<close>

definition initial_state ::
  "'c pchain_runtime \<Rightarrow> txn_version \<Rightarrow> 'w \<Rightarrow> txn_metadata \<Rightarrow> blockchain_params \<Rightarrow> u64 \<Rightarrow>
   ('w, 'c, 'e) execution_state" where
  "initial_state self ver w meta params limit =
     es_new meta params ((ctx_new ver w limit)\<lparr>sc_context := rn_sc_context self\<rparr>)"

definition transition_v1 ::
  "('w, 'c, 'm, 'v) runtime \<Rightarrow> 'c pchain_runtime \<Rightarrow> 'w \<Rightarrow> transaction \<Rightarrow> blockchain_params \<Rightarrow>
   ('w, receipt_v1) transition_result option" where
  "transition_v1 R self w tx params =
     (let meta = txn_metadata_from_v1 tx;
          commands = tx_commands tx;
          st = initial_state self (version meta) w meta params (tx_gas_limit tx)
      in if list_ex (\<lambda>c. c = NextEpoch) commands then execute_next_epoch_v1 R st commands
         else execute_commands_v1 R st commands)"

definition transition_v2 ::
  "('w, 'c, 'm, 'v) runtime \<Rightarrow> 'c pchain_runtime \<Rightarrow> 'w \<Rightarrow> transaction \<Rightarrow> blockchain_params \<Rightarrow>
   ('w, receipt_v2) transition_result option" where
  "transition_v2 R self w tx params =
     (let meta = txn_metadata_from_v2 tx;
          commands = tx_commands tx;
          st = initial_state self (version meta) w meta params (tx_gas_limit tx)
      in if list_ex (\<lambda>c. c = NextEpoch) commands then execute_next_epoch_v2 R st commands
         else execute_commands_v2 R st commands)"

text \<open>The \<^verbatim>\<open>Default\<close> values that a view call runs under.\<close>

definition txn_metadata_default :: txn_metadata where
  "txn_metadata_default =
     \<lparr>version = V1, command_kinds = [], signer = 0, txn_hash = 0, nonce = 0, gas_limit = 0,
      priority_fee_per_gas = 0, txn_size = 0\<rparr>"

definition blockchain_params_default :: blockchain_params where
  "blockchain_params_default =
     \<lparr>this_block_number = 0, prev_block_hash = 0, this_base_fee = 0, bp_timestamp = 0,
      random_bytes = 0, proposer_address = 0, treasury_address = 0, cur_view = 0,
      bp_validator_performance = None\<rparr>"

definition view_v1 ::
  "('w, 'c, 'm, 'v) runtime \<Rightarrow> 'c pchain_runtime \<Rightarrow> 'w \<Rightarrow> u64 \<Rightarrow> public_address \<Rightarrow> string \<Rightarrow>
   bytes list option \<Rightarrow> (command_receipt_v1 \<times> transition_error option) option" where
  "view_v1 R self w limit target method args =
     execute_view_v1 R
       (initial_state self V1 w (txn_metadata_default\<lparr>gas_limit := limit\<rparr>) blockchain_params_default limit)
       target method args"

definition view_v2 ::
  "('w, 'c, 'm, 'v) runtime \<Rightarrow> 'c pchain_runtime \<Rightarrow> 'w \<Rightarrow> u64 \<Rightarrow> public_address \<Rightarrow> string \<Rightarrow>
   bytes list option \<Rightarrow> (command_receipt_v2 \<times> transition_error option) option" where
  "view_v2 R self w limit target method args =
     execute_view_v2 R
       (initial_state self V1 w (txn_metadata_default\<lparr>gas_limit := limit\<rparr>) blockchain_params_default limit)
       target method args"

section \<open>The upgrade of the world state\<close>

record 'u transition_v1_to_v2_result =
  up_new_state :: "'u option"
  up_receipt :: "receipt_v1 option"
  up_error :: "transition_error option"
  up_validator_changes :: "validator_changes option"

text \<open>\<open>upgrade\<close> is \<^verbatim>\<open>WorldState::upgrade\<close>, \<open>None\<close> for \<^verbatim>\<open>Err\<close>.\<close>

definition transition_v1_to_v2 ::
  "('w, 'c, 'm, 'v) runtime \<Rightarrow> ('w \<Rightarrow> 'u option) \<Rightarrow> 'c pchain_runtime \<Rightarrow> 'w \<Rightarrow> transaction \<Rightarrow>
   blockchain_params \<Rightarrow> 'u transition_v1_to_v2_result option" where
  "transition_v1_to_v2 R upgrade self w tx params = do {
     let meta = txn_metadata_from_v1 tx;
     let commands = tx_commands tx;
     let st = initial_state self (version meta) w meta params (tx_gas_limit tx);
     res \<leftarrow> execute_next_epoch_v1 R st commands;
     if tr_error res \<noteq> None then
       Some \<lparr>up_new_state = None, up_receipt = None, up_error = tr_error res,
             up_validator_changes = None\<rparr>
     else
       Some (case upgrade (new_state res) of
               Some u \<Rightarrow> \<lparr>up_new_state = Some u, up_receipt = receipt res, up_error = None,
                          up_validator_changes = tr_validator_changes res\<rparr>
             | None \<Rightarrow> \<lparr>up_new_state = None, up_receipt = None,
                         up_error = Some FailedWorldStateUpgrade, up_validator_changes = None\<rparr>)
   }"

end
