(* ===== verification/Example_Transactions.thy ===== *)
theory Example_Transactions
  imports Transition
begin

text \<open>
  Transactions of the example runtime and what they evaluate to, for the witnesses of the
  transition properties: account 1 signs, pays a priority fee of one and has nonce zero.
\<close>

definition example_tx :: "command list \<Rightarrow> u64 \<Rightarrow> transaction" where
  "example_tx commands limit =
     \<lparr>tx_signer = 1, tx_nonce = 0, tx_commands = commands, tx_gas_limit = limit,
      tx_priority_fee_per_gas = 1, tx_hash = 0, tx_serialized_len = 200\<rparr>"

lemma example_tx_simps [simp]:
  "tx_commands (example_tx commands limit) = commands" "tx_gas_limit (example_tx commands limit) = limit"
  "tx_signer (example_tx commands limit) = 1"
  by (simp_all add: example_tx_def)

lemma example_metadata [simp]:
  "signer (txn_metadata_of ver (example_tx commands limit)) = 1"
  "gas_limit (txn_metadata_of ver (example_tx commands limit)) = limit"
  "nonce (txn_metadata_of ver (example_tx commands limit)) = 0"
  "priority_fee_per_gas (txn_metadata_of ver (example_tx commands limit)) = 1"
  by (simp_all add: example_tx_def txn_metadata_of_def)

lemmas phase_evals = execute_commands_def pre_charge_def pre_charge_amount_def
  charge_txn_pre_exec_inclusion_def tx_inclusion_cost_v1_def tx_inclusion_cost_v2_def
  minimum_receipt_size_v1_def minimum_receipt_size_v2_def rw_key_cost_value execute_loop_in_order
  handle_precharge_error_def handle_charge_def handle_abort_def execute_command_def charge_def
  wsc_purge_balance_def reward_consts checked_defs div_u_def

lemmas receipt_evals = finalize_receipt_def finalize_v1_def finalize_v2_def into_receipt_v1_def
  into_receipt_v2_def commit_to_world_state_def aggregate_storage_writes_def
  finalize_cmd_receipt_collect_deferred_def complete_cmd_execution_def take_current_command_result_def
  command_receipt_v1_of_def command_receipt_v2_of_def push_command_receipt_def
  oc_take_def take_or_default_def oc_default_def revert_changes_def wsc_revert_def cd_revert_def

lemmas transition_evals = transition_v1_def transition_v2_def execute_commands_v1_def
  execute_commands_v2_def example_tx_def txn_metadata_from_v1_def txn_metadata_from_v2_def
  txn_metadata_of_def initial_state_def runtime_new_def sc_default_def example_block_def es_cache_def
  set_es_cache_def set_gas_free_ws_cache_def gas_free_ws_cache_def
  phase_evals receipt_evals runtime_evals

text \<open>A transaction whose gas limit does not cover its inclusion.\<close>

lemma rejected_run:
  "\<exists>res. transition_v1 kv_runtime runtime_new example_world (example_tx [Transfer 2 10] 1000)
      example_block = Some res \<and> receipt res = None"
  by (simp add: transition_evals cong: eval_congs)

lemma rejected_pre_charge:
  "\<exists>e st0. pre_charge kv_runtime (initial_state runtime_new V2 example_world
      (txn_metadata_of V2 (example_tx [Transfer 2 10] 1000)) example_block 1000) =
      Some (Inl e, st0 :: (kv_world, dir, command_receipt_v2) execution_state)"
  by (simp add: transition_evals cong: eval_congs)

text \<open>A transaction whose second transfer is not covered, and one that succeeds.\<close>

lemma failed_run_v1:
  "\<exists>res rcps. transition_v1 kv_runtime runtime_new example_world
      (example_tx [Transfer 2 10, Transfer 2 2000000000] 500000) example_block = Some res \<and>
      receipt res = Some rcps \<and> tr_error res \<noteq> None"
  by (simp add: transition_evals transfer_def cong: eval_congs)

lemma failed_run_v2:
  "\<exists>res r. transition_v2 kv_runtime runtime_new example_world
      (example_tx [Transfer 2 10, Transfer 2 2000000000] 500000) example_block = Some res \<and>
      receipt res = Some r \<and> tr_error res \<noteq> None"
  by (simp add: transition_evals transfer_def cong: eval_congs)

lemma transfer_run_v1:
  "\<exists>res rcps. transition_v1 kv_runtime runtime_new example_world (example_tx [Transfer 2 10] 500000)
      example_block = Some res \<and> receipt res = Some rcps \<and> tr_error res = None"
  by (simp add: transition_evals transfer_def cong: eval_congs)

end
