(* ===== verification/Transition_Properties.thy ===== *)
theory Transition_Properties
  imports Example_Transactions
begin

text \<open>
  What a transition does to the world state, end to end: a transaction that is rejected changes
  nothing, one that fails pays its fees and nothing else, one that succeeds pays its fees on top of
  what its commands did; the receipts account for the gas; view calls change nothing.
\<close>

section \<open>The start of a run\<close>

lemma initial_state_simps [simp]:
  "txn_meta (initial_state self ver w meta params limit) = meta"
  "bd (initial_state self ver w meta params limit) = params"
  "receipt_buf (initial_state self ver w meta params limit) = []"
  "es_cache (initial_state self ver w meta params limit) = wsc_new w"
  "deferred_commands (ctx (initial_state self ver w meta params limit)) = []"
  "es_gm (initial_state self ver w meta params limit) = gm_new ver (wsc_new w) limit"
  by (simp_all add: initial_state_def es_new_def ctx_new_def es_cache_def es_gm_def gas_free_ws_cache_def
      gm_new_def)

lemma set_es_cache_simps [simp]:
  "es_cache (set_es_cache st s) = s" "txn_meta (set_es_cache st s) = txn_meta st"
  "bd (set_es_cache st s) = bd st" "receipt_buf (set_es_cache st s) = receipt_buf st"
  "es_gm (set_es_cache st s) = (es_gm st)\<lparr>ws_cache := s\<rparr>"
  "deferred_commands (ctx (set_es_cache st s)) = deferred_commands (ctx st)"
  by (simp_all add: es_cache_def set_es_cache_def es_gm_def set_gas_free_ws_cache_def gas_free_ws_cache_def)

lemma wsc_new_ws [simp]: "ws (wsc_new w) = w" "(wsc_new w)\<lparr>ws := w'\<rparr> = wsc_new w'"
  by (simp_all add: wsc_new_def)

definition inclusion_cost :: "txn_metadata \<Rightarrow> u64" where
  "inclusion_cost meta = (case version meta of
       V1 \<Rightarrow> tx_inclusion_cost_v1 (txn_size meta) (command_kinds meta)
     | V2 \<Rightarrow> tx_inclusion_cost_v2 (txn_size meta) (command_kinds meta))"

text \<open>The balances after the pre-charge phase.\<close>

definition pre_charged ::
  "'w ws_ops \<Rightarrow> 'w \<Rightarrow> txn_metadata \<Rightarrow> blockchain_params \<Rightarrow> public_address \<Rightarrow> u64 option" where
  "pre_charged W w meta params =
     (at_balance W w)(signer meta := map_option (\<lambda>b. b -
        gas_limit meta * (this_base_fee params + priority_fee_per_gas meta)) (at_balance W w (signer meta)))"

lemma pre_charge_start:
  assumes "pre_charge R (initial_state self ver w meta params (gas_limit meta)) = Some (Ok, st0)"
    and "ws_laws (rt_ws R)" "gas_limit meta \<le> U64_MAX"
  obtains w0 b where "es_cache st0 = wsc_new w0" "txn_meta st0 = meta" "bd st0 = params"
    "receipt_buf st0 = []" "run_state (rt_ws R) gas_of st0 st0" "gm_gas_limit (es_gm st0) = gas_limit meta"
    "gas_used_for_txn_inclusion (es_gm st0) = inclusion_cost meta"
    "at_balance (rt_ws R) w0 = pre_charged (rt_ws R) w meta params"
    "at_nonce (rt_ws R) w0 = at_nonce (rt_ws R) w" "at_cbi_version (rt_ws R) w0 = at_cbi_version (rt_ws R) w"
    "at_code (rt_ws R) w0 = at_code (rt_ws R) w" "st_get (rt_ws R) w0 = st_get (rt_ws R) w"
    "at_nonce (rt_ws R) w (signer meta) = Some (nonce meta)"
    "at_balance (rt_ws R) w (signer meta) = Some b"
    "gas_limit meta * (this_base_fee params + priority_fee_per_gas meta) \<le> b"
  using assms(1)
proof (rule pre_charge_ok)
  let ?st = "initial_state self ver w meta params (gas_limit meta)"
  fix amount b w0 g
  assume inc: "charge_txn_pre_exec_inclusion (es_gm ?st) (version (txn_meta ?st)) (txn_size (txn_meta ?st))
      (command_kinds (txn_meta ?st)) = (Ok, g)"
    and amount: "pre_charge_amount ?st = Some amount" "amount \<le> b"
    and world: "at_nonce (rt_ws R) (ws (es_cache ?st)) (signer (txn_meta ?st)) = Some (nonce (txn_meta ?st))"
      "at_balance (rt_ws R) (ws (es_cache ?st)) (signer (txn_meta ?st)) = Some b"
      "at_set_balance (rt_ws R) (ws (es_cache ?st)) (signer (txn_meta ?st)) (b - amount) = Some w0"
    and st0: "st0 = set_es_cache (set_es_gm ?st g) ((es_cache ?st)\<lparr>ws := w0\<rparr>)"
  have g: "gm_within_limit g" "gm_gas_limit g = gas_limit meta" "gas_used_for_executed_commands g = 0"
    "gas_used_for_txn_inclusion g = inclusion_cost meta"
    using charge_pre_exec_limit[OF inc] inc assms(3)
    by (auto simp: gm_new_def charge_txn_pre_exec_inclusion_def Let_def inclusion_cost_def
        split: if_split_asm txn_version.splits)
  have cache: "es_cache st0 = wsc_new w0"
    by (simp add: st0)
  have gm: "es_gm st0 = g\<lparr>ws_cache := wsc_new w0\<rparr>"
    by (simp add: st0) (simp add: es_gm_def set_es_gm_def)
  have am: "amount = gas_limit meta * (this_base_fee params + priority_fee_per_gas meta)"
    using amount(1) by (auto simp: pre_charge_amount_def bind_convs checked_Some)
  have other: "txn_meta st0 = meta" "bd st0 = params" "receipt_buf st0 = []" "deferred_commands (ctx st0) = []"
    by (simp_all add: st0 set_es_gm_def)
  have run: "run_state (rt_ws R) gas_of st0 st0"
    using g other by (simp add: run_state_def cache gm gm_within_limit_def)
  note laws = ws_laws_balance[OF assms(2) world(3)]
  show thesis
    using that[OF cache other(1-3) run] g(2,4) laws world(1,2) amount(2)
    by (simp add: gm am pre_charged_def)
qed

lemma execute_commands_cases:
  assumes "execute_commands R F st commands = Some res"
  obtains (rejected) e st0 where "pre_charge R st = Some (Inl e, st0)" "handle_precharge_error R F st0 e = Some res"
    | (run) st0 where "pre_charge R st = Some (Ok, st0)"
        "execute_loop R F (executable_commands_new commands) 0 st0 = Some res"
proof -
  obtain r st0 where pre: "pre_charge R st = Some (r, st0)"
    using assms by (auto simp: execute_commands_def bind_convs)
  then show thesis
    using assms rejected run by (cases r) (auto simp: execute_commands_def)
qed

lemma precharge_error_result:
  assumes "handle_precharge_error R F st e = Some res"
  shows "receipt res = None" "tr_error res = Some e" "tr_validator_changes res = None"
    "commit_to_world_state (rt_ws R) (es_cache st) = Some (new_state res)"
  using assms by (auto simp: handle_precharge_error_def finalize_receipt_def Let_def bind_convs)

section \<open>The end of a run\<close>

text \<open>The world state that a transition leaves, read against the last cache and the settlement.\<close>

definition world_reads ::
  "'w ws_ops \<Rightarrow> 'w \<Rightarrow> (public_address \<Rightarrow> u64 option) \<Rightarrow> (public_address \<Rightarrow> u64 option) \<Rightarrow>
   'w world_state_cache \<Rightarrow> bool" where
  "world_reads W w' bals nonces s \<longleftrightarrow>
     at_balance W w' = bals \<and> at_nonce W w' = nonces \<and>
     at_cbi_version W w' = wsc_cbi_view W s \<and> at_code W w' = wsc_code_view W s \<and>
     (\<forall>a k. live (st_get W w' a k) = live (wsc_storage_view W s (a, k)))"

lemma commit_reads:
  assumes "ws_laws W" "wsc_writes_distinct s'" "commit_to_world_state W s' = Some w'" "same_contents W s s'"
  shows "world_reads W w' (wsc_balance_view W s') (at_nonce W (ws s')) s"
  using commit_balance[OF assms(1-3)] commit_nonce[OF assms(1,3)] commit_cbi_version[OF assms(1-3)]
    commit_code[OF assms(1-3)] commit_storage_data[OF assms(1-3)] assms(4)
  by (simp add: world_reads_def fun_eq_iff same_contents_def)

lemma clean_views:
  assumes "wsc_clean s"
  shows "wsc_balance_view W s = at_balance W (ws s)" "wsc_cbi_view W s = at_cbi_version W (ws s)"
    "wsc_code_view W s = at_code W (ws s)" "wsc_storage_view W s (a, k) = st_get W (ws s) a k"
  using assms by (auto simp: wsc_clean_def wsc_views cd_view_def wsc_storage_base_def fun_eq_iff)

text \<open>The nonces after the charge phase.\<close>

definition bumped :: "'w ws_ops \<Rightarrow> 'w \<Rightarrow> txn_metadata \<Rightarrow> public_address \<Rightarrow> u64 option" where
  "bumped W w meta = (at_nonce W w)(signer meta := Some (saturating_add (nonce meta) 1))"

text \<open>Settling and committing: the charge phase and the final receipt.\<close>

lemma settlement:
  assumes "charge R st = Some st'" "finalize_receipt R F st' = Some (w', r)" "ws_laws (rt_ws R)"
    and "wsc_inv (rt_ws R) (es_cache st)" "g = total_gas_used_for_executed_commands (es_gm st)"
    and "g \<le> gas_limit (txn_meta st)" "at_nonce (rt_ws R) (ws (es_cache st)) (signer (txn_meta st)) = Some (nonce (txn_meta st))"
  shows "world_reads (rt_ws R) w' (settle (txn_meta st) (bd st) g (wsc_balance_view (rt_ws R) (es_cache st)))
      (bumped (rt_ws R) (ws (es_cache st)) (txn_meta st)) (es_cache st)"
    and "f_into_receipt F (receipt_buf st) g (command_kinds (txn_meta st)) = Some r"
proof -
  have gc: "gas_charged st = g"
    using assms(5,6) by (simp add: gas_charged_def min_def)
  note eff = charge_effect[OF assms(1,3,4)]
  have "total_gas_used_for_executed_commands (es_gm st') = g" "receipt_buf st' = receipt_buf st"
      "txn_meta st' = txn_meta st"
    using assms(5) by (subst eff(5), simp add: total_gas_used_for_executed_commands_def)+
  then have com: "commit_to_world_state (rt_ws R) (es_cache st') = Some w'"
    and into: "f_into_receipt F (receipt_buf st) g (command_kinds (txn_meta st)) = Some r"
    using assms(2) by (auto simp: finalize_receipt_def Let_def bind_convs)
  show "f_into_receipt F (receipt_buf st) g (command_kinds (txn_meta st)) = Some r"
    by (rule into)
  show "world_reads (rt_ws R) w' (settle (txn_meta st) (bd st) g (wsc_balance_view (rt_ws R) (es_cache st)))
      (bumped (rt_ws R) (ws (es_cache st)) (txn_meta st)) (es_cache st)"
    using commit_reads[OF assms(3) eff(4) com eff(3)] eff(1,2) gc assms(7) by (simp add: bumped_def)
qed

context receipt_version
begin

text \<open>Every transaction that yields a receipt ran from its pre-charge to its settlement.\<close>

lemma transaction_outcome:
  fixes R :: "('w, 'c, 'm, 'v) runtime" and self :: "'c pchain_runtime"
  assumes "execute_commands R F (initial_state self ver w meta params (gas_limit meta)) commands = Some res"
    and "ws_laws (rt_ws R)" "gas_limit meta \<le> U64_MAX" "receipt res \<noteq> None"
  obtains st0 st :: "('w, 'c, 'e) execution_state" and r g b where
    "g = total_gas_used_for_executed_commands (es_gm st)" "g \<le> gas_limit meta"
    "g = inclusion_cost meta + (\<Sum>c\<leftarrow>receipt_buf st. gas_of c)"
    "world_reads (rt_ws R) (new_state res)
       (settle meta params g (wsc_balance_view (rt_ws R) (es_cache st))) (bumped (rt_ws R) w meta) (es_cache st)"
    "f_into_receipt F (receipt_buf st) g (command_kinds meta) = Some r" "receipt res = Some r"
    "tr_validator_changes res = None"
    "length (receipt_buf st) \<le> length commands"
    "map kind_of (receipt_buf st) = take (length (receipt_buf st)) (map (\<lambda>c. tag (command_kind_of c)) commands)"
    "pre_charge R (initial_state self ver w meta params (gas_limit meta)) = Some (Ok, st0)"
    "tr_error res = None \<longrightarrow> length (receipt_buf st) = length commands \<and> list_all ok_of (receipt_buf st) \<and>
       loop_steps R F (executable_commands_new commands, 0, st0) ([], length commands, st)"
    "tr_error res \<noteq> None \<longrightarrow>
       (\<exists>buf r. receipt_buf st = buf @ [r] \<and> list_all ok_of buf \<and> \<not> ok_of r) \<and>
       wsc_balance_view (rt_ws R) (es_cache st) = pre_charged (rt_ws R) w meta params \<and>
       wsc_cbi_view (rt_ws R) (es_cache st) = at_cbi_version (rt_ws R) w \<and>
       wsc_code_view (rt_ws R) (es_cache st) = at_code (rt_ws R) w \<and>
       (\<forall>a k. wsc_storage_view (rt_ws R) (es_cache st) (a, k) = st_get (rt_ws R) w a k)"
    "at_balance (rt_ws R) w (signer meta) = Some b"
    "gas_limit meta * (this_base_fee params + priority_fee_per_gas meta) \<le> b"
proof -
  let ?W = "rt_ws R"
  obtain st0 where pre: "pre_charge R (initial_state self ver w meta params (gas_limit meta)) = Some (Ok, st0)"
    and loop: "execute_loop R F (executable_commands_new commands) 0 st0 = Some res"
    using assms(1,4) by (cases rule: execute_commands_cases) (auto dest: precharge_error_result(1))
  from pre assms(2,3) obtain w0 b where s0: "es_cache st0 = wsc_new w0" "txn_meta st0 = meta" "bd st0 = params"
    "receipt_buf st0 = []" "run_state ?W gas_of st0 st0" "gm_gas_limit (es_gm st0) = gas_limit meta"
    "gas_used_for_txn_inclusion (es_gm st0) = inclusion_cost meta"
    and w0: "at_balance ?W w0 = pre_charged ?W w meta params" "at_nonce ?W w0 = at_nonce ?W w"
      "at_cbi_version ?W w0 = at_cbi_version ?W w" "at_code ?W w0 = at_code ?W w" "st_get ?W w0 = st_get ?W w"
      "at_nonce ?W w (signer meta) = Some (nonce meta)"
    and b: "at_balance ?W w (signer meta) = Some b"
      "gas_limit meta * (this_base_fee params + priority_fee_per_gas meta) \<le> b"
    by (rule pre_charge_start)
  from loop s0(5,4) obtain st st' w' r where run: "run_state ?W gas_of st0 st"
    and ch: "charge R st = Some st'" and fin: "finalize_receipt R F st' = Some (w', r)"
    and res: "new_state res = w'" "receipt res = Some r" "tr_validator_changes res = None"
    and buf: "length (receipt_buf st) \<le> length commands"
      "map kind_of (receipt_buf st) = take (length (receipt_buf st)) (map (\<lambda>c. tag (command_kind_of c)) commands)"
      "tr_error res = None \<longrightarrow> length (receipt_buf st) = length commands \<and> list_all ok_of (receipt_buf st) \<and>
         loop_steps R F (executable_commands_new commands, 0, st0) ([], length commands, st)"
      "tr_error res \<noteq> None \<longrightarrow> wsc_clean (es_cache st) \<and>
         (\<exists>buf r. receipt_buf st = buf @ [r] \<and> list_all ok_of buf \<and> \<not> ok_of r)"
    by (rule loop_result)
  define g where "g = total_gas_used_for_executed_commands (es_gm st)"
  have same: "txn_meta st = meta" "bd st = params" "ws (es_cache st) = w0" "wsc_inv ?W (es_cache st)"
    "gm_within_limit (es_gm st)" "gm_gas_limit (es_gm st) = gas_limit meta"
    "gas_used_for_executed_commands (es_gm st) = (\<Sum>c\<leftarrow>receipt_buf st. gas_of c)"
    "gas_used_for_txn_inclusion (es_gm st) = inclusion_cost meta"
    using run s0 by (simp_all add: run_state_def)
  have g: "g \<le> gas_limit meta" "g = inclusion_cost meta + (\<Sum>c\<leftarrow>receipt_buf st. gas_of c)"
    using executed_le_limit[OF same(5)] executed_exact[OF same(5)] same(6-8) by (simp_all add: g_def)
  have "g \<le> gas_limit (txn_meta st)" "at_nonce ?W (ws (es_cache st)) (signer (txn_meta st)) = Some (nonce (txn_meta st))"
    using g(1) same(1,3) w0(2,6) by simp_all
  note fin_end = settlement[OF ch fin assms(2) same(4) g_def this, unfolded same(1-3)]
  have reads: "world_reads ?W (new_state res)
       (settle meta params g (wsc_balance_view ?W (es_cache st))) (bumped ?W w meta) (es_cache st)"
    using fin_end(1) w0(2) res(1) by (simp add: bumped_def)
  have clean: "tr_error res \<noteq> None \<longrightarrow>
       (\<exists>buf r. receipt_buf st = buf @ [r] \<and> list_all ok_of buf \<and> \<not> ok_of r) \<and>
       wsc_balance_view ?W (es_cache st) = pre_charged ?W w meta params \<and>
       wsc_cbi_view ?W (es_cache st) = at_cbi_version ?W w \<and>
       wsc_code_view ?W (es_cache st) = at_code ?W w \<and>
       (\<forall>a k. wsc_storage_view ?W (es_cache st) (a, k) = st_get ?W w a k)"
    using buf(4) clean_views[of "es_cache st" ?W] same(3) w0(1,3-5) by simp
  show thesis
    by (rule that[OF g_def g reads fin_end(2) res(2,3) buf(1,2) pre buf(3) clean b])
qed

end

section \<open>Transactions that are rejected\<close>

lemma loop_receipt: "execute_loop R F stack i st = Some res \<Longrightarrow> receipt res \<noteq> None"
  using loop_outcome[of R F stack i st res]
  by (auto simp: loop_ends_def handle_charge_def handle_abort_def bind_convs)

lemma transition_sends:
  assumes "NextEpoch \<notin> set (tx_commands tx)"
  shows "transition_v1 R self w tx params = execute_commands R finalize_v1
      (initial_state self V1 w (txn_metadata_of V1 tx) params (gas_limit (txn_metadata_of V1 tx))) (tx_commands tx)"
    and "transition_v2 R self w tx params = execute_commands R finalize_v2
      (initial_state self V2 w (txn_metadata_of V2 tx) params (gas_limit (txn_metadata_of V2 tx))) (tx_commands tx)"
  using assms
  by (auto simp: transition_v1_def transition_v2_def execute_commands_v1_def execute_commands_v2_def Let_def
      txn_metadata_from_v1_def txn_metadata_from_v2_def txn_metadata_of_def list_ex_iff)

text \<open>Without a receipt nothing ran, and nothing changed.\<close>

lemma rejected_unchanged:
  assumes "execute_commands R F (initial_state self ver w meta params limit) commands = Some res" "receipt res = None"
  shows "new_state res = w \<and> tr_validator_changes res = None \<and>
    tr_error res \<in> Some ` {PreExecutionGasExhausted, WrongNonce, NotEnoughBalanceForGasLimit}"
  using assms(1)
proof (cases rule: execute_commands_cases)
  case (rejected e st0)
  note err = pre_charge_err[OF rejected(1)]
  note res = precharge_error_result[OF rejected(2)]
  have "commit_to_world_state (rt_ws R) (es_cache st0) = Some w"
    using err(1) by (simp add: commit_clean)
  then show ?thesis
    using err(5) res by auto
next
  case (run st0)
  then show ?thesis
    using loop_receipt[OF run(2)] assms(2) by simp
qed

text \<open>C9: A version 1 transaction without next epoch that has no receipt was rejected before its first command, for its
  nonce, its gas limit or its signer's balance, and leaves the world state exactly as it was.\<close>

theorem rejected_transaction_v1:
  assumes "transition_v1 R self w tx params = Some res" and "NextEpoch \<notin> set (tx_commands tx)"
    and "receipt res = None"
  shows "new_state res = w \<and> tr_validator_changes res = None \<and>
    tr_error res \<in> Some ` {PreExecutionGasExhausted, WrongNonce, NotEnoughBalanceForGasLimit}"
  by (rule rejected_unchanged[OF assms(1)[unfolded transition_sends(1)[OF assms(2)]] assms(3)])

theorem rejected_transaction_v1_witness:
  "\<exists>res. transition_v1 kv_runtime runtime_new example_world (example_tx [Transfer 2 10] 1000)
      example_block = Some res \<and> receipt res = None \<and> new_state res = example_world"
proof -
  obtain res where run: "transition_v1 kv_runtime runtime_new example_world (example_tx [Transfer 2 10] 1000)
      example_block = Some res" "receipt res = None"
    using rejected_run by blast
  then show ?thesis
    using rejected_transaction_v1[OF run(1) _ run(2)] by simp
qed

text \<open>C35: A version 2 transaction without next epoch, with at least one command, that fails the pre-charge phase is not
  rejected but panics: finishing its receipt takes the last of no command receipts.\<close>

theorem rejected_transaction_v2_panics:
  fixes R :: "('w, 'c, 'm, 'v) runtime" and st0 :: "('w, 'c, command_receipt_v2) execution_state"
  assumes "pre_charge R (initial_state self V2 w (txn_metadata_of V2 tx) params (tx_gas_limit tx)) = Some (Inl e, st0)"
    and "NextEpoch \<notin> set (tx_commands tx)" and "tx_commands tx \<noteq> []"
  shows "transition_v2 R self w tx params = None"
proof -
  note err = pre_charge_err[OF assms(1)]
  have "f_into_receipt finalize_v2 (receipt_buf st0) g (command_kinds (txn_meta st0)) = None" for g
    using err(2,4) assms(3) by (simp add: finalize_v2_def into_receipt_v2_panics txn_metadata_of_def)
  then show ?thesis
    using assms(1) unfolding transition_sends(2)[OF assms(2)]
    by (auto simp: execute_commands_def handle_precharge_error_def finalize_receipt_def Let_def
        bind_convs txn_metadata_of_def)
qed

theorem rejected_transaction_v2_panics_witness:
  "transition_v2 kv_runtime runtime_new example_world (example_tx [Transfer 2 10] 1000) example_block = None"
proof -
  obtain e and st0 :: "(kv_world, dir, command_receipt_v2) execution_state" where
    "pre_charge kv_runtime (initial_state runtime_new V2 example_world
      (txn_metadata_of V2 (example_tx [Transfer 2 10] 1000)) example_block 1000) = Some (Inl e, st0)"
    using rejected_pre_charge by blast
  then show ?thesis
    using rejected_transaction_v2_panics[of kv_runtime runtime_new example_world "example_tx [Transfer 2 10] 1000"
        example_block e st0] by simp
qed

section \<open>Transactions that fail\<close>

text \<open>Nothing but the settlement of the gas and the nonce separates the two world states.\<close>

definition only_fees ::
  "'w ws_ops \<Rightarrow> 'w \<Rightarrow> txn_metadata \<Rightarrow> blockchain_params \<Rightarrow> u64 \<Rightarrow> 'w \<Rightarrow> bool" where
  "only_fees W w meta params g w' \<longleftrightarrow>
     g \<le> gas_limit meta \<and>
     at_balance W w' = settle meta params g (pre_charged W w meta params) \<and>
     at_nonce W w' = bumped W w meta \<and>
     at_cbi_version W w' = at_cbi_version W w \<and> at_code W w' = at_code W w \<and>
     (\<forall>a k. live (st_get W w' a k) = live (st_get W w a k))"

text \<open>C6: A version 1 transaction without next epoch that fails after some of its commands were run pays its fees and
  does nothing else: whatever the commands before the failing one did is undone, the signer pays
  for the gas of the receipts and of its inclusion, its nonce is used up, and the last receipt is
  the only one that reports a failure.\<close>

theorem failed_transaction_v1:
  assumes "transition_v1 R self w tx params = Some res" and "NextEpoch \<notin> set (tx_commands tx)"
    and "tr_error res \<noteq> None" and "receipt res = Some rcps" and "ws_laws (rt_ws R)"
    and "tx_gas_limit tx \<le> U64_MAX"
  shows "only_fees (rt_ws R) w (txn_metadata_of V1 tx) params
      (inclusion_cost (txn_metadata_of V1 tx) + (\<Sum>c\<leftarrow>rcps. r1_gas_used c)) (new_state res) \<and>
    (\<exists>done r. rcps = done @ [r] \<and> list_all succeeded_v1 done \<and> \<not> succeeded_v1 r)"
proof -
  have lim: "gas_limit (txn_metadata_of V1 tx) \<le> U64_MAX" and rc: "receipt res \<noteq> None"
    using assms(4,6) by (simp_all add: txn_metadata_of_def)
  from assms(1)[unfolded transition_sends(1)[OF assms(2)]] assms(5) lim rc show ?thesis
    by (rule v1.transaction_outcome)
      (use assms(3,4) in \<open>auto simp: only_fees_def world_reads_def finalize_v1_def into_receipt_v1_def\<close>)
qed

theorem failed_transaction_v1_witness:
  "\<exists>res rcps. transition_v1 kv_runtime runtime_new example_world
      (example_tx [Transfer 2 10, Transfer 2 2000000000] 500000) example_block = Some res \<and>
      receipt res = Some rcps \<and> at_balance kv_ops (new_state res) 4 = Some 0 \<and>
      at_nonce kv_ops (new_state res) 1 = Some 1"
proof -
  let ?tx = "example_tx [Transfer 2 10, Transfer 2 2000000000] 500000"
  obtain res rcps where run: "transition_v1 kv_runtime runtime_new example_world ?tx example_block = Some res"
    "tr_error res \<noteq> None" "receipt res = Some rcps"
    using failed_run_v1 by blast
  then have "only_fees kv_ops example_world (txn_metadata_of V1 ?tx) example_block
      (inclusion_cost (txn_metadata_of V1 ?tx) + (\<Sum>c\<leftarrow>rcps. r1_gas_used c)) (new_state res)"
    using failed_transaction_v1[OF run(1) _ run(2,3)] by (simp add: kv_ops_laws U64_MAX_def)
  then have "at_balance kv_ops (new_state res) 4 = Some 0" "at_nonce kv_ops (new_state res) 1 = Some 1"
    by (simp_all add: only_fees_def settle_def Let_def credit_def pre_charged_def bumped_def
        kv_world_evals example_world_def example_block_def saturating_add_def U64_MAX_def)
  with run show ?thesis
    by blast
qed

text \<open>The version 2 receipt of a transaction, against the buffer it was made of.\<close>

lemma into_receipt_v2_fields:
  assumes "into_receipt_v2 buf g ks = Some r" "map receipt_kind buf = take (length buf) ks" "length buf \<le> length ks"
  shows "r2_gas_used r = g" "map receipt_kind (r2_command_receipts r) = ks"
    "(\<Sum>c\<leftarrow>r2_command_receipts r. gas_used_of_v2 c) = (\<Sum>c\<leftarrow>buf. gas_used_of_v2 c)"
    "r2_exit_code r = (if buf = [] then Ok_V2 else snd (gas_used_and_exit_code_v2 (last buf)))"
  using assms
  by (auto simp: into_receipt_v2_def Let_def comp_def gas_used_of_v2_def append_take_drop_id split: if_splits)

text \<open>C10: A version 2 receipt of a transaction without next epoch accounts for it. It has one command receipt of the right
  kind for every command, executed or not; its gas is that of the inclusion and of all command
  receipts, and is within the gas limit; and its exit code is a success exactly when the transition
  reports no error.\<close>

theorem receipt_v2_accounts:
  assumes "transition_v2 R self w tx params = Some res" and "NextEpoch \<notin> set (tx_commands tx)"
    and "receipt res = Some r" and "ws_laws (rt_ws R)" and "tx_gas_limit tx \<le> U64_MAX"
  shows "map receipt_kind (r2_command_receipts r) = map command_kind_of (tx_commands tx) \<and>
    r2_gas_used r = inclusion_cost (txn_metadata_of V2 tx) +
      (\<Sum>c\<leftarrow>r2_command_receipts r. gas_used_of_v2 c) \<and>
    r2_gas_used r \<le> tx_gas_limit tx \<and> (r2_exit_code r = Ok_V2 \<longleftrightarrow> tr_error res = None)"
proof -
  let ?meta = "txn_metadata_of V2 tx"
  have meta: "gas_limit ?meta = tx_gas_limit tx" "command_kinds ?meta = map command_kind_of (tx_commands tx)"
    by (simp_all add: txn_metadata_of_def)
  from assms(1)[unfolded transition_sends(2)[OF assms(2)]] assms(4)
  show ?thesis
  proof (rule v2.transaction_outcome)
    show "gas_limit ?meta \<le> U64_MAX" "receipt res \<noteq> None"
      using assms(3,5) meta by simp_all
    fix st0 st :: "('a, 'b, command_receipt_v2) execution_state" and g b r'
    assume g: "g \<le> gas_limit ?meta" "g = inclusion_cost ?meta + (\<Sum>c\<leftarrow>receipt_buf st. gas_used_of_v2 c)"
      and into: "f_into_receipt finalize_v2 (receipt_buf st) g (command_kinds ?meta) = Some r'" "receipt res = Some r'"
      and kinds: "length (receipt_buf st) \<le> length (tx_commands tx)"
        "map receipt_kind (receipt_buf st) = take (length (receipt_buf st)) (map command_kind_of (tx_commands tx))"
      and ok: "tr_error res = None \<longrightarrow> length (receipt_buf st) = length (tx_commands tx) \<and>
         list_all succeeded_v2 (receipt_buf st) \<and>
         loop_steps R finalize_v2 (executable_commands_new (tx_commands tx), 0, st0) ([], length (tx_commands tx), st)"
      and fail: "tr_error res \<noteq> None \<longrightarrow>
         (\<exists>buf r. receipt_buf st = buf @ [r] \<and> list_all succeeded_v2 buf \<and> \<not> succeeded_v2 r) \<and>
         wsc_balance_view (rt_ws R) (es_cache st) = pre_charged (rt_ws R) w ?meta params \<and>
         wsc_cbi_view (rt_ws R) (es_cache st) = at_cbi_version (rt_ws R) w \<and>
         wsc_code_view (rt_ws R) (es_cache st) = at_code (rt_ws R) w \<and>
         (\<forall>a k. wsc_storage_view (rt_ws R) (es_cache st) (a, k) = st_get (rt_ws R) w a k)"
    have "into_receipt_v2 (receipt_buf st) g (map command_kind_of (tx_commands tx)) = Some r"
      using into assms(3) meta(2) by (simp add: finalize_v2_def)
    note f = into_receipt_v2_fields[OF this kinds(2)]
    have "r2_exit_code r = Ok_V2 \<longleftrightarrow> tr_error res = None"
      using f(4) kinds(1) ok fail
      by (cases "tr_error res"; cases "receipt_buf st" rule: rev_cases) (auto simp: succeeded_v2_def)
    then show ?thesis
      using f(1-3) kinds(1) g meta(1) by simp
  qed
qed

theorem receipt_v2_accounts_witness:
  "\<exists>res r. transition_v2 kv_runtime runtime_new example_world
      (example_tx [Transfer 2 10, Transfer 2 2000000000] 500000) example_block = Some res \<and>
      receipt res = Some r \<and> map receipt_kind (r2_command_receipts r) = [KTransfer, KTransfer] \<and>
      r2_gas_used r \<le> 500000 \<and> r2_exit_code r \<noteq> Ok_V2"
proof -
  let ?tx = "example_tx [Transfer 2 10, Transfer 2 2000000000] 500000"
  obtain res r where run: "transition_v2 kv_runtime runtime_new example_world ?tx example_block = Some res"
    "receipt res = Some r" "tr_error res \<noteq> None"
    using failed_run_v2 by blast
  then show ?thesis
    using receipt_v2_accounts[OF run(1) _ run(2)] by (auto simp: kv_ops_laws U64_MAX_def)
qed

text \<open>C7: A version 2 transaction without next epoch that fails after the pre-charge phase pays exactly for the gas its
  receipt reports and does nothing else.\<close>

theorem failed_transaction_v2:
  assumes "transition_v2 R self w tx params = Some res" and "NextEpoch \<notin> set (tx_commands tx)"
    and "tr_error res \<noteq> None" and "receipt res = Some r" and "ws_laws (rt_ws R)"
    and "tx_gas_limit tx \<le> U64_MAX"
  shows "only_fees (rt_ws R) w (txn_metadata_of V2 tx) params (r2_gas_used r) (new_state res)"
proof -
  have lim: "gas_limit (txn_metadata_of V2 tx) \<le> U64_MAX" and rc: "receipt res \<noteq> None"
    using assms(4,6) by (simp_all add: txn_metadata_of_def)
  from assms(1)[unfolded transition_sends(2)[OF assms(2)]] assms(5) lim rc show ?thesis
    by (rule v2.transaction_outcome)
      (use assms(3,4) in \<open>auto simp: only_fees_def world_reads_def finalize_v2_def into_receipt_v2_def
        Let_def split: if_split_asm\<close>)
qed

theorem failed_transaction_v2_witness:
  "\<exists>res r. transition_v2 kv_runtime runtime_new example_world
      (example_tx [Transfer 2 10, Transfer 2 2000000000] 500000) example_block = Some res \<and>
      receipt res = Some r \<and> r2_gas_used r \<le> 500000 \<and> at_nonce kv_ops (new_state res) 1 = Some 1"
proof -
  let ?tx = "example_tx [Transfer 2 10, Transfer 2 2000000000] 500000"
  obtain res r where run: "transition_v2 kv_runtime runtime_new example_world ?tx example_block = Some res"
    "tr_error res \<noteq> None" "receipt res = Some r"
    using failed_run_v2 by blast
  then have "only_fees kv_ops example_world (txn_metadata_of V2 ?tx) example_block (r2_gas_used r) (new_state res)"
    using failed_transaction_v2[OF run(1) _ run(2,3)] by (simp add: kv_ops_laws U64_MAX_def)
  then have "r2_gas_used r \<le> 500000" "at_nonce kv_ops (new_state res) 1 = Some 1"
    by (simp_all add: only_fees_def bumped_def saturating_add_def U64_MAX_def)
  with run show ?thesis
    by blast
qed

section \<open>Transactions that succeed\<close>

text \<open>C1: A version 1 transaction without next epoch that succeeds runs from its pre-charge to its settlement: every
  command succeeded and answered with a success, starting in a world state from which only the
  price of the gas limit was taken, and the new world state reads as the cache after the last
  command does, with the gas settled and the nonce used up.\<close>

theorem successful_transaction_v1:
  fixes R :: "('w, 'c, 'm, 'v) runtime"
  assumes "transition_v1 R self w tx params = Some res" and "NextEpoch \<notin> set (tx_commands tx)"
    and "tr_error res = None" and "receipt res = Some rcps" and "ws_laws (rt_ws R)"
    and "tx_gas_limit tx \<le> U64_MAX" and "meta = txn_metadata_of V1 tx"
  shows "\<exists>st0 st :: ('w, 'c, command_receipt_v1) execution_state.
    pre_charge R (initial_state self V1 w meta params (gas_limit meta)) = Some (Ok, st0) \<and>
    at_balance (rt_ws R) (ws (es_cache st0)) = pre_charged (rt_ws R) w meta params \<and>
    loop_steps R finalize_v1 (executable_commands_new (tx_commands tx), 0, st0) ([], length (tx_commands tx), st) \<and>
    receipt_buf st = rcps \<and> length rcps = length (tx_commands tx) \<and> list_all succeeded_v1 rcps \<and>
    world_reads (rt_ws R) (new_state res)
      (settle meta params (inclusion_cost meta + (\<Sum>c\<leftarrow>rcps. r1_gas_used c))
        (wsc_balance_view (rt_ws R) (es_cache st)))
      (bumped (rt_ws R) w meta) (es_cache st)"
proof -
  have lim: "gas_limit meta \<le> U64_MAX" and rc: "receipt res \<noteq> None"
    using assms(4,6,7) by (simp_all add: txn_metadata_of_def)
  have charged: "at_balance (rt_ws R) (ws (es_cache st0)) = pre_charged (rt_ws R) w meta params"
    if "pre_charge R (initial_state self V1 w meta params (gas_limit meta)) = Some (Ok, st0)"
    for st0 :: "('w, 'c, command_receipt_v1) execution_state"
    using that assms(5) lim by (rule pre_charge_start) simp
  from assms(1)[unfolded transition_sends(1)[OF assms(2)], folded assms(7)] assms(5) lim rc show ?thesis
    by (rule v1.transaction_outcome)
      (use assms(3,4) charged in \<open>auto simp: finalize_v1_def into_receipt_v1_def\<close>)
qed

theorem successful_transaction_v1_witness:
  "\<exists>res rcps. transition_v1 kv_runtime runtime_new example_world (example_tx [Transfer 2 10] 500000)
      example_block = Some res \<and> receipt res = Some rcps \<and> length rcps = 1 \<and>
      at_nonce kv_ops (new_state res) 1 = Some 1"
proof -
  let ?tx = "example_tx [Transfer 2 10] 500000"
  obtain res rcps where run: "transition_v1 kv_runtime runtime_new example_world ?tx example_block = Some res"
    "tr_error res = None" "receipt res = Some rcps"
    using transfer_run_v1 by blast
  have "length rcps = 1 \<and> at_nonce kv_ops (new_state res) 1 = Some 1"
    using successful_transaction_v1[OF run(1) _ run(2,3) _ _ refl]
    by (auto simp: kv_ops_laws U64_MAX_def world_reads_def bumped_def saturating_add_def)
  with run show ?thesis
    by blast
qed

section \<open>Commands that never run\<close>

lemma next_epoch_kind: "command_kind_of c = KNextEpoch \<longleftrightarrow> c = NextEpoch"
  by (cases c) auto

lemma no_next_epoch:
  assumes "run_stack kind_of tag commands stack i buf" "NextEpoch \<notin> set commands"
  shows "\<forall>c \<in> set stack. ec_command_kind c \<noteq> KNextEpoch"
proof -
  obtain finished todo ds where run: "commands = finished @ todo" "list_all defer_ok ds"
    "stack = rev (map TransactionCommmand todo) @ rev (map DeferredCommand ds)"
    using assms(1) by (auto simp: run_stack_def)
  have "command_kind_of c \<noteq> KNextEpoch" if "c \<in> set todo" for c
    using that run(1) assms(2) by (auto simp: next_epoch_kind)
  then show ?thesis
    using run(2,3) by (auto simp: list_all_iff defer_ok_def)
qed

text \<open>C22: Next epoch never reaches the dispatch of the ordinary commands, whose branch for it is
  declared unreachable: in neither version is it on the stack of any configuration that a transaction
  without it can reach from its pre-charge, since contracts cannot defer it.\<close>

theorem next_epoch_unreachable:
  fixes R :: "('w, 'c, 'm, 'v) runtime" and self1 self2 :: "'c pchain_runtime"
    and s1 t1 :: "('w, 'c, command_receipt_v1) execution_state" and s2 t2 :: "('w, 'c, command_receipt_v2) execution_state"
  assumes "ws_laws (rt_ws R)" "NextEpoch \<notin> set commands" "gas_limit meta \<le> U64_MAX"
  shows "(pre_charge R (initial_state self1 V1 w meta params (gas_limit meta)) = Some (Ok, s1) \<longrightarrow>
      loop_steps R finalize_v1 (executable_commands_new commands, 0, s1) (stack1, i1, t1) \<longrightarrow>
      (\<forall>c \<in> set stack1. ec_command_kind c \<noteq> KNextEpoch)) \<and>
    (pre_charge R (initial_state self2 V2 w meta params (gas_limit meta)) = Some (Ok, s2) \<longrightarrow>
      loop_steps R finalize_v2 (executable_commands_new commands, 0, s2) (stack2, i2, t2) \<longrightarrow>
      (\<forall>c \<in> set stack2. ec_command_kind c \<noteq> KNextEpoch))"
proof (intro conjI impI)
  assume pre: "pre_charge R (initial_state self1 V1 w meta params (gas_limit meta)) = Some (Ok, s1)"
    and steps: "loop_steps R finalize_v1 (executable_commands_new commands, 0, s1) (stack1, i1, t1)"
  obtain "run_state (rt_ws R) r1_gas_used s1 s1" "receipt_buf s1 = []"
    using pre assms(1,3) by (rule pre_charge_start)
  note inv = v1.loop_invariant[OF steps this]
  show "\<forall>c \<in> set stack1. ec_command_kind c \<noteq> KNextEpoch"
    by (rule no_next_epoch[OF conjunct1[OF conjunct2[OF inv]] assms(2)])
next
  assume pre: "pre_charge R (initial_state self2 V2 w meta params (gas_limit meta)) = Some (Ok, s2)"
    and steps: "loop_steps R finalize_v2 (executable_commands_new commands, 0, s2) (stack2, i2, t2)"
  obtain "run_state (rt_ws R) gas_used_of_v2 s2 s2" "receipt_buf s2 = []"
    using pre assms(1,3) by (rule pre_charge_start)
  note inv = v2.loop_invariant[OF steps this]
  show "\<forall>c \<in> set stack2. ec_command_kind c \<noteq> KNextEpoch"
    by (rule no_next_epoch[OF conjunct1[OF conjunct2[OF inv]] assms(2)])
qed

text \<open>A transaction of two transfers, after the first of them.\<close>

definition two_transfers :: transaction where
  "two_transfers = example_tx [Transfer 2 10, Transfer 3 20] 500000"

lemma first_transfer:
  "\<exists>st0 st1. pre_charge kv_runtime (initial_state runtime_new V2 example_world (txn_metadata_of V2 two_transfers) example_block
      (gas_limit (txn_metadata_of V2 two_transfers))) = Some (Ok, st0 :: (kv_world, dir, command_receipt_v2) execution_state) \<and>
     consume_and_execute kv_runtime (TransactionCommmand (Transfer 2 10)) st0 0 = Some (Ok, st1) \<and>
     deferred_commands (ctx st1) = []"
  by (simp add: two_transfers_def transition_evals transfer_def cong: eval_congs)

theorem next_epoch_unreachable_witness:
  "\<exists>st0 st :: (kv_world, dir, command_receipt_v2) execution_state.
     pre_charge kv_runtime (initial_state runtime_new V2 example_world (txn_metadata_of V2 two_transfers) example_block
       (gas_limit (txn_metadata_of V2 two_transfers))) = Some (Ok, st0) \<and>
     loop_steps kv_runtime finalize_v2 (executable_commands_new [Transfer 2 10, Transfer 3 20], 0, st0)
       ([TransactionCommmand (Transfer 3 20)], 1, st) \<and> length (receipt_buf st) = 1 \<and>
     (\<forall>c \<in> set [TransactionCommmand (Transfer 3 20)]. ec_command_kind c \<noteq> KNextEpoch)"
proof -
  let ?cmds = "[Transfer 2 10, Transfer 3 20]"
  obtain st0 st1 :: "(kv_world, dir, command_receipt_v2) execution_state" where
    pre: "pre_charge kv_runtime (initial_state runtime_new V2 example_world (txn_metadata_of V2 two_transfers) example_block
      (gas_limit (txn_metadata_of V2 two_transfers))) = Some (Ok, st0)"
    and run: "consume_and_execute kv_runtime (TransactionCommmand (Transfer 2 10)) st0 0 = Some (Ok, st1)"
    and none: "deferred_commands (ctx st1) = []"
    using first_transfer by blast
  obtain deferred st2 where close: "handle_command_execution_result finalize_v2 st1 KTransfer Ok True = (deferred, st2)"
    by (metis surj_pair)
  have "deferred = None" "length (receipt_buf st2) = length (receipt_buf st1) + 1"
    using close none by (auto simp: handle_command_execution_result_def finalize_cmd_receipt_collect_deferred_def
        complete_cmd_execution_def push_command_receipt_def Let_def case_prod_beta)
  moreover have "receipt_buf st1 = []"
    using consume_keeps[OF run] pre_charge_start[OF pre] by (auto simp: es_keeps_def kv_ops_laws two_transfers_def U64_MAX_def)
  ultimately have steps: "loop_steps kv_runtime finalize_v2 (executable_commands_new ?cmds, 0, st0)
      ([TransactionCommmand (Transfer 3 20)], 1, st2)" "length (receipt_buf st2) = 1"
    using loop_steps.step[OF loop_steps.start, of "executable_commands_new ?cmds" "TransactionCommmand (Transfer 2 10)"
        "[TransactionCommmand (Transfer 3 20)]" kv_runtime st0 0 st1 finalize_v2 None st2] run close
    by (simp_all add: executable_commands_new_def next_command_def pushed_def)
  have "ws_laws (rt_ws kv_runtime)" "NextEpoch \<notin> set ?cmds" "gas_limit (txn_metadata_of V2 two_transfers) \<le> U64_MAX"
    by (simp_all add: kv_ops_laws two_transfers_def U64_MAX_def)
  then have "\<forall>c \<in> set [TransactionCommmand (Transfer 3 20)]. ec_command_kind c \<noteq> KNextEpoch"
    by (rule mp[OF mp[OF conjunct2[OF next_epoch_unreachable] pre] steps(1)])
  then show ?thesis
    using pre steps by blast
qed

end
