(* ===== verification/Ledger_Transactions.thy ===== *)
theory Ledger_Transactions
  imports Staking_Properties Contract_Ledger Transition_Properties
begin

text \<open>
  The books over whole transactions and sequences of them. A world state stands for a ledger and
  balances; every transaction but next epoch leads from one whose books add up to another, and the
  only tokens that disappear are the part of the base fee that the treasury does not get.
\<close>

section \<open>World states with a ledger\<close>

definition world_storage :: "('w, 'c, 'm, 'v) runtime \<Rightarrow> 'w \<Rightarrow> net_storage" where
  "world_storage R w = st_get (rt_ws R) w (NETWORK_ADDRESS (rt_net R))"

definition world_at ::
  "('w, 'c, 'm, 'v) runtime \<Rightarrow> (net_storage \<Rightarrow> ledger) \<Rightarrow> (net_storage \<Rightarrow> bool) \<Rightarrow> ledger \<Rightarrow> bank \<Rightarrow> 'w \<Rightarrow> bool" where
  "world_at R ab good L bal w \<longleftrightarrow> good (world_storage R w) \<and> ab (world_storage R w) = L \<and>
     at_balance (rt_ws R) w = (\<lambda>a. Some (bal a)) \<and> at_code (rt_ws R) w (NETWORK_ADDRESS (rt_net R)) = Some None"

text \<open>The network account takes an empty value for a missing one: that is how the cache deletes.\<close>

definition reads_live :: "(net_storage \<Rightarrow> 'l) \<Rightarrow> (net_storage \<Rightarrow> bool) \<Rightarrow> bool" where
  "reads_live ab good \<longleftrightarrow> (\<forall>\<sigma> \<sigma>'. (\<forall>k. live (\<sigma> k) = live (\<sigma>' k)) \<longrightarrow> ab \<sigma> = ab \<sigma>' \<and> good \<sigma> = good \<sigma>')"

text \<open>Tokens the fees take out of circulation.\<close>

definition burnt :: "blockchain_params \<Rightarrow> u64 \<Rightarrow> nat" where
  "burnt params g = g * this_base_fee params - treasury_cut g (this_base_fee params)"

section \<open>Balances\<close>

lemma supply_update: "total_supply L (bal(a := n)) + bal a = total_supply L bal + n"
  using sum_update[of bal a n] by (simp add: total_supply_def)

lemma balance_le_supply: "bal a \<le> total_supply L bal"
  using le_sum[of bal a] by (simp add: total_supply_def)

lemma credit_exact:
  assumes "total_supply L bal + n \<le> U64_MAX"
  shows "credit (\<lambda>a. Some (bal a)) a n = (\<lambda>x. Some ((bal(a := bal a + n)) x))"
    and "total_supply L (bal(a := bal a + n)) = total_supply L bal + n"
  using assms balance_le_supply[of bal a L] supply_update[of L bal a "bal a + n"]
  by (auto simp: credit_def saturating_add_def fun_eq_iff)

text \<open>The settlement hands out what the pre-charge took, less what is burnt.\<close>

lemma fees_split:
  assumes "g \<le> (limit :: nat)"
  shows "(limit - g) * (this_base_fee params + prio) + g * prio + treasury_cut g (this_base_fee params) +
    burnt params g = limit * (this_base_fee params + prio)"
proof -
  let ?base = "this_base_fee params"
  have "treasury_cut g ?base \<le> g * ?base"
    unfolding treasury_cut_def using div_le_mono[of "g * ?base * 20" "g * ?base * 100" 100] by simp
  moreover have "(limit - g) * (?base + prio) + g * (?base + prio) = limit * (?base + prio)"
    using assms by (metis add_mult_distrib le_add_diff_inverse2)
  ultimately show ?thesis
    by (simp add: distrib_left burnt_def)
qed

lemma settle_exact:
  assumes "g \<le> gas_limit meta"
    and "total_supply L bal + gas_limit meta * (this_base_fee params + priority_fee_per_gas meta) \<le> U64_MAX"
  obtains bal' where "settle meta params g (\<lambda>a. Some (bal a)) = (\<lambda>a. Some (bal' a))"
    "total_supply L bal' + burnt params g =
       total_supply L bal + gas_limit meta * (this_base_fee params + priority_fee_per_gas meta)"
proof -
  define refund tip cut where "refund = (gas_limit meta - g) * (this_base_fee params + priority_fee_per_gas meta)"
    and "tip = g * priority_fee_per_gas meta" and "cut = treasury_cut g (this_base_fee params)"
  note defs = refund_def tip_def cut_def
  have room: "total_supply L bal + refund + tip + cut \<le> U64_MAX"
    and sum: "refund + tip + cut + burnt params g =
      gas_limit meta * (this_base_fee params + priority_fee_per_gas meta)"
    using fees_split[OF assms(1), of params "priority_fee_per_gas meta"] assms(2) by (simp_all add: defs)
  let ?b1 = "bal(signer meta := bal (signer meta) + refund)"
  let ?b2 = "?b1(proposer_address params := ?b1 (proposer_address params) + tip)"
  let ?b3 = "?b2(treasury_address params := ?b2 (treasury_address params) + cut)"
  note c1 = credit_exact[of L bal refund "signer meta"]
  note c2 = credit_exact[of L ?b1 tip "proposer_address params"]
  note c3 = credit_exact[of L ?b2 cut "treasury_address params"]
  show thesis
  proof (rule that[of ?b3])
    show "settle meta params g (\<lambda>a. Some (bal a)) = (\<lambda>a. Some (?b3 a))"
      using c1 c2 c3 room unfolding settle_def Let_def defs[symmetric] by simp
    show "total_supply L ?b3 + burnt params g =
      total_supply L bal + gas_limit meta * (this_base_fee params + priority_fee_per_gas meta)"
      using c1(2) c2(2) c3(2) room sum by simp
  qed
qed

section \<open>The books before and after a run\<close>

definition cache_at ::
  "('w, 'c, 'm, 'v) runtime \<Rightarrow> (net_storage \<Rightarrow> ledger) \<Rightarrow> (net_storage \<Rightarrow> bool) \<Rightarrow> ledger \<Rightarrow> bank \<Rightarrow>
   'w world_state_cache \<Rightarrow> bool" where
  "cache_at R ab good L bal s \<longleftrightarrow> good (net_view (rt_ws R) (NETWORK_ADDRESS (rt_net R)) s) \<and>
     ab (net_view (rt_ws R) (NETWORK_ADDRESS (rt_net R)) s) = L \<and>
     wsc_balance_view (rt_ws R) s = (\<lambda>a. Some (bal a)) \<and>
     wsc_code_view (rt_ws R) s (NETWORK_ADDRESS (rt_net R)) = Some None"

lemma at_state_cache:
  "at_state R ab good md L bal st \<Longrightarrow> quiet R (ctx st) \<Longrightarrow> cache_at R ab good L bal (es_cache st)"
  by (simp add: cache_at_def at_state_def at_ledger_def gm_ok_def gm_storage_def quiet_def es_cache_gm es_gm_def
      gas_free_ws_cache_def)

lemma pre_charge_run:
  assumes "pre_charge R (initial_state self ver w meta params (gas_limit meta)) = Some (Ok, st0)"
    and "ws_laws (rt_ws R)" "gas_limit meta \<le> U64_MAX"
  shows "run_state (rt_ws R) gas_of st0 st0" "receipt_buf st0 = []"
  using assms by (rule pre_charge_start, simp)+

lemma pre_charge_sc:
  assumes "pre_charge R st = Some (r, st0)"
  shows "sc_context (ctx st0) = sc_context (ctx st)"
  using assms
  by (auto simp: pre_charge_def set_es_cache_def set_es_gm_def Let_def elim!: bind_SomeE
      split: prod.split_asm sum.split_asm if_split_asm option.split_asm)

text \<open>The pre-charge takes the price of the gas limit from the signer and leaves the ledger alone.\<close>

lemma pre_charge_books:
  fixes R :: "('w, 'c, 'm, 'v) runtime" and st0 :: "('w, 'c, 'e) execution_state"
  defines "price \<equiv> \<lambda>meta params. gas_limit meta * (this_base_fee params + priority_fee_per_gas meta)"
  assumes pre: "pre_charge R (initial_state self ver w meta params (gas_limit meta)) = Some (Ok, st0)"
    and laws: "ws_laws (rt_ws R)" and start: "world_at R ab good L bal w" "ledger_inv cmp L bal" "gas_limit meta \<le> U64_MAX"
      "no_module R (rn_sc_context self)"
  shows "at_state R ab good meta L (bal(signer meta := bal (signer meta) - price meta params)) st0"
    "ledger_inv cmp L (bal(signer meta := bal (signer meta) - price meta params))"
    "total_supply L (bal(signer meta := bal (signer meta) - price meta params)) + price meta params = total_supply L bal"
    "pre_charged (rt_ws R) w meta params = (\<lambda>a. Some ((bal(signer meta := bal (signer meta) - price meta params)) a))"
    "wsc_storage_view (rt_ws R) (es_cache st0) (a, k) = st_get (rt_ws R) w a k" "quiet R (ctx st0)"
proof -
  let ?W = "rt_ws R" and ?b0 = "bal(signer meta := bal (signer meta) - price meta params)"
  from pre laws start(3) obtain w0 b where s0: "es_cache st0 = wsc_new w0" "txn_meta st0 = meta"
    "run_state ?W (\<lambda>_. 0) st0 st0"
    and w0: "at_balance ?W w0 = pre_charged ?W w meta params" "st_get ?W w0 = st_get ?W w" "at_code ?W w0 = at_code ?W w"
    and b: "at_balance ?W w (signer meta) = Some b" "price meta params \<le> b"
    unfolding price_def by (rule pre_charge_start)
  show view: "wsc_storage_view ?W (es_cache st0) (a, k) = st_get ?W w a k" for a k
    using clean_views(4)[OF wsc_clean_new, of ?W w0] s0(1) w0(2) by simp
  show "quiet R (ctx st0)"
    using clean_views(3)[OF wsc_clean_new, of ?W w0] s0(1,3) w0(3) start(1)
      pre_charge_sc[OF pre] start(4)
    by (simp add: quiet_def run_state_def world_at_def es_cache_def initial_state_def es_new_def)
  show bal: "pre_charged ?W w meta params = (\<lambda>a. Some (?b0 a))"
    using start(1) b by (auto simp: world_at_def pre_charged_def price_def fun_eq_iff)
  show supply0: "total_supply L ?b0 + price meta params = total_supply L bal"
    using supply_update[of L bal "signer meta" "bal (signer meta) - price meta params"] b start(1)
    by (simp add: world_at_def)
  show "ledger_inv cmp L ?b0"
    using supply0 by (intro ledger_inv_bank[OF start(2)]) simp
  have "gm_storage R (es_gm st0) = world_storage R w"
    using view by (simp add: gm_storage_def net_view_def world_storage_def es_cache_gm fun_eq_iff)
  moreover have "wsc_balance_view ?W (es_cache st0) = (\<lambda>a. Some (?b0 a))"
    using clean_views(1)[OF wsc_clean_new, of ?W w0] s0(1) w0(1) bal by simp
  ultimately show "at_state R ab good meta L ?b0 st0"
    using start(1) s0(2,3) by (simp add: at_state_def at_ledger_def gm_ok_def world_at_def run_state_def es_cache_gm)
qed

lemma settled_books:
  assumes "world_reads (rt_ws R) w' (settle meta params g (wsc_balance_view (rt_ws R) s)) nonces s"
    and "cache_at R ab good L bal s" "ledger_inv cmp L bal" "reads_live ab good" "g \<le> gas_limit meta"
    and "total_supply L bal + gas_limit meta * (this_base_fee params + priority_fee_per_gas meta) \<le> U64_MAX"
  shows "\<exists>bal'. world_at R ab good L bal' w' \<and> ledger_inv cmp L bal' \<and> total_supply L bal' + burnt params g =
    total_supply L bal + gas_limit meta * (this_base_fee params + priority_fee_per_gas meta)"
proof -
  obtain bal' where bal': "settle meta params g (\<lambda>a. Some (bal a)) = (\<lambda>a. Some (bal' a))"
    "total_supply L bal' + burnt params g =
       total_supply L bal + gas_limit meta * (this_base_fee params + priority_fee_per_gas meta)"
    using settle_exact[OF assms(5,6)] by blast
  have "live (world_storage R w' k) = live (net_view (rt_ws R) (NETWORK_ADDRESS (rt_net R)) s k)" for k
    using assms(1) by (simp add: world_reads_def world_storage_def net_view_def)
  then have "world_at R ab good L bal' w'"
    using assms(1,2,4) bal'(1) unfolding reads_live_def world_at_def cache_at_def world_reads_def by metis
  moreover have "ledger_inv cmp L bal'"
    using assms(3,6) bal'(2) by (simp add: ledger_inv_def)
  ultimately show ?thesis
    using bal'(2) by blast
qed

section \<open>The books along a run\<close>

lemma at_state_cong:
  assumes "at_state R ab good md L bal st" "es_cache st' = es_cache st" "txn_meta st' = txn_meta st"
  shows "at_state R ab good md L bal st'"
  using assms by (simp add: at_state_def at_ledger_def gm_ok_def gm_storage_def es_cache_gm)

lemma close_command_sc:
  "handle_command_execution_result F st kind res sent = (deferred, st') \<Longrightarrow> sc_context (ctx st') = sc_context (ctx st)"
  by (auto simp: handle_command_execution_result_def finalize_cmd_receipt_collect_deferred_def
      finalize_deferred_cmd_receipt_def complete_cmd_execution_def Let_def case_prod_beta split: if_split_asm)

context receipt_version
begin

lemma run_keeps_books:
  fixes R :: "('w, 'c, 'm, 'v) runtime" and st0 st :: "('w, 'c, 'e) execution_state"
  assumes "loop_steps R F (executable_commands_new commands, 0, st0) (stack, i, st)"
    and "run_state (rt_ws R) gas_of st0 st0" "receipt_buf st0 = []" "network_laws R ab good" "contracts_apart R"
    and "at_state R ab good md L bal st0" "ledger_inv cmp L bal" "quiet R (ctx st0)"
  shows "quiet R (ctx st) \<and> (\<exists>L' bal'. at_state R ab good md L' bal' st \<and> ledger_inv cmp L' bal' \<and>
    total_supply L' bal' = total_supply L bal)"
  using assms(1)
proof (induction "(executable_commands_new commands, 0 :: nat, st0)" "(stack, i, st)"
    arbitrary: stack i st rule: loop_steps.induct)
  case start
  then show ?case
    using assms(6-8) by blast
next
  case (step stack i st cmd rest st1 deferred st2)
  obtain L1 bal1 where at1: "at_state R ab good md L1 bal1 st" "ledger_inv cmp L1 bal1" "quiet R (ctx st)"
    "total_supply L1 bal1 = total_supply L bal"
    using step(2) by blast
  have inv: "run_state (rt_ws R) gas_of st0 st" "run_stack kind_of tag commands stack i (receipt_buf st)"
    using loop_invariant[OF step(1) assms(2,3)] by simp_all
  obtain actor c where c: "execute R st i actor c = Some (Ok, st1)"
    using consume_eq_execute[of R cmd st i] step(4) by metis
  obtain L2 bal2 where at2: "at_state R ab good md L2 bal2 st1" "ledger_inv cmp L2 bal2" "quiet R (ctx st1)"
    "total_supply L2 bal2 = total_supply L bal"
    using every_command_keeps_books[OF assms(4,5) at1(1-3) c] at1(4) by auto
  note keeps = consume_keeps[OF step(4)]
  note close = close_command[OF inv(1) keeps step(5) run_stack_ready[OF inv(2) step(3)]]
  have "txn_meta st2 = txn_meta st1"
    using close(1) inv(1) keeps by (simp add: run_state_def es_keeps_def)
  moreover have "quiet R (ctx st2)"
    using at2(3) close(2) close_command_sc[OF step(5)] by (simp add: quiet_def es_cache_def)
  ultimately show ?case
    using at_state_cong[OF at2(1) close(2)] at2(2-4) by auto
qed

text \<open>The cache in which a run ends has the ledger and the balances the commands left, or after a failure
  those of the pre-charge.\<close>

lemma transaction_end:
  fixes R :: "('w, 'c, 'm, 'v) runtime" and st0 st :: "('w, 'c, 'e) execution_state"
  assumes "tr_error res = None \<longrightarrow> loop_steps R F (executable_commands_new commands, 0, st0) ([], length commands, st)"
    and "tr_error res \<noteq> None \<longrightarrow> wsc_balance_view (rt_ws R) (es_cache st) = (\<lambda>a. Some (bal a)) \<and>
       wsc_code_view (rt_ws R) (es_cache st) (NETWORK_ADDRESS (rt_net R)) = Some None \<and>
       (\<forall>a k. wsc_storage_view (rt_ws R) (es_cache st) (a, k) = wsc_storage_view (rt_ws R) (es_cache st0) (a, k))"
    and "run_state (rt_ws R) gas_of st0 st0" "receipt_buf st0 = []" "network_laws R ab good" "contracts_apart R"
    and "at_state R ab good md L bal st0" "ledger_inv cmp L bal" "quiet R (ctx st0)"
  obtains L' bal' where "cache_at R ab good L' bal' (es_cache st)" "ledger_inv cmp L' bal'"
    "total_supply L' bal' = total_supply L bal"
proof (cases "tr_error res")
  case None
  then obtain L' bal' where "at_state R ab good md L' bal' st" "ledger_inv cmp L' bal'" "quiet R (ctx st)"
    "total_supply L' bal' = total_supply L bal"
    using run_keeps_books[OF _ assms(3-9)] assms(1) by blast
  then show thesis
    using that at_state_cache by blast
next
  case (Some e)
  then have "net_view (rt_ws R) (NETWORK_ADDRESS (rt_net R)) (es_cache st) =
    net_view (rt_ws R) (NETWORK_ADDRESS (rt_net R)) (es_cache st0)"
    using assms(2) by (simp add: net_view_def fun_eq_iff)
  then have "cache_at R ab good L bal (es_cache st)"
    using Some assms(2) at_state_cache[OF assms(7,9)] by (simp add: cache_at_def)
  then show thesis
    using that assms(8) by blast
qed

lemma transaction_keeps_books:
  fixes R :: "('w, 'c, 'm, 'v) runtime" and self :: "'c pchain_runtime"
  assumes run: "execute_commands R F (initial_state self ver w meta params (gas_limit meta)) commands = Some res"
    and laws: "ws_laws (rt_ws R)" "network_laws R ab good" "reads_live ab good" "contracts_apart R"
    and start: "world_at R ab good L bal w" "ledger_inv cmp L bal" "gas_limit meta \<le> U64_MAX" "no_module R (rn_sc_context self)"
    and rcp: "receipt res = Some r"
  obtains L' bal' buf g where "world_at R ab good L' bal' (new_state res)" "ledger_inv cmp L' bal'"
    "total_supply L' bal' + burnt params g = total_supply L bal"
    "f_into_receipt F buf g (command_kinds meta) = Some r" "g = inclusion_cost meta + (\<Sum>c\<leftarrow>buf. gas_of c)"
proof -
  let ?W = "rt_ws R"
  let ?b0 = "bal(signer meta := bal (signer meta) - gas_limit meta * (this_base_fee params + priority_fee_per_gas meta))"
  have "receipt res \<noteq> None"
    using rcp by simp
  from run laws(1) start(3) this obtain st0 st :: "('w, 'c, 'e) execution_state" and r' g b where
    g: "g \<le> gas_limit meta" "g = inclusion_cost meta + (\<Sum>c\<leftarrow>receipt_buf st. gas_of c)"
    and reads: "world_reads ?W (new_state res)
       (settle meta params g (wsc_balance_view ?W (es_cache st))) (bumped ?W w meta) (es_cache st)"
    and into: "f_into_receipt F (receipt_buf st) g (command_kinds meta) = Some r'" "receipt res = Some r'"
    and pre: "pre_charge R (initial_state self ver w meta params (gas_limit meta)) = Some (Ok, st0)"
    and ok: "tr_error res = None \<longrightarrow> length (receipt_buf st) = length commands \<and> list_all ok_of (receipt_buf st) \<and>
       loop_steps R F (executable_commands_new commands, 0, st0) ([], length commands, st)"
    and fail: "tr_error res \<noteq> None \<longrightarrow>
       (\<exists>buf r. receipt_buf st = buf @ [r] \<and> list_all ok_of buf \<and> \<not> ok_of r) \<and>
       wsc_balance_view ?W (es_cache st) = pre_charged ?W w meta params \<and>
       wsc_cbi_view ?W (es_cache st) = at_cbi_version ?W w \<and>
       wsc_code_view ?W (es_cache st) = at_code ?W w \<and>
       (\<forall>a k. wsc_storage_view ?W (es_cache st) (a, k) = st_get ?W w a k)"
    by (rule transaction_outcome)
  note p = pre_charge_books[OF pre laws(1) start]
  have steps: "tr_error res = None \<longrightarrow> loop_steps R F (executable_commands_new commands, 0, st0) ([], length commands, st)"
    using ok by simp
  have undone: "tr_error res \<noteq> None \<longrightarrow> wsc_balance_view ?W (es_cache st) = (\<lambda>a. Some (?b0 a)) \<and>
    wsc_code_view ?W (es_cache st) (NETWORK_ADDRESS (rt_net R)) = Some None \<and>
    (\<forall>a k. wsc_storage_view ?W (es_cache st) (a, k) = wsc_storage_view ?W (es_cache st0) (a, k))"
    using fail p(4,5) start(1) by (simp add: world_at_def)
  obtain L1 bal1 where
    end1: "cache_at R ab good L1 bal1 (es_cache st)" "ledger_inv cmp L1 bal1" "total_supply L1 bal1 = total_supply L ?b0"
    by (rule transaction_end[OF steps undone pre_charge_run[OF pre laws(1) start(3)] laws(2,4) p(1,2,6)])
  obtain bal2 where "world_at R ab good L1 bal2 (new_state res)" "ledger_inv cmp L1 bal2"
    "total_supply L1 bal2 + burnt params g = total_supply L bal"
    using settled_books[OF reads end1(1,2) laws(3) g(1)] end1(3) p(3) start(2) by (auto simp: ledger_inv_def)
  then show thesis
    using that into rcp g(2) by simp
qed

end

section \<open>Transactions on the example ledger\<close>

lemma live_None: "live x = None \<longleftrightarrow> x = None"
  by (cases x rule: live.cases) auto

lemma live_cell: "val_cell v = val_cell v'" if "live (Some v) = live (Some v')"
  using that by (cases v rule: val_cell.cases; cases v' rule: val_cell.cases) auto

lemma cell_live:
  assumes "\<forall>k. live (\<sigma> k) = live (\<sigma>' k)"
  shows "cell \<sigma> = cell \<sigma>'"
proof (intro ext)
  fix t a b
  have eq: "live (\<sigma> (cell_key t a b)) = live (\<sigma>' (cell_key t a b))"
    using assms by blast
  show "cell \<sigma> t a b = cell \<sigma>' t a b"
  proof (cases "\<sigma> (cell_key t a b)")
    case None
    then show ?thesis
      using eq live_None[of "\<sigma>' (cell_key t a b)"] by (simp add: cell_def)
  next
    case (Some v)
    then obtain v' where "\<sigma>' (cell_key t a b) = Some v'"
      using eq live_None by (metis option.exhaust option.distinct(1))
    then show ?thesis
      using eq Some live_cell[of v v'] by (simp add: cell_def)
  qed
qed

lemma ledger_reads_live: "reads_live ledger_of sound"
  unfolding reads_live_def sound_def
proof (intro allI impI conjI)
  fix \<sigma> \<sigma>' :: net_storage
  assume eq: "\<forall>k. live (\<sigma> k) = live (\<sigma>' k)"
  show "ledger_of \<sigma> = ledger_of \<sigma>'"
    by (simp add: ledger_of_def cell_live[OF eq])
  show "(\<forall>k. \<sigma> k \<noteq> None) = (\<forall>k. \<sigma>' k \<noteq> None)"
    using eq live_None by metis
qed

lemma ledger_world_at: "world_at ledger_runtime ledger_of sound example_ledger example_bank ledger_world"
proof -
  have "world_storage ledger_runtime ledger_world = (\<lambda>k. Some (map_of example_cells k))"
    "at_balance (rt_ws ledger_runtime) ledger_world = (\<lambda>a. Some (example_bank a))"
    "at_code (rt_ws ledger_runtime) ledger_world (NETWORK_ADDRESS (rt_net ledger_runtime)) = Some None"
    by (simp_all add: world_storage_def ledger_runtime_def ledger_world_def kv_runtime_def kv_world_evals cell_network_def
        kv_network_def example_world_def example_bank_def fun_eq_iff)
  then show ?thesis
    by (simp add: world_at_def sound_def example_ledger_def)
qed

lemma ledger_ws_laws: "ws_laws (rt_ws ledger_runtime)"
  by (simp add: ledger_runtime_def kv_runtime_def kv_ops_laws)

text \<open>A runtime with a contract cache that holds the module of the contract at address 100.\<close>

definition cached_runtime :: "dir pchain_runtime" where
  "cached_runtime = set_smart_contract_cache runtime_new
     ([100 \<mapsto> 3], [100 \<mapsto> metadata_to_bytes \<lparr>md_cbi_version = CBI_VERSION, md_bytecode_length = 3\<rparr>])"

lemma cached_runtime_apart: "no_module ledger_runtime (rn_sc_context cached_runtime)"
  by (simp add: no_module_def cached_runtime_def set_smart_contract_cache_def ledger_runtime_def kv_runtime_def dir_ops_def
      cell_network_def kv_network_def)

lemma topup_run_v1:
  "\<exists>res rcps. transition_v1 ledger_runtime cached_runtime ledger_world (example_tx [TopUpDeposit 1 10] 500000)
      example_block = Some res \<and> receipt res = Some rcps \<and> tr_error res = None"
  by (simp add: transition_evals topup_deposit_def ledger_evals cong: eval_congs)

lemma ledger_apart: "contracts_apart ledger_runtime"
  by (simp add: contracts_apart_def deploy_address_def ledger_runtime_def kv_runtime_def dir_ops_apart cell_network_def
      kv_network_def split: txn_version.split)

section \<open>Contracts\<close>

text \<open>C8: Contract code moves money but does not make it. Take a context in which the network account has no
  code and the contract cache, if there is one, holds no module for its address, and a cache that keeps
  the modules of different addresses apart. Then whatever a contract at another address does and whatever
  contracts it calls, when it returns without an error the balances of all accounts sum up to what they
  were, the storage of the network account, with all pools, stakes and deposits in it, is untouched, and
  so is what was assumed of the context.\<close>

theorem contract_conserves:
  fixes R :: "('w, 'c, 'm, 'v) runtime" and c c' :: "('w, 'c) transition_context"
  defines "s \<equiv> gas_free_ws_cache c" and "s' \<equiv> gas_free_ws_cache c'"
  assumes "fs_apart (rt_wasmer R)" "quiet R c" "ct_target tx \<noteq> NETWORK_ADDRESS (rt_net R)"
    and "wsc_balance_view (rt_ws R) s = (\<lambda>a. Some (bal a))" "(\<Sum>a\<in>UNIV. bal a) \<le> U64_MAX"
    and "contract_call R depth inst n view tx params c = Some (c', g, None)"
  shows "net_view (rt_ws R) (NETWORK_ADDRESS (rt_net R)) s' = net_view (rt_ws R) (NETWORK_ADDRESS (rt_net R)) s \<and>
    (\<exists>bal'. wsc_balance_view (rt_ws R) s' = (\<lambda>a. Some (bal' a)) \<and> (\<Sum>a\<in>UNIV. bal' a) = (\<Sum>a\<in>UNIV. bal a)) \<and>
    quiet R c'"
proof -
  have "even_step R c c'"
    using contract_call_even[OF assms(3)] assms(5,8) unfolding runner_even_def by blast
  moreover have "holds R c bal"
    using assms(6,7) by (simp add: holds_def s_def)
  ultimately show ?thesis
    using assms(4) unfolding even_step_def holds_def s_def s'_def by blast
qed

text \<open>A contract at address 1 that sends 5 to account 2.\<close>

definition paying_instance :: "bytes wasm_instance" where
  "paying_instance =
     \<lparr>inst_entrypoint = Some (G_Ops 10 (G_Host (H_transfer 0) (to_le_bytes 32 2 @ to_le_bytes 8 5) (\<lambda>_ _. G_Return))),
      inst_memory = [], inst_alloc = (\<lambda>n mem. None)\<rparr>"

definition paying_call :: call_tx where
  "paying_call = (example_call 100000)\<lparr>ct_target := 1\<rparr>"

text \<open>It runs in a context whose contract cache holds the module of the contract at address 100.\<close>

definition paying_context :: "(kv_world, dir) transition_context" where
  "paying_context = (ctx_new V2 ledger_world 100000)\<lparr>sc_context := rn_sc_context cached_runtime\<rparr>"

lemma paying_run:
  "\<exists>c' g. contract_call ledger_runtime (Suc 0) paying_instance 0 False paying_call example_block
     paying_context = Some (c', g, None)"
  by (simp add: paying_context_def paying_instance_def paying_call_def example_call_def example_meta_def ledger_runtime_def
      ledger_world_def kv_runtime_def flat_vm_def host_transfer_def transfer_from_contract_def hf_ws_get_balance_def
      hf_ws_set_balance_def host_evals call_evals cost_evals op_evals cache_evals kv_world_evals hs_cache_def
      set_hs_cache_def ctx_new_def gm_new_def gas_free_ws_cache_def set_gas_free_ws_cache_def checked_defs
      example_world_def from_to_le_bytes_exact address_of_bytes_def Let_def)

theorem contract_conserves_witness:
  "\<exists>c' g bal'. contract_call ledger_runtime (Suc 0) paying_instance 0 False paying_call example_block
      paying_context = Some (c', g, None) \<and>
     wsc_balance_view kv_ops (gas_free_ws_cache c') = (\<lambda>a. Some (bal' a)) \<and> (\<Sum>a\<in>UNIV. bal' a) = 1000000000 \<and>
     quiet ledger_runtime c'"
proof -
  have cache: "gas_free_ws_cache paying_context = wsc_new ledger_world"
    by (simp add: paying_context_def ctx_new_def gas_free_ws_cache_def gm_new_def)
  have ws: "rt_ws ledger_runtime = kv_ops"
    by (simp add: ledger_runtime_def kv_runtime_def)
  note view = clean_views[OF wsc_clean_new, of kv_ops ledger_world]
  have "quiet ledger_runtime paying_context"
    using ledger_world_at cached_runtime_apart by (simp add: quiet_def cache ws view world_at_def) (simp add: paying_context_def)
  moreover have "wsc_balance_view kv_ops (gas_free_ws_cache paying_context) = (\<lambda>a. Some (example_bank a))"
    using ledger_world_at by (simp add: cache ws view world_at_def)
  moreover have sum: "(\<Sum>a\<in>UNIV. example_bank a) = 1000000000"
    using sum_update[of "\<lambda>_ :: public_address. 0" 1 1000000000] by (simp add: example_bank_def)
  moreover have "ct_target paying_call \<noteq> NETWORK_ADDRESS (rt_net ledger_runtime)"
    by (simp add: paying_call_def ledger_runtime_def cell_network_def kv_network_def)
  moreover obtain c' g where run: "contract_call ledger_runtime (Suc 0) paying_instance 0 False paying_call example_block
      paying_context = Some (c', g, None)"
    using paying_run by blast
  ultimately show ?thesis
    using contract_conserves[OF _ _ _ _ _ run, of example_bank] ledger_apart
    by (auto simp: ws contracts_apart_def U64_MAX_def)
qed

section \<open>Transactions\<close>

text \<open>What the fees of a transition burn; a rejected transaction pays none.\<close>

definition fees_v1 :: "blockchain_params \<Rightarrow> transaction \<Rightarrow> ('w, receipt_v1) transition_result \<Rightarrow> nat" where
  "fees_v1 params tx res = (case receipt res of None \<Rightarrow> 0
     | Some rcps \<Rightarrow> burnt params (inclusion_cost (txn_metadata_of V1 tx) + (\<Sum>c\<leftarrow>rcps. r1_gas_used c)))"

definition fees_v2 :: "blockchain_params \<Rightarrow> ('w, receipt_v2) transition_result \<Rightarrow> nat" where
  "fees_v2 params res = (case receipt res of None \<Rightarrow> 0 | Some r \<Rightarrow> burnt params (r2_gas_used r))"

lemma transition_v1_books:
  fixes R :: "('w, 'c, 'm, 'v) runtime"
  assumes "transition_v1 R self w tx params = Some res" "NextEpoch \<notin> set (tx_commands tx)" "tx_gas_limit tx \<le> U64_MAX"
    and "no_module R (rn_sc_context self)" and "ws_laws (rt_ws R)" "network_laws R ab good" "reads_live ab good" "contracts_apart R"
    and "world_at R ab good L bal w" "ledger_inv cmp L bal"
  shows "\<exists>L' bal'. world_at R ab good L' bal' (new_state res) \<and> ledger_inv cmp L' bal' \<and>
    total_supply L' bal' + fees_v1 params tx res = total_supply L bal"
proof -
  have lim: "gas_limit (txn_metadata_of V1 tx) \<le> U64_MAX"
    using assms(3) by (simp add: txn_metadata_of_def)
  note run = assms(1)[unfolded transition_sends(1)[OF assms(2)]]
  show ?thesis
  proof (cases "receipt res")
    case None
    then show ?thesis
      using rejected_unchanged[OF run] assms(9,10) by (auto simp: fees_v1_def)
  next
    case (Some rcps)
    from run assms(5-10) lim assms(4) Some show ?thesis
      by (rule v1.transaction_keeps_books) (auto simp: Some fees_v1_def finalize_v1_def into_receipt_v1_def)
  qed
qed

lemma transition_v2_books:
  fixes R :: "('w, 'c, 'm, 'v) runtime"
  assumes "transition_v2 R self w tx params = Some res" "NextEpoch \<notin> set (tx_commands tx)" "tx_gas_limit tx \<le> U64_MAX"
    and "no_module R (rn_sc_context self)" and "ws_laws (rt_ws R)" "network_laws R ab good" "reads_live ab good" "contracts_apart R"
    and "world_at R ab good L bal w" "ledger_inv cmp L bal"
  shows "\<exists>L' bal'. world_at R ab good L' bal' (new_state res) \<and> ledger_inv cmp L' bal' \<and>
    total_supply L' bal' + fees_v2 params res = total_supply L bal"
proof -
  have lim: "gas_limit (txn_metadata_of V2 tx) \<le> U64_MAX"
    using assms(3) by (simp add: txn_metadata_of_def)
  note run = assms(1)[unfolded transition_sends(2)[OF assms(2)]]
  show ?thesis
  proof (cases "receipt res")
    case None
    then show ?thesis
      using rejected_unchanged[OF run] assms(9,10) by (auto simp: fees_v2_def)
  next
    case (Some r)
    have gas: "f_into_receipt finalize_v2 buf g ks = Some r \<Longrightarrow> r2_gas_used r = g" for buf g ks
      by (auto simp: finalize_v2_def into_receipt_v2_def Let_def split: if_split_asm)
    from run assms(5-10) lim assms(4) Some show ?thesis
      by (rule v2.transaction_keeps_books) (use gas Some in \<open>auto simp: fees_v2_def simp del: ex_simps intro!: exI\<close>)
  qed
qed

section \<open>Sequences of transactions\<close>

text \<open>The world states that transactions other than next epoch lead to, with the tokens burnt on the way.\<close>

inductive transactions :: "('w, 'c, 'm, 'v) runtime \<Rightarrow> 'w \<Rightarrow> nat \<Rightarrow> 'w \<Rightarrow> bool" for R w where
  start: "transactions R w 0 w"
| v1: "transactions R w n w1 \<Longrightarrow> no_module R (rn_sc_context self) \<Longrightarrow> transition_v1 R self w1 tx params = Some res \<Longrightarrow>
    NextEpoch \<notin> set (tx_commands tx) \<Longrightarrow> tx_gas_limit tx \<le> U64_MAX \<Longrightarrow>
    transactions R w (n + fees_v1 params tx res) (new_state res)"
| v2: "transactions R w n w1 \<Longrightarrow> no_module R (rn_sc_context self) \<Longrightarrow> transition_v2 R self w1 tx params = Some res \<Longrightarrow>
    NextEpoch \<notin> set (tx_commands tx) \<Longrightarrow> tx_gas_limit tx \<le> U64_MAX \<Longrightarrow>
    transactions R w (n + fees_v2 params res) (new_state res)"

text \<open>C3: Transactions keep the books. Whatever sequence of transactions of both versions is run, with
  transfers, deployments, contract calls of any depth, staking commands and the commands contracts
  defer, whether they succeed, fail or are rejected: from a world state in which the power of each
  pool is the sum of its stakes, no stake exceeds its deposit and the next validator set is current,
  it leads to another such world state, and the sum of all balances and deposits has shrunk by
  exactly the part of the base fees that the treasury does not get. The conditions: each transaction
  runs on a runtime whose contract cache, if it has one, holds no module for the address of the network
  account; the cache keeps the modules of different addresses apart; and no contract is deployed at
  that address.\<close>

theorem transactions_keep_books:
  fixes R :: "('w, 'c, 'm, 'v) runtime"
  assumes "ws_laws (rt_ws R)" "network_laws R ab good" "reads_live ab good" "contracts_apart R"
    and "world_at R ab good L bal w" "ledger_inv (=) L bal" and "transactions R w n w'"
  shows "\<exists>L' bal'. world_at R ab good L' bal' w' \<and> ledger_inv (=) L' bal' \<and>
    total_supply L' bal' + n = total_supply L bal"
  using assms(7)
proof induction
  case start
  then show ?case
    using assms(5,6) by auto
next
  case (v1 n w1 self tx params res)
  then obtain L1 bal1 where "world_at R ab good L1 bal1 w1" "ledger_inv (=) L1 bal1" "total_supply L1 bal1 + n = total_supply L bal"
    by blast
  moreover from transition_v1_books[OF v1(3-5,2) assms(1-4) this(1,2)] obtain L' bal' where
    "world_at R ab good L' bal' (new_state res)" "ledger_inv (=) L' bal'"
    "total_supply L' bal' + fees_v1 params tx res = total_supply L1 bal1"
    by blast
  ultimately show ?case
    by (intro exI[of _ L'] exI[of _ bal']) simp
next
  case (v2 n w1 self tx params res)
  then obtain L1 bal1 where "world_at R ab good L1 bal1 w1" "ledger_inv (=) L1 bal1" "total_supply L1 bal1 + n = total_supply L bal"
    by blast
  moreover from transition_v2_books[OF v2(3-5,2) assms(1-4) this(1,2)] obtain L' bal' where
    "world_at R ab good L' bal' (new_state res)" "ledger_inv (=) L' bal'"
    "total_supply L' bal' + fees_v2 params res = total_supply L1 bal1"
    by blast
  ultimately show ?case
    by (intro exI[of _ L'] exI[of _ bal']) simp
qed

theorem transactions_keep_books_witness:
  "\<exists>res rcps L' bal'. transition_v1 ledger_runtime cached_runtime ledger_world (example_tx [TopUpDeposit 1 10] 500000)
      example_block = Some res \<and> receipt res = Some rcps \<and> tr_error res = None \<and>
     world_at ledger_runtime ledger_of sound L' bal' (new_state res) \<and> ledger_inv (=) L' bal' \<and>
     total_supply L' bal' + fees_v1 example_block (example_tx [TopUpDeposit 1 10] 500000) res = 1000001500"
proof -
  obtain res rcps where run: "transition_v1 ledger_runtime cached_runtime ledger_world
    (example_tx [TopUpDeposit 1 10] 500000) example_block = Some res" "receipt res = Some rcps" "tr_error res = None"
    using topup_run_v1 by blast
  have "transactions ledger_runtime ledger_world
      (0 + fees_v1 example_block (example_tx [TopUpDeposit 1 10] 500000) res) (new_state res)"
    by (rule transactions.v1[OF transactions.start cached_runtime_apart run(1)]) (simp_all add: U64_MAX_def)
  from transactions_keep_books[OF ledger_ws_laws ledger_runtime_laws ledger_reads_live ledger_apart ledger_world_at
      example_ledger_inv[OF tally_eq] this] run
  show ?thesis
    by (simp add: example_supply)
qed

end
