(* ===== verification/Epoch_Properties.thy ===== *)
theory Epoch_Properties
  imports Transition_Properties
begin

text \<open>
  What a next epoch transaction, the upgrade of the world state and a view call do, end to end.
\<close>

section \<open>Next epoch transactions\<close>

definition valid_epoch_tx :: "'w ws_ops \<Rightarrow> 'w \<Rightarrow> transaction \<Rightarrow> blockchain_params \<Rightarrow> bool" where
  "valid_epoch_tx W w tx params \<longleftrightarrow>
     tx_commands tx = [NextEpoch] \<and> bp_validator_performance params \<noteq> None \<and>
     at_nonce W w (tx_signer tx) = Some (tx_nonce tx)"

lemma metadata_fields [simp]:
  "signer (txn_metadata_of ver tx) = tx_signer tx" "nonce (txn_metadata_of ver tx) = tx_nonce tx"
  "command_kinds (txn_metadata_of ver tx) = map command_kind_of (tx_commands tx)"
  by (simp_all add: txn_metadata_of_def)

lemma epoch_transaction_cases:
  assumes "execute_next_epoch_command R F (initial_state self ver w (txn_metadata_of ver tx) params limit)
      (tx_commands tx) = Some res"
  obtains (invalid) "\<not> valid_epoch_tx (rt_ws R) w tx params" "new_state res = w" "receipt res = None"
      "tr_error res = Some InvalidNextEpochCommand" "tr_validator_changes res = None"
    | (valid) st changes w1 where "valid_epoch_tx (rt_ws R) w tx params"
      "next_epoch R (initial_state self ver w (txn_metadata_of ver tx) params limit) = Some (st, changes)"
      "at_set_nonce (rt_ws R) (ws (es_cache st)) (tx_signer tx) (saturating_add (tx_nonce tx) 1) = Some w1"
      "handle_post_execution R F (set_es_cache st ((es_cache st)\<lparr>ws := w1\<rparr>)) changes = Some res"
proof -
  obtain n where n: "at_nonce (rt_ws R) w (tx_signer tx) = Some n"
    using assms by (auto simp: execute_next_epoch_command_def bind_convs Let_def)
  show thesis
  proof (cases "valid_epoch_tx (rt_ws R) w tx params")
    case False
    then show thesis
      using assms n invalid
      by (auto simp: execute_next_epoch_command_def valid_epoch_tx_def Let_def bind_convs
          handle_invalid_next_epoch_command_def length_Suc_conv split: if_split_asm)
  next
    case True
    then show thesis
      using assms n valid
      by (auto simp: execute_next_epoch_command_def valid_epoch_tx_def Let_def bind_convs)
  qed
qed

lemma set_es_cache_twice [simp]: "set_es_cache (set_es_cache st s) s' = set_es_cache st s'"
  by (simp add: set_es_cache_def set_gas_free_ws_cache_def)

lemma post_execution_eq:
  "handle_post_execution R F (set_es_cache (initial_state self ver w meta params limit) s) changes =
     commit_to_world_state (rt_ws R) s \<bind> (\<lambda>w'.
       f_into_receipt F [f_command_receipt F KNextEpoch Ok 0 (fst (oc_take oc_default))] 0 (command_kinds meta) \<bind> (\<lambda>r.
         Some \<lparr>new_state = w', receipt = Some r, tr_error = None, tr_validator_changes = Some changes\<rparr>))"
  by (simp add: handle_post_execution_def finalize_cmd_receipt_collect_deferred_def finalize_receipt_def
      complete_cmd_execution_def take_current_command_result_def case_prod_beta Let_def bind_convs
      initial_state_def es_new_def ctx_new_def set_es_cache_def set_gas_free_ws_cache_def gm_new_def es_gm_def
      es_cache_def gas_free_ws_cache_def gu_chargeable_cost_def cc_simps push_command_receipt_def
      total_gas_used_for_executed_commands_def sat_defs)

lemma post_execution_result:
  assumes "handle_post_execution R F (set_es_cache (initial_state self ver w meta params limit) s) changes = Some res"
  shows "commit_to_world_state (rt_ws R) s = Some (new_state res)"
    "\<exists>r. f_into_receipt F [f_command_receipt F KNextEpoch Ok 0 (fst (oc_take oc_default))] 0
       (command_kinds meta) = Some r \<and> receipt res = Some r"
    "tr_error res = None" "tr_validator_changes res = Some changes"
  using assms unfolding post_execution_eq by (auto simp: bind_convs)

lemma epoch_world:
  assumes "next_epoch R (initial_state self ver w meta params limit) = Some (st, changes)"
    and "at_set_nonce (rt_ws R) (ws (es_cache st)) (signer meta) (saturating_add (nonce meta) 1) = Some w1"
    and "handle_post_execution R F (set_es_cache st ((es_cache st)\<lparr>ws := w1\<rparr>)) changes = Some res"
    and "ws_laws (rt_ws R)"
  shows "at_balance (rt_ws R) (new_state res) = at_balance (rt_ws R) w"
    "at_nonce (rt_ws R) (new_state res) = bumped (rt_ws R) w meta"
    "at_cbi_version (rt_ws R) (new_state res) = at_cbi_version (rt_ws R) w"
    "at_code (rt_ws R) (new_state res) = at_code (rt_ws R) w"
    "\<And>a k. a \<noteq> NETWORK_ADDRESS (rt_net R) \<Longrightarrow>
       live (st_get (rt_ws R) (new_state res) a k) = live (st_get (rt_ws R) w a k)"
    "tr_error res = None" "tr_validator_changes res = Some changes"
    "\<exists>r. f_into_receipt F [f_command_receipt F KNextEpoch Ok 0 (fst (oc_take oc_default))] 0
       (command_kinds meta) = Some r \<and> receipt res = Some r"
    "\<And>a k. live (st_get (rt_ws R) (new_state res) a k) = live (wsc_storage_view (rt_ws R) (es_cache st) (a, k))"
proof -
  let ?W = "rt_ws R"
  obtain s where s: "st = set_es_cache (initial_state self ver w meta params limit) s"
    "wsc_frame ?W {} {} {NETWORK_ADDRESS (rt_net R)} (wsc_new w) s"
    using next_epoch_frame[OF assms(1)] by auto
  have cache: "es_cache st = s"
    by (simp add: s(1))
  have step: "wsc_step ?W (wsc_new w) s"
    using s(2) by (rule wsc_frame_step)
  then have ws: "ws s = w" and distinct: "wsc_writes_distinct (s\<lparr>ws := w1\<rparr>)"
    using wsc_step_ws[OF step] wsc_step_inv[OF step wsc_inv_new]
    by (simp_all add: wsc_inv_def wsc_writes_distinct_def)
  note laws = ws_laws_nonce[OF assms(4) assms(2)[unfolded cache ws]]
  have views: "wsc_balance_view ?W (s\<lparr>ws := w1\<rparr>) = wsc_balance_view ?W s"
    using laws(2) ws by (intro ext) (simp add: wsc_balance_view_def split: option.split)
  have same: "same_contents ?W s (s\<lparr>ws := w1\<rparr>)"
    using laws ws by (simp add: same_contents_def wsc_views wsc_storage_base_def)
  note post = post_execution_result[OF assms(3)[unfolded s(1) set_es_cache_twice set_es_cache_simps(1)]]
  note reads = commit_reads[OF assms(4) distinct post(1) same, unfolded world_reads_def views]
  note new = clean_views[OF wsc_clean_new, of ?W w]
  show "at_balance ?W (new_state res) = at_balance ?W w" "at_cbi_version ?W (new_state res) = at_cbi_version ?W w"
    "at_code ?W (new_state res) = at_code ?W w"
    using reads s(2) new(1-3) by (simp_all add: wsc_frame_def fun_eq_iff)
  show "at_nonce ?W (new_state res) = bumped ?W w meta"
    using reads laws(1) by (simp add: bumped_def)
  show "live (st_get ?W (new_state res) a k) = live (wsc_storage_view ?W (es_cache st) (a, k))" for a k
    using reads cache by simp
  show "live (st_get ?W (new_state res) a k) = live (st_get ?W w a k)" if "a \<noteq> NETWORK_ADDRESS (rt_net R)" for a k
    using that reads s(2) new(4) by (simp add: wsc_frame_def)
  show "tr_error res = None" "tr_validator_changes res = Some changes"
    "\<exists>r. f_into_receipt F [f_command_receipt F KNextEpoch Ok 0 (fst (oc_take oc_default))] 0
       (command_kinds meta) = Some r \<and> receipt res = Some r"
    by (rule post)+
qed

text \<open>What a valid next epoch transaction does to the world state.\<close>

definition epoch_effect ::
  "'w ws_ops \<Rightarrow> public_address \<Rightarrow> 'w \<Rightarrow> txn_metadata \<Rightarrow> 'w \<Rightarrow> bool" where
  "epoch_effect W network w meta w' \<longleftrightarrow>
     at_balance W w' = at_balance W w \<and> at_nonce W w' = bumped W w meta \<and>
     at_cbi_version W w' = at_cbi_version W w \<and> at_code W w' = at_code W w \<and>
     (\<forall>a k. a \<noteq> network \<longrightarrow> live (st_get W w' a k) = live (st_get W w a k))"

text \<open>How a transaction with a next epoch command may end; \<open>free\<close> is the receipt of one that went through.\<close>

definition epoch_verdict ::
  "'w ws_ops \<Rightarrow> public_address \<Rightarrow> txn_version \<Rightarrow> ('r \<Rightarrow> bool) \<Rightarrow> 'w \<Rightarrow> transaction \<Rightarrow> blockchain_params \<Rightarrow>
   ('w, 'r) transition_result \<Rightarrow> bool" where
  "epoch_verdict W network ver free w tx params res \<longleftrightarrow>
     (if valid_epoch_tx W w tx params
      then epoch_effect W network w (txn_metadata_of ver tx) (new_state res) \<and> tr_error res = None \<and>
        tr_validator_changes res \<noteq> None \<and> (\<exists>r. receipt res = Some r \<and> free r)
      else new_state res = w \<and> receipt res = None \<and> tr_error res = Some InvalidNextEpochCommand \<and>
        tr_validator_changes res = None)"

definition free_v1 :: "receipt_v1 \<Rightarrow> bool" where
  "free_v1 rcps \<longleftrightarrow> (\<exists>r. rcps = [r] \<and> succeeded_v1 r \<and> r1_gas_used r = 0)"

definition free_v2 :: "receipt_v2 \<Rightarrow> bool" where
  "free_v2 rcp \<longleftrightarrow> r2_gas_used rcp = 0 \<and> r2_exit_code rcp = Ok_V2 \<and>
     (\<exists>r. r2_command_receipts rcp = [r] \<and> receipt_kind r = KNextEpoch \<and> succeeded_v2 r \<and> gas_used_of_v2 r = 0)"

lemma epoch_ends:
  assumes run: "execute_next_epoch_command R F (initial_state self ver w (txn_metadata_of ver tx) params limit)
      (tx_commands tx) = Some res" and "ws_laws (rt_ws R)"
    and free: "\<And>out r. f_into_receipt F [f_command_receipt F KNextEpoch Ok 0 out] 0 [KNextEpoch] = Some r \<Longrightarrow> free r"
  shows "epoch_verdict (rt_ws R) (NETWORK_ADDRESS (rt_net R)) ver free w tx params res"
  using run
proof (cases rule: epoch_transaction_cases)
  case (valid st changes w1)
  note world = epoch_world[OF valid(2) _ valid(4) assms(2)]
  have "epoch_effect (rt_ws R) (NETWORK_ADDRESS (rt_net R)) w (txn_metadata_of ver tx) (new_state res)"
    using world valid(3) by (simp add: epoch_effect_def)
  moreover have "\<exists>r. receipt res = Some r \<and> free r"
    using world(8) valid(1,3) free by (auto simp: valid_epoch_tx_def)
  ultimately show ?thesis
    using valid world(6,7) by (simp add: epoch_verdict_def)
qed (simp add: epoch_verdict_def)

lemma epoch_receipts_free:
  "f_into_receipt finalize_v1 [f_command_receipt finalize_v1 KNextEpoch Ok 0 out] 0 [KNextEpoch] = Some r1 \<Longrightarrow> free_v1 r1"
  "f_into_receipt finalize_v2 [f_command_receipt finalize_v2 KNextEpoch Ok 0 out] 0 [KNextEpoch] = Some r2 \<Longrightarrow> free_v2 r2"
  by (auto simp: finalize_v1_def into_receipt_v1_def command_receipt_v1_of_def succeeded_v1_def free_v1_def
      finalize_v2_def into_receipt_v2_def command_receipt_v2_of_def succeeded_v2_def gas_used_of_v2_def free_v2_def Let_def)

lemma epoch_outcome:
  assumes "execute_next_epoch_v1 R (initial_state self V1 w (txn_metadata_of V1 tx) params limit)
      (tx_commands tx) = Some res" and "ws_laws (rt_ws R)"
  shows "epoch_verdict (rt_ws R) (NETWORK_ADDRESS (rt_net R)) V1 free_v1 w tx params res"
  by (rule epoch_ends[OF assms(1)[unfolded execute_next_epoch_v1_def] assms(2) epoch_receipts_free(1)])

text \<open>C12: A transaction with a next epoch command, of either version, is a next epoch transaction or nothing.
  If it is that one command, comes with the performance of the validators and has the right nonce, it
  reports the changes of the validator set in a receipt of its version that costs no gas, uses up the
  nonce and changes nothing but the storage of the network account; otherwise it is invalid and leaves
  the world state exactly as it was.\<close>

theorem epoch_transaction:
  assumes "NextEpoch \<in> set (tx_commands tx)" and "ws_laws (rt_ws R)"
  shows "(transition_v1 R self w tx params = Some res1 \<longrightarrow>
      epoch_verdict (rt_ws R) (NETWORK_ADDRESS (rt_net R)) V1 free_v1 w tx params res1) \<and>
    (transition_v2 R self w tx params = Some res2 \<longrightarrow>
      epoch_verdict (rt_ws R) (NETWORK_ADDRESS (rt_net R)) V2 free_v2 w tx params res2)"
proof -
  have "list_ex (\<lambda>c. c = NextEpoch) (tx_commands tx)"
    using assms(1) by (auto simp: list_ex_iff)
  then have to: "transition_v1 R self w tx params = execute_next_epoch_command R finalize_v1
      (initial_state self V1 w (txn_metadata_of V1 tx) params (tx_gas_limit tx)) (tx_commands tx)"
    "transition_v2 R self w tx params = execute_next_epoch_command R finalize_v2
      (initial_state self V2 w (txn_metadata_of V2 tx) params (tx_gas_limit tx)) (tx_commands tx)"
    by (simp_all add: transition_v1_def transition_v2_def Let_def txn_metadata_from_v1_def txn_metadata_from_v2_def
        txn_metadata_of_def execute_next_epoch_v1_def execute_next_epoch_v2_def)
  show ?thesis
    unfolding to by (intro conjI impI; erule epoch_ends[OF _ assms(2)], erule epoch_receipts_free)
qed

definition epoch_block :: blockchain_params where
  "epoch_block = example_block\<lparr>bp_validator_performance :=
     Some \<lparr>blocks_per_epoch = 100, vp_stats = [(1, \<lparr>num_of_proposed_blocks = 60\<rparr>)]\<rparr>\<rparr>"

lemmas epoch_evals = next_epoch_def next_epoch_on_def epoch_block_def kv_network_defs to_le_bytes_8 ws_nas_def
  execute_next_epoch_v1_def execute_next_epoch_command_def handle_post_execution_def
  handle_invalid_next_epoch_command_def

lemma epoch_run:
  "\<exists>res. transition_v1 kv_runtime runtime_new example_world (example_tx [NextEpoch] 0) epoch_block = Some res"
  "\<exists>res. transition_v2 kv_runtime runtime_new example_world (example_tx [NextEpoch] 0) epoch_block = Some res"
  by (simp_all add: epoch_evals transition_evals execute_next_epoch_v2_def cong: eval_congs)

theorem epoch_transaction_witness:
  "\<exists>res1 res2. transition_v1 kv_runtime runtime_new example_world (example_tx [NextEpoch] 0) epoch_block = Some res1 \<and>
     transition_v2 kv_runtime runtime_new example_world (example_tx [NextEpoch] 0) epoch_block = Some res2 \<and>
     tr_error res1 = None \<and> at_balance kv_ops (new_state res1) 1 = Some 1000000000 \<and> (\<exists>r. receipt res1 = Some r \<and> free_v1 r) \<and>
     tr_error res2 = None \<and> at_balance kv_ops (new_state res2) 1 = Some 1000000000 \<and> (\<exists>r. receipt res2 = Some r \<and> free_v2 r)"
proof -
  obtain res1 res2 where run:
    "transition_v1 kv_runtime runtime_new example_world (example_tx [NextEpoch] 0) epoch_block = Some res1"
    "transition_v2 kv_runtime runtime_new example_world (example_tx [NextEpoch] 0) epoch_block = Some res2"
    using epoch_run by blast
  have "valid_epoch_tx kv_ops example_world (example_tx [NextEpoch] 0) epoch_block"
    by (simp add: valid_epoch_tx_def epoch_block_def example_world_def kv_world_evals example_tx_def)
  moreover have "at_balance kv_ops example_world 1 = Some 1000000000"
    by (simp add: example_world_def kv_world_evals)
  moreover have "NextEpoch \<in> set (tx_commands (example_tx [NextEpoch] 0))" "ws_laws (rt_ws kv_runtime)"
    by (simp_all add: example_tx_def kv_ops_laws)
  ultimately show ?thesis
    using run epoch_transaction[of "example_tx [NextEpoch] 0" kv_runtime runtime_new example_world epoch_block res1 res2]
    by (simp add: epoch_effect_def epoch_verdict_def)
qed

section \<open>The upgrade\<close>

text \<open>C23: The upgrade of the world state is all or nothing: it delivers the upgraded world state
  together with the receipt and the validator changes exactly when the next epoch transaction was
  valid and the upgrade of the state it left succeeded; otherwise it delivers the error alone.\<close>

theorem upgrade_all_or_nothing:
  assumes "transition_v1_to_v2 R upgrade self w tx params = Some res" and "ws_laws (rt_ws R)"
  shows "case up_new_state res of
      Some u \<Rightarrow> valid_epoch_tx (rt_ws R) w tx params \<and> up_error res = None \<and>
        up_receipt res \<noteq> None \<and> up_validator_changes res \<noteq> None \<and>
        (\<exists>w'. upgrade w' = Some u \<and>
          epoch_effect (rt_ws R) (NETWORK_ADDRESS (rt_net R)) w (txn_metadata_of V1 tx) w')
    | None \<Rightarrow> up_receipt res = None \<and> up_validator_changes res = None \<and>
        up_error res = Some (if valid_epoch_tx (rt_ws R) w tx params then FailedWorldStateUpgrade
          else InvalidNextEpochCommand)"
proof -
  obtain r where run: "execute_next_epoch_v1 R (initial_state self V1 w (txn_metadata_of V1 tx) params
      (tx_gas_limit tx)) (tx_commands tx) = Some r"
    using assms(1)
    by (auto simp: transition_v1_to_v2_def Let_def txn_metadata_from_v1_def txn_metadata_of_def bind_convs)
  note out = epoch_outcome[OF run assms(2)]
  have "res = (if tr_error r \<noteq> None then
       \<lparr>up_new_state = None, up_receipt = None, up_error = tr_error r, up_validator_changes = None\<rparr>
     else case upgrade (new_state r) of
               Some u \<Rightarrow> \<lparr>up_new_state = Some u, up_receipt = receipt r, up_error = None,
                          up_validator_changes = tr_validator_changes r\<rparr>
             | None \<Rightarrow> \<lparr>up_new_state = None, up_receipt = None,
                         up_error = Some FailedWorldStateUpgrade, up_validator_changes = None\<rparr>)"
    using assms(1) run
    by (auto simp: transition_v1_to_v2_def Let_def txn_metadata_from_v1_def txn_metadata_of_def split: if_split_asm)
  then show ?thesis
    using out by (auto simp: epoch_verdict_def split: if_split_asm option.split)
qed

lemma upgrade_run:
  "\<exists>res. transition_v1_to_v2 kv_runtime Some runtime_new example_world (example_tx [NextEpoch] 0) epoch_block =
     Some res \<and> up_new_state res \<noteq> None"
  by (simp add: transition_v1_to_v2_def epoch_evals transition_evals cong: eval_congs)

theorem upgrade_all_or_nothing_witness:
  "\<exists>res u. transition_v1_to_v2 kv_runtime Some runtime_new example_world (example_tx [NextEpoch] 0) epoch_block =
      Some res \<and> up_new_state res = Some u \<and> up_receipt res \<noteq> None \<and> at_balance kv_ops u 1 = Some 1000000000"
proof -
  obtain res u where run: "transition_v1_to_v2 kv_runtime Some runtime_new example_world (example_tx [NextEpoch] 0)
      epoch_block = Some res" "up_new_state res = Some u"
    using upgrade_run by auto
  have "at_balance kv_ops example_world 1 = Some 1000000000"
    by (simp add: example_world_def kv_world_evals)
  then show ?thesis
    using run upgrade_all_or_nothing[OF run(1)] by (auto simp: kv_ops_laws epoch_effect_def)
qed

section \<open>View calls\<close>

lemma view_gas:
  fixes st' :: "('w, 'c, 'e) execution_state" and R :: "('w, 'c, 'm, 'v) runtime"
  assumes "call R (initial_state self V1 w meta params limit) True target method args None = Some (res, st')"
  shows "fst (fst (complete_cmd_execution (ctx st'))) \<le> limit"
proof -
  have "gm_gas_limit (es_gm st') = limit"
    using view_cmd.keeps[OF assms] by (simp add: es_keeps_def gm_new_def)
  then show ?thesis
    by (auto simp: complete_cmd_execution_def take_current_command_result_def case_prod_beta Let_def
        saturating_sub_def es_gm_def)
qed

text \<open>C28: A view call answers for the gas limit it was given: the gas of its receipt is within the
  limit and the receipt reports a success exactly when no error is returned, in both receipt
  versions.\<close>

theorem view_receipts:
  "(view_v1 R self w limit target method args = Some (r1, e1) \<longrightarrow>
      r1_gas_used r1 \<le> limit \<and> (succeeded_v1 r1 \<longleftrightarrow> e1 = None)) \<and>
   (view_v2 R self w limit target method args = Some (r2, e2) \<longrightarrow>
      gas_used_of_v2 r2 \<le> limit \<and> receipt_kind r2 = KCall \<and> (succeeded_v2 r2 \<longleftrightarrow> e2 = None))"
  by (auto simp: view_v1_def view_v2_def execute_view_v1_def execute_view_v2_def bind_convs case_prod_beta Let_def
      succeeded_v1_def succeeded_v2_def gas_used_of_v2_def exit_code_v1_of_def exit_code_v2_of_def
      split: sum.split_asm if_split_asm dest: view_gas)

lemma view_run:
  "\<exists>r e. view_v2 kv_runtime runtime_new example_world 10000 5 ''f'' None = Some (r, e)"
  by (simp add: view_v2_def execute_view_v2_def call_def call_contract_def
      call_instance_instantiate_def txn_metadata_default_def blockchain_params_default_def
      transition_evals cong: eval_congs)

theorem view_receipts_witness:
  "\<exists>r e. view_v2 kv_runtime runtime_new example_world 10000 5 ''f'' None = Some (r, e) \<and>
     gas_used_of_v2 r \<le> 10000"
  using view_run view_receipts[of kv_runtime runtime_new example_world 10000 5 "''f''" None] by blast

end
