(* ===== verification/Epoch_Ledger.thy ===== *)
theory Epoch_Ledger
  imports Staking_Invariant Protocol_Commands
begin

text \<open>
  The next epoch command on the staking ledger. Beside the ledger the command reads and replaces the
  validator sets; \<open>epoch_laws\<close> states what it relies on of the network account, over the storage that
  is free of charge. Each phase of \<^verbatim>\<open>next_epoch\<close> is then followed on the ledger: the rewards that are
  paid into the deposits, the stakes that grow by them, and the rotation of the validator sets.
\<close>

section \<open>Validator sets\<close>

text \<open>
  The pools of the current and of the previous validator set with their delegated stakes, and the
  number of the epoch.
\<close>

record validators =
  v_epoch :: u64
  v_current :: "(pool \<times> stake list) list"
  v_previous :: "(pool \<times> stake list) list"

text \<open>The order in which the next validator set and the delegated stakes of a pool are listed.\<close>

record layout =
  ly_nvp :: "public_address list"
  ly_stakes :: "public_address \<Rightarrow> stake list"

definition index_of :: "public_address \<Rightarrow> (pool \<times> stake list) list \<Rightarrow> nat option" where
  "index_of op xs = find (\<lambda>i. pl_operator (fst (xs ! i)) = op) [0..<length xs]"

text \<open>The power that a validator set locks of an account's stake in a pool.\<close>

definition locked_by :: "(pool \<times> stake list) list \<Rightarrow> public_address \<Rightarrow> public_address \<Rightarrow> u64" where
  "locked_by xs op own = (case find (\<lambda>x. pl_operator (fst x) = op) xs of None \<Rightarrow> 0
     | Some (p, ss) \<Rightarrow> if op = own then own_stake p
         else case_option 0 id (map_of (map stake_entry ss) own))"

text \<open>The ledger without what it shows of the validator sets.\<close>

definition plain :: "ledger \<Rightarrow> ledger" where
  "plain L = L\<lparr>l_vp := (\<lambda>_. None), l_pvp := (\<lambda>_. None), l_vs_operator_stake := (\<lambda>_. None),
     l_vs_delegated := (\<lambda>_ _. None)\<rparr>"

section \<open>What the methods of the network account promise\<close>

definition pay_laws :: "network_account \<Rightarrow> 's nas \<Rightarrow> ('s \<Rightarrow> ledger) \<Rightarrow> ('s \<Rightarrow> bool) \<Rightarrow> bool" where
  "pay_laws N I led ok \<longleftrightarrow> (\<forall>op a n b.
     answers I led ok (d_balance (deposits N) op a) (\<lambda>L. l_deposit L op a) \<and>
     answers I led ok (d_auto_stake_rewards (deposits N) op a) (\<lambda>L. l_auto L op a) \<and>
     updates I led ok (d_set_balance (deposits N) op a n) any
       (\<lambda>L. L\<lparr>l_deposit := upd2 (l_deposit L) op a (Some n)\<rparr>) \<and>
     updates I led ok (d_set_auto_stake_rewards (deposits N) op a b) any
       (\<lambda>L. L\<lparr>l_auto := upd2 (l_auto L) op a (Some b)\<rparr>))"

text \<open>A pool of the current set is read through the handle \<open>hnd i\<close> of its place.\<close>

definition holding ::
  "('s \<Rightarrow> validators) \<Rightarrow> nat \<Rightarrow> pool \<times> stake list \<Rightarrow> ('s \<Rightarrow> bool) \<Rightarrow> 's \<Rightarrow> bool" where
  "holding vb i x ok s \<longleftrightarrow> ok s \<and> i < length (v_current (vb s)) \<and> v_current (vb s) ! i = x"

abbreviation place_answers ::
  "'s nas \<Rightarrow> ('s \<Rightarrow> ledger) \<Rightarrow> ('s \<Rightarrow> validators) \<Rightarrow> ('s \<Rightarrow> bool) \<Rightarrow> nat \<Rightarrow> pool \<Rightarrow> stake list \<Rightarrow> 'a na_prog \<Rightarrow> 'a \<Rightarrow> bool"
where
  "place_answers I led vb ok i p ss q v \<equiv> answers I (\<lambda>s. (led s, vb s)) (holding vb i (p, ss) ok) q (\<lambda>_. v)"

definition set_read_laws ::
  "network_account \<Rightarrow> 's nas \<Rightarrow> ('s \<Rightarrow> ledger) \<Rightarrow> ('s \<Rightarrow> validators) \<Rightarrow> (nat \<Rightarrow> pool_handle) \<Rightarrow> ('s \<Rightarrow> bool) \<Rightarrow> bool" where
  "set_read_laws N I led vb hnd ok \<longleftrightarrow>
     answers I (\<lambda>s. (led s, vb s)) ok (na_current_epoch N) (\<lambda>A. v_epoch (snd A)) \<and>
     answers I (\<lambda>s. (led s, vb s)) ok (vs_length (vp N)) (\<lambda>A. length (v_current (snd A))) \<and>
     (\<forall>op. answers I (\<lambda>s. (led s, vb s)) ok (vs_pool (vp N) op)
        (\<lambda>A. map_option hnd (index_of op (v_current (snd A))))) \<and>
     (\<forall>i p ss.
        place_answers I led vb ok i p ss (vs_pool_at (vp N) i) (Some (hnd i)) \<and>
        place_answers I led vb ok i p ss (p_operator (vs_pools N) (hnd i)) (Some (pl_operator p)) \<and>
        place_answers I led vb ok i p ss (p_commission_rate (vs_pools N) (hnd i)) (Some (pl_commission_rate p)) \<and>
        place_answers I led vb ok i p ss (p_power (vs_pools N) (hnd i)) (Some (pl_power p)) \<and>
        place_answers I led vb ok i p ss (p_operator_stake (vs_pools N) (hnd i)) (Some (pl_operator_stake p)) \<and>
        place_answers I led vb ok i p ss (ds_length (vs_pools N) (hnd i)) (length ss) \<and>
        (\<forall>j < length ss. place_answers I led vb ok i p ss (ds_get (vs_pools N) (hnd i) j) (Some (ss ! j))))"

text \<open>A set has room for \<open>most\<close> pools with \<open>seats\<close> delegated stakes each.\<close>

definition set_write_laws ::
  "network_account \<Rightarrow> 's nas \<Rightarrow> ('s \<Rightarrow> ledger \<times> validators \<times> layout) \<Rightarrow> nat \<Rightarrow> nat \<Rightarrow> ('s \<Rightarrow> bool) \<Rightarrow> bool" where
  "set_write_laws N I ab most seats ok \<longleftrightarrow>
     updates I ab ok (vs_clear (pvp N)) any (\<lambda>(L, V, ly). (L, V\<lparr>v_previous := []\<rparr>, ly)) \<and>
     updates I ab ok (vs_clear (vp N)) any (\<lambda>(L, V, ly). (L, V\<lparr>v_current := []\<rparr>, ly)) \<and>
     (\<forall>p ss. updates I ab ok (vs_push (pvp N) p ss)
        (\<lambda>(L, V, ly). length (v_previous V) < most \<and> length ss \<le> seats)
        (\<lambda>(L, V, ly). (L, V\<lparr>v_previous := v_previous V @ [(p, ss)]\<rparr>, ly))) \<and>
     (\<forall>p ss. updates I ab ok (vs_push (vp N) p ss)
        (\<lambda>(L, V, ly). length (v_current V) < most \<and> length ss \<le> seats)
        (\<lambda>(L, V, ly). (L, V\<lparr>v_current := v_current V @ [(p, ss)]\<rparr>, ly))) \<and>
     (\<forall>n. updates I ab ok (na_set_current_epoch N n) any (\<lambda>(L, V, ly). (L, V\<lparr>v_epoch := n\<rparr>, ly)))"

definition promote_laws ::
  "network_account \<Rightarrow> 's nas \<Rightarrow> ('s \<Rightarrow> ledger \<times> validators \<times> layout) \<Rightarrow> ('s \<Rightarrow> bool) \<Rightarrow> bool" where
  "promote_laws N I ab ok \<longleftrightarrow>
     answers I ab ok (nvp_length (nvp N)) (\<lambda>(L, V, ly). length (ly_nvp ly)) \<and>
     (\<forall>i. answers I ab ok (nvp_get (nvp N) i) (\<lambda>(L, V, ly). if i < length (ly_nvp ly)
        then Some \<lparr>pk_operator = ly_nvp ly ! i, pk_power = the (l_nvp L (ly_nvp ly ! i))\<rparr> else None)) \<and>
     (\<forall>op. answers I ab ok (p_operator (pools N) op) (\<lambda>(L, V, ly). l_operator L op) \<and>
       answers I ab ok (p_commission_rate (pools N) op) (\<lambda>(L, V, ly). l_rate L op) \<and>
       answers I ab ok (p_power (pools N) op) (\<lambda>(L, V, ly). l_power L op) \<and>
       answers I ab ok (p_operator_stake (pools N) op) (\<lambda>(L, V, ly). l_operator_stake L op) \<and>
       answers I ab ok (ds_unordered_values (pools N) op) (\<lambda>(L, V, ly). ly_stakes ly op))"

text \<open>
  A sound state lists the next validator set and the delegated stakes without repetition, within the
  room of the sets, and locks the stakes of the sets.
\<close>

definition listed :: "nat \<Rightarrow> nat \<Rightarrow> ledger \<Rightarrow> validators \<Rightarrow> layout \<Rightarrow> bool" where
  "listed most seats L V ly \<longleftrightarrow>
     distinct (ly_nvp ly) \<and> set (ly_nvp ly) = dom (l_nvp L) \<and> length (ly_nvp ly) \<le> most \<and>
     (\<forall>op. distinct (map owner (ly_stakes ly op)) \<and> map_of (map stake_entry (ly_stakes ly op)) = l_delegated L op \<and>
       length (ly_stakes ly op) \<le> seats) \<and>
     locked_in l_vp L = locked_by (v_current V) \<and> locked_in l_pvp L = locked_by (v_previous V)"

definition epoch_laws ::
  "network_account \<Rightarrow> 's nas \<Rightarrow> ('s \<Rightarrow> ledger) \<Rightarrow> ('s \<Rightarrow> validators) \<Rightarrow> ('s \<Rightarrow> layout) \<Rightarrow> (nat \<Rightarrow> pool_handle) \<Rightarrow>
   nat \<Rightarrow> nat \<Rightarrow> ('s \<Rightarrow> bool) \<Rightarrow> bool" where
  "epoch_laws N I led vb lay hnd most seats ok \<longleftrightarrow>
     (\<forall>V. raise_laws N I led (\<lambda>s. ok s \<and> vb s = V) \<and> pay_laws N I led (\<lambda>s. ok s \<and> vb s = V)) \<and>
     set_read_laws N I led vb hnd ok \<and>
     set_write_laws N I (\<lambda>s. (plain (led s), vb s, lay s)) most seats ok \<and>
     promote_laws N I (\<lambda>s. (plain (led s), vb s, lay s)) ok \<and>
     (\<forall>s. ok s \<longrightarrow> listed most seats (led s) (vb s) (lay s))"

lemma epoch_laws_parts:
  assumes "epoch_laws N I led vb lay hnd most seats ok"
  shows "raise_laws N I led (\<lambda>s. ok s \<and> vb s = V)" "pay_laws N I led (\<lambda>s. ok s \<and> vb s = V)"
    "set_read_laws N I led vb hnd ok"
    "set_write_laws N I (\<lambda>s. (plain (led s), vb s, lay s)) most seats ok"
    "promote_laws N I (\<lambda>s. (plain (led s), vb s, lay s)) ok"
    "ok s \<Longrightarrow> listed most seats (led s) (vb s) (lay s)"
  using assms by (simp_all add: epoch_laws_def)

text \<open>A state with a ledger and validator sets.\<close>

abbreviation at_sets ::
  "('s \<Rightarrow> ledger) \<Rightarrow> ('s \<Rightarrow> validators) \<Rightarrow> ('s \<Rightarrow> bool) \<Rightarrow> ledger \<Rightarrow> validators \<Rightarrow> 's \<Rightarrow> bool" where
  "at_sets led vb ok L V \<equiv> at_ledger (\<lambda>s. (led s, vb s)) ok (L, V)"

lemma at_pair: "at_sets led vb ok L V s \<longleftrightarrow> at_ledger led (\<lambda>s. ok s \<and> vb s = V) L s"
  by (auto simp: at_ledger_def)

lemma at_place:
  assumes "i < length (v_current V)" "v_current V ! i = x"
  shows "at_sets led vb (holding vb i x ok) L V s \<longleftrightarrow> at_sets led vb ok L V s"
  using assms by (auto simp: at_ledger_def holding_def)

section \<open>Loops\<close>

lemma for_each_runs:
  assumes "\<And>x s. x \<in> set xs \<Longrightarrow> P s \<Longrightarrow> runs (f x s) (\<lambda>y s'. y = g x \<and> P s')" and "P s"
  shows "runs (for_each f xs s) (\<lambda>ys s'. ys = map g xs \<and> P s')"
  using assms
proof (induction xs arbitrary: s)
  case (Cons x xs)
  from Cons.prems(1)[of x s] Cons.prems(2)
  have "runs (f x s) (\<lambda>y s'. y = g x \<and> P s')"
    by simp
  then show ?case
    unfolding for_each.simps
    by (rule runs_bind) (use Cons in \<open>auto intro!: runs_bind[OF Cons.IH] runs_return\<close>)
qed (simp add: runs_return)

section \<open>Reading the current set\<close>

lemma index_of_nth:
  assumes "distinct (map (pl_operator \<circ> fst) xs)" "i < length xs"
  shows "index_of (pl_operator (fst (xs ! i))) xs = Some i"
proof -
  have "\<forall>j < i. pl_operator (fst (xs ! j)) \<noteq> pl_operator (fst (xs ! i))"
    using assms by (auto simp: distinct_conv_nth)
  then show ?thesis
    using assms(2) unfolding index_of_def find_Some_iff by (intro exI[of _ i]) simp
qed

lemma set_reads:
  assumes "set_read_laws N I led vb hnd ok"
  shows "answers I (\<lambda>s. (led s, vb s)) ok (na_current_epoch N) (\<lambda>A. v_epoch (snd A))"
    "answers I (\<lambda>s. (led s, vb s)) ok (vs_length (vp N)) (\<lambda>A. length (v_current (snd A)))"
    "answers I (\<lambda>s. (led s, vb s)) ok (vs_pool (vp N) op) (\<lambda>A. map_option hnd (index_of op (v_current (snd A))))"
  using assms unfolding set_read_laws_def by blast+

lemma place_reads:
  assumes "set_read_laws N I led vb hnd ok"
  shows "place_answers I led vb ok i p ss (vs_pool_at (vp N) i) (Some (hnd i))"
    "place_answers I led vb ok i p ss (p_operator (vs_pools N) (hnd i)) (Some (pl_operator p))"
    "place_answers I led vb ok i p ss (p_commission_rate (vs_pools N) (hnd i)) (Some (pl_commission_rate p))"
    "place_answers I led vb ok i p ss (p_power (vs_pools N) (hnd i)) (Some (pl_power p))"
    "place_answers I led vb ok i p ss (p_operator_stake (vs_pools N) (hnd i)) (Some (pl_operator_stake p))"
    "place_answers I led vb ok i p ss (ds_length (vs_pools N) (hnd i)) (length ss)"
    "j < length ss \<Longrightarrow> place_answers I led vb ok i p ss (ds_get (vs_pools N) (hnd i) j) (Some (ss ! j))"
  using assms unfolding set_read_laws_def by blast+

lemma read_vp_pool_runs:
  assumes laws: "set_read_laws N I led vb hnd ok" and at: "at_sets led vb ok L V s"
    and i: "i < length (v_current V)"
  shows "runs (read_vp_pool N I i s) (\<lambda>r s'. r = fst (v_current V ! i) \<and> at_sets led vb ok L V s')"
proof -
  obtain p ss where x: "v_current V ! i = (p, ss)"
    by force
  note at_here = at_place[OF i x, of led vb ok L]
  show ?thesis
    unfolding read_vp_pool_def x at_here[symmetric] using at[folded at_here]
    by (auto intro!: place_reads(1-5)[OF laws, where i = i and p = p and ss = ss, THEN answers_bind] runs_return)
qed

lemma read_vp_stakes_runs:
  assumes laws: "set_read_laws N I led vb hnd ok" and at: "at_sets led vb ok L V s"
    and dist: "distinct (map (pl_operator \<circ> fst) (v_current V))" and x: "(p, ss) \<in> set (v_current V)"
  shows "runs (read_vp_stakes N I (pl_operator p) s) (\<lambda>r s'. r = ss \<and> at_sets led vb ok L V s')"
proof -
  obtain i where i: "i < length (v_current V)" "v_current V ! i = (p, ss)"
    using x by (auto simp: in_set_conv_nth)
  have ix: "index_of (pl_operator p) (v_current V) = Some i"
    using index_of_nth[OF dist i(1)] i(2) by simp
  note at_here = at_place[OF i, of led vb ok L]
  have each: "runs (for_each (\<lambda>j s. run_na I (ds_get (vs_pools N) (hnd i) j) s \<bind>
      (\<lambda>(stk, s). stk \<bind> (\<lambda>stk. Some (stk, s)))) [0..<length ss] s1)
    (\<lambda>ys s'. ys = ss \<and> at_sets led vb ok L V s')" if "at_sets led vb ok L V s1" for s1
    by (rule for_each_runs[where xs = "[0..<length ss]" and g = "\<lambda>j. ss ! j" and P = "at_sets led vb ok L V",
        unfolded map_nth, OF _ that])
      (auto simp: at_here[symmetric] intro!: place_reads(7)[OF laws, THEN answers_bind] runs_return)
  show ?thesis
    unfolding read_vp_stakes_def
  proof (rule answers_bind[OF set_reads(3)[OF laws] at], simp only: prod.case snd_conv ix option.map option.case)
    fix s1
    assume "at_sets led vb ok L V s1"
    then show "runs (run_na I (ds_length (vs_pools N) (hnd i)) s1 \<bind> (\<lambda>(n, s). for_each (\<lambda>j s.
        run_na I (ds_get (vs_pools N) (hnd i) j) s \<bind> (\<lambda>(stk, s). stk \<bind> (\<lambda>stk. Some (stk, s)))) [0..<n] s))
      (\<lambda>r s'. r = ss \<and> at_sets led vb ok L V s')"
      using each by (intro answers_bind[OF place_reads(6)[OF laws, where i = i and p = p and ss = ss], where L = "(L, V)"])
        (auto simp: at_here)
  qed
qed

section \<open>Paying the rewards\<close>

definition all_deposits :: "ledger \<Rightarrow> nat" where
  "all_deposits L = (\<Sum>op\<in>UNIV. \<Sum>own\<in>UNIV. deposited L op own)"

text \<open>What of the rewards is to be staked for an account.\<close>

type_synonym rewards = "(public_address \<times> public_address \<times> u64) list"

definition to_stake :: "rewards \<Rightarrow> public_address \<Rightarrow> public_address \<Rightarrow> nat" where
  "to_stake autos op own = (\<Sum>(o', w, n)\<leftarrow>autos. if o' = op \<and> w = own then n else 0)"

lemma to_stake_simps [simp]:
  "to_stake [] op own = 0"
  "to_stake ((o', w, n) # autos) op own = (if o' = op \<and> w = own then n else 0) + to_stake autos op own"
  "to_stake (autos @ bs) op own = to_stake autos op own + to_stake bs op own"
  by (simp_all add: to_stake_def)

definition settings_kept :: "ledger \<Rightarrow> bool" where
  "settings_kept L \<longleftrightarrow> (\<forall>op own. l_auto L op own \<noteq> None \<longrightarrow> l_deposit L op own \<noteq> None)"

text \<open>
  Payments into the deposits that raise them by \<open>inc\<close>, by at most \<open>k\<close> in all: of the payments \<open>autos\<close> are to
  be staked, for accounts that asked for it, and no deposits but those of \<open>made\<close> are created.
\<close>

definition paid ::
  "nat \<Rightarrow> (public_address \<Rightarrow> public_address \<Rightarrow> nat) \<Rightarrow> (public_address \<times> public_address) set \<Rightarrow> rewards \<Rightarrow> ledger \<Rightarrow> ledger \<Rightarrow> bool"
where
  "paid k inc made autos L L' \<longleftrightarrow> (\<exists>d a. L' = L\<lparr>l_deposit := d, l_auto := a\<rparr>) \<and> settings_kept L' \<and>
     (\<forall>op own. deposited L' op own = deposited L op own + inc op own \<and>
        to_stake autos op own \<le> (if l_auto L op own = Some True then inc op own else 0) \<and>
        (l_auto L' op own = Some True \<longleftrightarrow> l_auto L op own = Some True) \<and>
        ((op, own) \<in> made \<or> (l_deposit L' op own = None \<longleftrightarrow> l_deposit L op own = None))) \<and>
     all_deposits L' \<le> all_deposits L + k"

lemma deposit_le_all: "deposited L op own \<le> all_deposits L"
  using le_sum[of "deposited L op" own] le_sum[of "\<lambda>op. \<Sum>own\<in>UNIV. deposited L op own" op]
  by (simp add: all_deposits_def)

lemma paid_refl: "settings_kept L \<Longrightarrow> paid k (\<lambda>_ _. 0) made [] L L"
  unfolding paid_def by (intro conjI exI[of _ "l_deposit L"] exI[of _ "l_auto L"]) simp_all

lemma paid_entries:
  assumes "paid k inc made autos L L'"
  shows "deposited L' op own = deposited L op own + inc op own" "to_stake autos op own \<le> (if l_auto L op own = Some True then inc op own else 0)"
    "l_auto L' op own = Some True \<longleftrightarrow> l_auto L op own = Some True"
    "(op, own) \<notin> made \<Longrightarrow> l_deposit L' op own = None \<longleftrightarrow> l_deposit L op own = None"
  using assms unfolding paid_def by meson+

lemma paid_whole:
  assumes "paid k inc made autos L L'"
  shows "\<exists>d a. L' = L\<lparr>l_deposit := d, l_auto := a\<rparr>" "settings_kept L'" "all_deposits L' \<le> all_deposits L + k"
  using assms unfolding paid_def by blast+

lemma paidI:
  assumes "\<exists>d a. L' = L\<lparr>l_deposit := d, l_auto := a\<rparr>" "settings_kept L'" "all_deposits L' \<le> all_deposits L + k"
    and "\<And>op own. deposited L' op own = deposited L op own + inc op own" 
      "\<And>op own. to_stake autos op own \<le> (if l_auto L op own = Some True then inc op own else 0)"
      "\<And>op own. l_auto L' op own = Some True \<longleftrightarrow> l_auto L op own = Some True"
    and "\<And>op own. (op, own) \<notin> made \<Longrightarrow> l_deposit L' op own = None \<longleftrightarrow> l_deposit L op own = None"
  shows "paid k inc made autos L L'"
  unfolding paid_def using assms(1-3) by (intro conjI allI assms(4-6)) (use assms(7) in auto)

lemma paid_trans:
  assumes "paid k inc made as L L1" "paid j inc' made' bs L1 L2"
  shows "paid (k + j) (\<lambda>x y. inc x y + inc' x y) (made \<union> made') (as @ bs) L L2"
proof (rule paidI)
  show "\<exists>d a. L2 = L\<lparr>l_deposit := d, l_auto := a\<rparr>"
    using paid_whole(1)[OF assms(1)] paid_whole(1)[OF assms(2)] by force
  show "to_stake (as @ bs) op own \<le> (if l_auto L op own = Some True then inc op own + inc' op own else 0)" for op own
    using paid_entries(2,3)[OF assms(1), of op own] paid_entries(2)[OF assms(2), of op own] by (auto split: if_split_asm)
qed (use paid_whole(2,3)[OF assms(1)] paid_whole(2,3)[OF assms(2)] paid_entries(1,3,4)[OF assms(1)]
     paid_entries(1,3,4)[OF assms(2)] in simp_all)

lemma paid_more:
  assumes "paid k inc made as L L'" "k \<le> j" "\<And>x y. inc x y = inc' x y" "made \<subseteq> made'"
  shows "paid j inc' made' as L L'"
proof (rule paidI)
  show "l_deposit L' op own = None \<longleftrightarrow> l_deposit L op own = None" if "(op, own) \<notin> made'" for op own
    using assms(4) that by (intro paid_entries(4)[OF assms(1)]) blast
  show "to_stake as op own \<le> (if l_auto L op own = Some True then inc' op own else 0)" for op own
    using paid_entries(2)[OF assms(1), of op own] assms(3) by (simp split: if_split_asm)
qed (use paid_whole[OF assms(1)] paid_entries(1,3)[OF assms(1)] assms(2,3) in simp_all)

lemma paid_deposit:
  assumes kept: "settings_kept L" and fits: "all_deposits L + n \<le> U64_MAX"
    and as: "as = [] \<or> as = [(op, own, n)] \<and> l_auto L op own = Some True"
    and L': "L' = L\<lparr>l_deposit := upd2 (l_deposit L) op own (Some (saturating_add (deposited L op own) n)), l_auto := a\<rparr>"
    and a: "a = l_auto L \<or> a = upd2 (l_auto L) op own (Some False) \<and> l_auto L op own = None"
    and made: "l_deposit L op own \<noteq> None \<or> (op, own) \<in> made"
  shows "paid n (\<lambda>x y. if x = op \<and> y = own then n else 0) made as L L'"
proof -
  have exact: "saturating_add (deposited L op own) n = deposited L op own + n"
    using fits deposit_le_all[of L op own] by (simp add: saturating_add_def)
  have dep: "deposited L' = upd2 (deposited L) op own (deposited L op own + n)"
    by (simp add: L' fun_eq_iff exact[unfolded deposited_def] deposited_def)
  have all: "all_deposits L' \<le> all_deposits L + n"
    using sum_update2[of "deposited L" op own "deposited L op own + n"] by (simp add: all_deposits_def dep)
  have sett: "settings_kept L'"
    using kept a by (auto simp: settings_kept_def L' split: if_split_asm)
  have stk: "to_stake as x y \<le> (if l_auto L x y = Some True then if x = op \<and> y = own then n else 0 else 0)" for x y
    using as by auto
  have aut: "l_auto L' x y = Some True \<longleftrightarrow> l_auto L x y = Some True" for x y
    using a by (auto simp: L' split: if_split_asm)
  have dom: "(x, y) \<in> made \<or> (l_deposit L' x y = None \<longleftrightarrow> l_deposit L x y = None)" for x y
    using made by (auto simp: L')
  have shape: "\<exists>d a. L' = L\<lparr>l_deposit := d, l_auto := a\<rparr>"
    using L' by blast
  have pay: "deposited L' x y = deposited L x y + (if x = op \<and> y = own then n else 0)" for x y
    by (simp add: dep)
  show ?thesis
    by (rule paidI[OF shape sett all pay stk aut]) (use dom in blast)
qed

text \<open>Of payments, those to accounts that asked for their rewards to be staked.\<close>

definition chosen :: "ledger \<Rightarrow> rewards \<Rightarrow> rewards" where
  "chosen L ps = filter (\<lambda>(op, own, n). l_auto L op own = Some True) ps"

lemma chosen_simps:
  "chosen L [] = []"
  "chosen L ((op, own, n) # ps) = (if l_auto L op own = Some True then (op, own, n) # chosen L ps else chosen L ps)"
  "chosen L (ps @ qs) = chosen L ps @ chosen L qs"
  by (simp_all add: chosen_def)

lemma chosen_paid: "paid k inc made as L L' \<Longrightarrow> chosen L' = chosen L"
  using paid_entries(3) by (simp add: chosen_def fun_eq_iff)

lemma to_stake_chosen: "to_stake (chosen L ps) op own = (if l_auto L op own = Some True then to_stake ps op own else 0)"
  by (induction ps) (auto simp: chosen_simps)

lemma pay_answers:
  assumes "pay_laws N I led ok"
  shows "answers I led ok (d_balance (deposits N) op a) (\<lambda>L. l_deposit L op a)"
    "answers I led ok (d_auto_stake_rewards (deposits N) op a) (\<lambda>L. l_auto L op a)"
  using assms by (simp_all add: pay_laws_def)

lemma pay_updates:
  assumes "pay_laws N I led ok"
  shows "updates I led ok (d_set_balance (deposits N) op a n) any
      (\<lambda>L. L\<lparr>l_deposit := upd2 (l_deposit L) op a (Some n)\<rparr>)"
    "updates I led ok (d_set_auto_stake_rewards (deposits N) op a b) any
      (\<lambda>L. L\<lparr>l_auto := upd2 (l_auto L) op a (Some b)\<rparr>)"
  using assms by (simp_all add: pay_laws_def)

lemma pay_tail:
  assumes "pay_laws N I led ok" "at_ledger led ok L1 s"
    and "l_auto L1 op own = Some True \<Longrightarrow> paid n inc made [(op, own, n)] L L1" "paid n inc made [] L L1"
  shows "runs (run_na I (d_auto_stake_rewards (deposits N) op own) s \<bind> (\<lambda>(auto, s).
      Some (if auto = Some True then [(op, own, n)] else [], s)))
    (\<lambda>as s'. as = chosen L [(op, own, n)] \<and> (\<exists>L'. at_ledger led ok L' s' \<and> paid n inc made as L L'))"
  by (rule answers_bind[OF pay_answers(2)[OF assms(1)] assms(2)], simp only: prod.case, rule runs_return)
     (use assms(3,4) paid_entries(3)[OF assms(4), of op own] in \<open>cases "l_auto L1 op own = Some True"; auto simp: chosen_simps\<close>)

text \<open>What the stakers of a pool are credited: one who has no deposit gets nothing.\<close>

definition credited :: "ledger \<Rightarrow> public_address \<Rightarrow> (public_address \<times> u64) list \<Rightarrow> public_address \<Rightarrow> public_address \<Rightarrow> nat" where
  "credited L op rs x y = (if x = op \<and> l_deposit L op y \<noteq> None then \<Sum>(own, n)\<leftarrow>rs. if own = y then n else 0 else 0)"

lemma pay_staker_runs:
  assumes laws: "pay_laws N I led ok" and at: "at_ledger led ok L s"
    and kept: "settings_kept L" and fits: "all_deposits L + n \<le> U64_MAX"
  shows "runs (pay_staker N I op (own, n) s) (\<lambda>as s'. as = chosen L [(op, own, n)] \<and>
    (\<exists>L'. at_ledger led ok L' s' \<and> paid n (credited L op [(own, n)]) {} as L L'))"
proof (cases "l_deposit L op own")
  case None
  then have "l_auto L op own = None"
    using kept unfolding settings_kept_def by metis
  moreover have "credited L op [(own, n)] = (\<lambda>_ _. 0)"
    using None by (auto simp: credited_def fun_eq_iff)
  ultimately show ?thesis
    unfolding pay_staker_def prod.case using paid_refl[OF kept] None
    by (auto intro!: answers_bind[OF pay_answers(1)[OF laws] at] pay_tail[OF laws])
next
  case (Some b)
  let ?L' = "L\<lparr>l_deposit := upd2 (l_deposit L) op own (Some (saturating_add b n))\<rparr>"
  have "credited L op [(own, n)] = (\<lambda>x y. if x = op \<and> y = own then n else 0)"
    using Some by (auto simp: credited_def fun_eq_iff)
  then have "paid n (credited L op [(own, n)]) {} as L ?L'" if "as = [] \<or> as = [(op, own, n)] \<and> l_auto L op own = Some True" for as
    using paid_deposit[OF kept fits that, of ?L' "l_auto L"] Some by (simp add: deposited_def)
  then show ?thesis
    unfolding pay_staker_def prod.case
    by (intro answers_bind[OF pay_answers(1)[OF laws] at], simp only: prod.case Some option.case)
       (auto intro!: pay_updates(1)[OF laws, THEN updates_bind] pay_tail[OF laws])
qed

lemma pay_operator_runs:
  assumes laws: "pay_laws N I led ok" and at: "at_ledger led ok L s"
    and kept: "settings_kept L" and fits: "all_deposits L + n \<le> U64_MAX"
  shows "runs (pay_operator N I op n s) (\<lambda>as s'. as = chosen L [(op, op, n)] \<and> (\<exists>L'. at_ledger led ok L' s' \<and>
    paid n (\<lambda>x y. if x = op \<and> y = op then n else 0) {(op, op)} as L L'))"
proof (cases "l_deposit L op op")
  case None
  let ?L' = "L\<lparr>l_deposit := upd2 (l_deposit L) op op (Some n), l_auto := upd2 (l_auto L) op op (Some False)\<rparr>"
  have "paid n (\<lambda>x y. if x = op \<and> y = op then n else 0) {(op, op)} [] L ?L'"
    using paid_deposit[OF kept fits, of "[]" op op ?L' "upd2 (l_auto L) op op (Some False)" "{(op, op)}"] None fits
      kept[unfolded settings_kept_def, rule_format, of op op]
    by (auto simp: deposited_def saturating_add_def)
  then have tail: "runs (run_na I (d_auto_stake_rewards (deposits N) op op) s' \<bind> (\<lambda>(auto, s).
      Some (if auto = Some True then [(op, op, n)] else [], s)))
    (\<lambda>as s'. as = chosen L [(op, op, n)] \<and>
      (\<exists>L'. at_ledger led ok L' s' \<and> paid n (\<lambda>x y. if x = op \<and> y = op then n else 0) {(op, op)} as L L'))"
    if "at_ledger led ok ?L' s'" for s'
    by (intro pay_tail[OF laws that]) simp_all
  have set: "runs (run_na I (d_set_balance (deposits N) op op n) s' \<bind> (\<lambda>(_, s).
      run_na I (d_set_auto_stake_rewards (deposits N) op op False) s)) (\<lambda>_. at_ledger led ok ?L')"
    if "at_ledger led ok L s'" for s'
    using that by (auto intro!: pay_updates(1)[OF laws, THEN updates_bind] runs_mono[OF pay_updates(2)[OF laws, THEN updates_runs]])
  show ?thesis
    unfolding pay_operator_def
    by (rule answers_bind[OF pay_answers(1)[OF laws] at], simp only: prod.case None option.case)
       (rule runs_bind[OF set], assumption, simp only: prod.case, rule tail)
next
  case (Some b)
  let ?L' = "L\<lparr>l_deposit := upd2 (l_deposit L) op op (Some (saturating_add b n))\<rparr>"
  have "paid n (\<lambda>x y. if x = op \<and> y = op then n else 0) {(op, op)} as L ?L'" if "as = [] \<or> as = [(op, op, n)] \<and> l_auto L op op = Some True" for as
    using paid_deposit[OF kept fits that, of ?L' "l_auto L"] Some by (simp add: deposited_def)
  then show ?thesis
    unfolding pay_operator_def
    by (intro answers_bind[OF pay_answers(1)[OF laws] at], simp only: prod.case Some option.case)
       (auto intro!: pay_updates(1)[OF laws, THEN updates_bind] pay_tail[OF laws])
qed

lemma paid_kept:
  "paid k inc made as L L' \<Longrightarrow> settings_kept L' \<and> all_deposits L' \<le> all_deposits L + k \<and>
    (\<forall>op own. (op, own) \<in> made \<or> (l_deposit L' op own = None \<longleftrightarrow> l_deposit L op own = None))"
  by (simp add: paid_def)

lemma credited_cons:
  assumes "\<forall>own. l_deposit L1 op own = None \<longleftrightarrow> l_deposit L op own = None"
  shows "credited L op (r # rs) x y = credited L op [r] x y + credited L1 op rs x y"
  using assms[THEN spec, of y] by (cases "l_deposit L op y = None") (auto simp: credited_def)

lemma pay_stakers_runs:
  assumes "pay_laws N I led ok" "at_ledger led ok L s" "settings_kept L"
    and "all_deposits L + (\<Sum>r\<leftarrow>rs. snd r) \<le> U64_MAX"
  shows "runs (for_each (pay_staker N I op) rs s) (\<lambda>ass s'. concat ass = chosen L (map (Pair op) rs) \<and>
    (\<exists>L'. at_ledger led ok L' s' \<and> paid (\<Sum>r\<leftarrow>rs. snd r) (credited L op rs) {} (concat ass) L L'))"
  using assms(2-)
proof (induction rs arbitrary: L s)
  case (Cons r rs)
  obtain own n where r: "r = (own, n)"
    by force
  have fits: "all_deposits L + n \<le> U64_MAX"
    using Cons.prems(3) r by simp
  show ?case
    unfolding for_each.simps r
  proof (rule runs_bind[OF pay_staker_runs[OF assms(1) Cons.prems(1,2) fits]], unfold prod.case, elim exE conjE)
    fix as s1 L1
    assume at1: "at_ledger led ok L1 s1" and p1: "paid n (credited L op [(own, n)]) {} as L L1"
      and as: "as = chosen L [(op, own, n)]"
    have "all_deposits L1 + (\<Sum>r\<leftarrow>rs. snd r) \<le> U64_MAX"
      using paid_kept[OF p1] Cons.prems(3) r by simp
    from Cons.IH[OF at1 _ this] paid_kept[OF p1]
    have ih: "runs (for_each (pay_staker N I op) rs s1) (\<lambda>ass s'. concat ass = chosen L (map (Pair op) rs) \<and>
      (\<exists>L'. at_ledger led ok L' s' \<and> paid (\<Sum>r\<leftarrow>rs. snd r) (credited L1 op rs) {} (concat ass) L1 L'))"
      unfolding chosen_paid[OF p1] by blast
    have step: "paid (\<Sum>r\<leftarrow>(own, n) # rs. snd r) (credited L op ((own, n) # rs)) {} (as @ bs) L L2"
      if "paid (\<Sum>r\<leftarrow>rs. snd r) (credited L1 op rs) {} bs L1 L2" for bs L2
      using paid_kept[OF p1] by (intro paid_more[OF paid_trans[OF p1 that]] credited_cons[symmetric]) auto
    show "runs (for_each (pay_staker N I op) rs s1 \<bind> (\<lambda>(ys, s). Some (as # ys, s)))
      (\<lambda>ass s'. concat ass = chosen L (map (Pair op) ((own, n) # rs)) \<and>
        (\<exists>L'. at_ledger led ok L' s' \<and> paid (\<Sum>r\<leftarrow>(own, n) # rs. snd r) (credited L op ((own, n) # rs)) {} (concat ass) L L'))"
    proof (rule runs_bind[OF ih], unfold prod.case, rule runs_return, elim conjE exE)
      fix ass s2 L2
      assume "concat ass = chosen L (map (Pair op) rs)" "at_ledger led ok L2 s2"
        "paid (\<Sum>r\<leftarrow>rs. snd r) (credited L1 op rs) {} (concat ass) L1 L2"
      then show "concat (as # ass) = chosen L (map (Pair op) ((own, n) # rs)) \<and>
        (\<exists>L'. at_ledger led ok L' s2 \<and> paid (\<Sum>r\<leftarrow>(own, n) # rs. snd r) (credited L op ((own, n) # rs)) {}
          (concat (as # ass)) L L')"
        using step unfolding concat.simps by (auto simp: as chosen_simps)
    qed
  qed
next
  case Nil
  have "credited L op [] = (\<lambda>_ _. 0)"
    by (simp add: credited_def fun_eq_iff)
  then show ?case
    using Nil paid_refl by (auto simp: chosen_simps intro!: runs_return)
qed

text \<open>The reward of a pool, and what makes it computable.\<close>

definition epoch_reward :: "validator_performance \<Rightarrow> u64 \<Rightarrow> nat \<Rightarrow> pool \<Rightarrow> u64" where
  "epoch_reward perf epoch n p =
     the (pool_reward epoch (pl_power p) (proposed_blocks perf (pl_operator p)) (blocks_per_epoch perf div n))"

definition performance_wf :: "validator_performance \<Rightarrow> bool" where
  "performance_wf perf \<longleftrightarrow> blocks_per_epoch perf \<le> U32_MAX \<and> (\<forall>op. proposed_blocks perf op \<le> U32_MAX)"

definition validator_wf :: "pool \<times> stake list \<Rightarrow> bool" where
  "validator_wf x \<longleftrightarrow> pl_commission_rate (fst x) \<le> 100 \<and> pl_power (fst x) \<le> U64_MAX \<and>
     own_stake (fst x) + (\<Sum>k\<leftarrow>snd x. stake_power k) \<le> U64_MAX"

lemma pool_reward_returns:
  assumes "pool_power \<le> U64_MAX" "actual \<le> U32_MAX" "expected \<le> U32_MAX"
  shows "\<exists>r. pool_reward epoch pool_power actual expected = Some r"
proof (cases "expected = 0")
  case False
  then show ?thesis
    using issuance_returns[OF assms(1), of epoch] pool_reward_value[OF assms] by (metis neq0_conv)
qed (simp add: pool_reward_def)

lemma epoch_reward_eq:
  assumes "validator_wf (p, ss)" "performance_wf perf"
  shows "pool_reward epoch (pl_power p) (proposed_blocks perf (pl_operator p)) (blocks_per_epoch perf div n) =
    Some (epoch_reward perf epoch n p)"
  using pool_reward_returns[of "pl_power p" "proposed_blocks perf (pl_operator p)" "blocks_per_epoch perf div n" epoch]
    assms div_le_dividend[of "blocks_per_epoch perf" n]
  by (auto simp: epoch_reward_def validator_wf_def performance_wf_def simp del: div_le_dividend)

text \<open>
  What a pool pays of its reward: each staker with a deposit gets its share less the commission, the
  operator gets the share of its own stake and all the commission.
\<close>

definition pool_income :: "u64 \<Rightarrow> ledger \<Rightarrow> pool \<times> stake list \<Rightarrow> public_address \<Rightarrow> public_address \<Rightarrow> nat" where
  "pool_income rwd L x op own = (case x of (p, ss) \<Rightarrow>
     let tot = own_stake p + (\<Sum>k\<leftarrow>ss. stake_power k); rate = pl_commission_rate p in
     if op \<noteq> pl_operator p then 0
     else (if l_deposit L op own = None then 0
           else \<Sum>k\<leftarrow>ss. if owner k = own then net_share rwd rate (stake_power k) tot else 0) +
          (if own = op then rwd * own_stake p div tot + (\<Sum>k\<leftarrow>ss. commission_on rwd rate (stake_power k) tot) else 0))"

lemma pool_income_cong:
  "(\<And>own. l_deposit L1 (pl_operator (fst x)) own = None \<longleftrightarrow> l_deposit L (pl_operator (fst x)) own = None) \<Longrightarrow>
   pool_income rwd L1 x = pool_income rwd L x"
  by (cases x) (auto simp: pool_income_def Let_def fun_eq_iff)

lemma no_income: "pool_income 0 L x op own = 0"
  by (cases x) (simp add: pool_income_def Let_def net_share_def commission_on_def sum_list_0 cong: if_cong)

text \<open>The payments of a pool in the order in which they are made.\<close>

definition pool_payments :: "u64 \<Rightarrow> pool \<times> stake list \<Rightarrow> rewards" where
  "pool_payments rwd x = (case x of (p, ss) \<Rightarrow>
     let op = pl_operator p; tot = own_stake p + (\<Sum>k\<leftarrow>ss. stake_power k); rate = pl_commission_rate p in
     if rwd = 0 then []
     else map (\<lambda>k. (op, owner k, net_share rwd rate (stake_power k) tot)) ss @
       [(op, op, rwd * own_stake p div tot + (\<Sum>k\<leftarrow>ss. commission_on rwd rate (stake_power k) tot))])"

lemma to_stake_map:
  "to_stake (map (\<lambda>k. (o', f k, g k)) ks) op own = (if o' = op then \<Sum>k\<leftarrow>ks. if f k = own then g k else 0 else 0)"
  by (induction ks) auto

lemma to_stake_pool: "l_deposit L op own \<noteq> None \<Longrightarrow> to_stake (pool_payments rwd x) op own = pool_income rwd L x op own"
  using no_income[of L x op own] by (cases x) (auto simp: pool_payments_def pool_income_def Let_def to_stake_map)

lemma reward_pool_runs:
  assumes laws: "epoch_laws N I led vb lay hnd most seats ok" and at: "at_sets led vb ok L V s"
    and dist: "distinct (map (pl_operator \<circ> fst) (v_current V))" and x: "(p, ss) \<in> set (v_current V)"
    and wf: "validator_wf (p, ss)" "performance_wf perf"
    and kept: "settings_kept L" and fits: "all_deposits L + epoch_reward perf epoch (length (v_current V)) p \<le> U64_MAX"
  defines "rwd \<equiv> epoch_reward perf epoch (length (v_current V)) p"
  shows "runs (reward_pool N I perf epoch (length (v_current V)) p s) (\<lambda>r s'. fst r = ss \<and>
    snd r = chosen L (pool_payments rwd (p, ss)) \<and> (\<exists>L'. at_sets led vb ok L' V s' \<and>
      paid rwd (pool_income rwd L (p, ss)) {(pl_operator p, pl_operator p)} (snd r) L L'))"
proof -
  let ?n = "length (v_current V)" and ?op = "pl_operator p" and ?tot = "total_stakes_of p ss"
  note rwd = epoch_reward_eq[OF wf, of epoch ?n, folded rwd_def]
  have n: "0 < ?n"
    using x by (cases "v_current V") auto
  have bounds: "pl_power p \<le> U64_MAX" "proposed_blocks perf ?op \<le> U32_MAX"
    "blocks_per_epoch perf div ?n \<le> U32_MAX" "pl_commission_rate p \<le> 100"
    "own_stake p + (\<Sum>k\<leftarrow>ss. stake_power k) \<le> U64_MAX"
    using wf div_le_dividend[of "blocks_per_epoch perf" ?n] by (auto simp: validator_wf_def performance_wf_def simp del: div_le_dividend)
  define rs where "rs = map (\<lambda>k. (owner k, net_share rwd (pl_commission_rate p) (stake_power k) ?tot)) ss"
  define fee where "fee = (\<Sum>k\<leftarrow>ss. commission_on rwd (pl_commission_rate p) (stake_power k) ?tot)"
  define own_reward where "own_reward = rwd * own_stake p div ?tot"
  note pay = pool_payouts[OF rwd bounds, folded rs_def fee_def own_reward_def]
  have nets: "(\<Sum>k\<leftarrow>ss. net_share rwd (pl_commission_rate p) (stake_power k) ?tot) = (\<Sum>r\<leftarrow>rs. snd r)"
    by (simp add: rs_def comp_def)
  have op_pay: "saturating_add own_reward fee = own_reward + fee"
    using pay(3,4) by (simp add: saturating_add_def)
  have sum: "(\<Sum>r\<leftarrow>rs. snd r) + (own_reward + fee) \<le> rwd"
    using pay(3) nets by simp
  have income: "pool_income rwd L (p, ss) x y = credited L ?op rs x y + (if x = ?op \<and> y = ?op then own_reward + fee else 0)" for x y
    by (auto simp: pool_income_def Let_def credited_def rs_def comp_def fee_def own_reward_def total_stakes_exact[OF bounds(5)])
  have payments: "pool_payments rwd (p, ss) = map (Pair ?op) rs @ [(?op, ?op, own_reward + fee)]" if "0 < rwd"
    using that by (simp add: pool_payments_def Let_def rs_def comp_def fee_def own_reward_def total_stakes_exact[OF bounds(5)])
  note pl = epoch_laws_parts(2)[OF laws, of V]
  have div: "div_u (blocks_per_epoch perf) ?n = Some (blocks_per_epoch perf div ?n)"
    using n by (simp add: div_u_def)
  show ?thesis
    unfolding reward_pool_def Let_def div Option.bind.simps rwd
  proof (rule runs_bind[OF read_vp_stakes_runs[OF epoch_laws_parts(3)[OF laws] at dist x]], goal_cases)
    case (1 r s1)
    then have at1: "at_ledger led (\<lambda>s. ok s \<and> vb s = V) L s1" and r: "r = ss"
      by (simp_all add: at_pair)
    show ?case
    proof (cases "0 < rwd")
      case True
      have "all_deposits L + (\<Sum>r\<leftarrow>rs. snd r) \<le> U64_MAX"
        using sum fits rwd_def by simp
      note stakers = pay_stakers_runs[OF pl at1 kept this, of ?op]
      show ?thesis
        unfolding r prod.case if_P[OF True] pay(1,2) Option.bind.simps op_pay
      proof (rule runs_bind[OF stakers], unfold prod.case, elim exE conjE, goal_cases)
        case (1 ass s2 L2)
        have fits2: "all_deposits L2 + (own_reward + fee) \<le> U64_MAX"
          using paid_kept[OF 1(3)] sum fits rwd_def by simp
        have all: "paid rwd (pool_income rwd L (p, ss)) {(?op, ?op)} (concat ass @ bs) L L3"
          if "paid (own_reward + fee) (\<lambda>x y. if x = ?op \<and> y = ?op then own_reward + fee else 0) {(?op, ?op)} bs L2 L3" for bs L3
          by (rule paid_more[OF paid_trans[OF 1(3) that]]) (use sum income in auto)
        show ?case
          using all all[of "[]", unfolded append_Nil2] paid_kept[OF 1(3)]
          by (intro runs_bind[OF pay_operator_runs[OF pl 1(2) _ fits2]])
            (auto simp: at_pair 1(1) payments[OF True] chosen_simps chosen_paid[OF 1(3)] simp del: concat_eq_append_conv intro!: runs_return)
      qed
    next
      case False
      then have "pool_income rwd L (p, ss) = (\<lambda>_ _. 0)"
        using no_income by (simp add: fun_eq_iff)
      then show ?thesis
        using False at1 r paid_refl[OF kept] by (auto simp: at_pair chosen_simps pool_payments_def Let_def intro!: runs_return)
    qed
  qed
qed

text \<open>What the pools together pay.\<close>

definition pools_income ::
  "(pool \<Rightarrow> u64) \<Rightarrow> ledger \<Rightarrow> (pool \<times> stake list) list \<Rightarrow> public_address \<Rightarrow> public_address \<Rightarrow> nat" where
  "pools_income rwd L xs op own = (\<Sum>x\<leftarrow>xs. pool_income (rwd (fst x)) L x op own)"

lemma reward_pools_runs:
  fixes perf epoch V
  defines "rwd \<equiv> epoch_reward perf epoch (length (v_current V))"
  assumes laws: "epoch_laws N I led vb lay hnd most seats ok"
    and dist: "distinct (map (pl_operator \<circ> fst) (v_current V))" and wf: "performance_wf perf"
    and "set qs \<subseteq> set (v_current V)" "distinct (map (pl_operator \<circ> fst) qs)" "\<forall>x\<in>set qs. validator_wf x"
      "at_sets led vb ok L V s" "settings_kept L"
    and "all_deposits L + (\<Sum>x\<leftarrow>qs. rwd (fst x)) \<le> U64_MAX"
  shows "runs (for_each (reward_pool N I perf epoch (length (v_current V))) (map fst qs) s) (\<lambda>ys s'.
    map fst ys = map snd qs \<and> concat (map snd ys) = chosen L (concat (map (\<lambda>x. pool_payments (rwd (fst x)) x) qs)) \<and>
    (\<exists>L' made. at_sets led vb ok L' V s' \<and>
      paid (\<Sum>x\<leftarrow>qs. rwd (fst x)) (pools_income rwd L qs) made (concat (map snd ys)) L L'))"
  using assms(5-)
proof (induction qs arbitrary: L s)
  case (Cons x qs)
  obtain p ss where x: "x = (p, ss)"
    by force
  have "(p, ss) \<in> set (v_current V)" "validator_wf (p, ss)" "all_deposits L + rwd p \<le> U64_MAX"
    using Cons.prems x by auto
  note first = reward_pool_runs[OF laws Cons.prems(4) dist this(1,2) wf Cons.prems(5) this(3)[unfolded rwd_def], folded rwd_def]
  show ?case
    unfolding for_each.simps x list.map fst_conv
  proof (rule runs_bind[OF first], unfold prod.case, elim exE conjE, goal_cases)
    case (1 y s1 L1)
    have fits: "all_deposits L1 + (\<Sum>x\<leftarrow>qs. rwd (fst x)) \<le> U64_MAX"
      using paid_kept[OF 1(4)] Cons.prems(6) x by simp
    have "pool_income k L1 q = pool_income k L q" if "q \<in> set qs" for k q
      using paid_kept[OF 1(4)] Cons.prems(2) that x by (intro pool_income_cong) force
    then have "pools_income rwd L1 qs x y = pools_income rwd L qs x y" for x y
      unfolding pools_income_def by (intro arg_cong[of _ _ sum_list] map_cong) auto
    then have step: "paid (\<Sum>x\<leftarrow>x # qs. rwd (fst x)) (pools_income rwd L (x # qs)) ({(pl_operator p, pl_operator p)} \<union> made)
        (snd y @ bs) L L2"
      if "paid (\<Sum>x\<leftarrow>qs. rwd (fst x)) (pools_income rwd L1 qs) made bs L1 L2" for made bs L2
      by (intro paid_more[OF paid_trans[OF 1(4) that]]) (simp_all add: pools_income_def x)
    have rest: "runs (for_each (reward_pool N I perf epoch (length (v_current V))) (map fst qs) s1) (\<lambda>ys s'.
      map fst ys = map snd qs \<and> concat (map snd ys) = chosen L (concat (map (\<lambda>x. pool_payments (rwd (fst x)) x) qs)) \<and>
      (\<exists>L' made. at_sets led vb ok L' V s' \<and>
        paid (\<Sum>x\<leftarrow>qs. rwd (fst x)) (pools_income rwd L1 qs) made (concat (map snd ys)) L1 L'))"
      unfolding chosen_paid[OF 1(4), symmetric]
      using Cons.prems(1-3) paid_kept[OF 1(4)] by (intro Cons.IH[OF _ _ _ 1(3) _ fits]) auto
    show ?case
      by (rule runs_bind[OF rest], simp only: prod.case, rule runs_return) (use step x 1(1,2) in \<open>fastforce simp: chosen_simps\<close>)
  qed
next
  case Nil
  have "pools_income rwd L [] = (\<lambda>_ _. 0)"
    by (simp add: pools_income_def fun_eq_iff)
  then show ?case
    using Nil paid_refl by (auto simp: chosen_simps intro!: runs_return)
qed

section \<open>Staking the rewards\<close>

lemma supply_deposits: "total_supply L bal = (\<Sum>a\<in>UNIV. bal a) + all_deposits L"
  by (simp add: total_supply_def all_deposits_def)

lemma inv_settings: "ledger_inv cmp L bal \<Longrightarrow> settings_kept L"
  by (simp add: ledger_inv_def records_complete_def settings_kept_def)

lemma paid_inv:
  assumes "paid k inc made autos L L'" "ledger_inv cmp L bal" "total_supply L bal + k \<le> U64_MAX"
  shows "ledger_inv cmp L' bal" "staked L' = staked L" "staked L' x y + to_stake autos x y \<le> deposited L' x y"
    "total_supply L' bal \<le> total_supply L bal + k"
proof -
  obtain d a where L': "L' = L\<lparr>l_deposit := d, l_auto := a\<rparr>" and kept: "settings_kept L'"
    and sum: "all_deposits L' \<le> all_deposits L + k"
    using paid_whole[OF assms(1)] by blast
  have dep: "deposited L x y + to_stake autos x y \<le> deposited L' x y" for x y
    using paid_entries(1,2)[OF assms(1), of x y] by (simp split: if_split_asm)
  have st: "stake_in L' = stake_in L" "staked L' = staked L"
    by (rule stakes_same; simp add: L')+
  show "staked L' = staked L"
    by (rule st)
  show grows: "total_supply L' bal \<le> total_supply L bal + k"
    using sum by (simp add: supply_deposits)
  have cov: "staked L x y \<le> deposited L x y" for x y
    using assms(2) by (simp add: ledger_inv_def stakes_covered_def)
  show "staked L' x y + to_stake autos x y \<le> deposited L' x y" for x y
    using cov[of x y] dep[of x y] st by simp
  have le: "staked L x y \<le> deposited L' x y" for x y
    using cov[of x y] dep[of x y] by simp
  have "records_complete L'"
    using assms(2) kept by (simp add: ledger_inv_def records_complete_def settings_kept_def L')
  then show "ledger_inv cmp L' bal"
    using assms(2,3) grows le st
    by (simp add: ledger_inv_def pools_add_up_def stakes_covered_def nvp_current_def) (simp add: L')
qed

lemma stake_rose_always:
  assumes "stake_rose False op own n r L L'"
  shows "\<not> isl r"
proof -
  have "r = Inr n \<or> (\<exists>h :: unit + (public_address \<times> u64) option. r = (case h of Inl _ \<Rightarrow> Inr n | Inr None \<Rightarrow> Inr n | Inr (Some (b, k)) \<Rightarrow> Inr (n - k)))"
    using assms unfolding stake_rose_def if_False by meson
  then show ?thesis
  proof (elim disjE exE)
    fix h :: "unit + (public_address \<times> u64) option"
    assume "r = (case h of Inl _ \<Rightarrow> Inr n | Inr None \<Rightarrow> Inr n | Inr (Some (b, k)) \<Rightarrow> Inr (n - k))"
    then show ?thesis
      by (cases h) (simp_all split: option.split)
  qed simp
qed

lemma stake_gained_always:
  assumes "stake_gained False op own pw n r L L'"
  shows "r = Inr ()"
proof -
  obtain g L1 where "stake_rose False op own n g L L1" and g: "case g of Inl _ \<Rightarrow> r = Inl () \<and> L' = L1
      | Inr add \<Rightarrow> r = Inr () \<and> (\<exists>m. power_rose op (saturating_add pw add) (l_nvp L) m \<and>
          L' = set_pool_power op (saturating_add pw add) m L1)"
    using assms by (auto simp: stake_gained_def)
  then have "\<not> isl g"
    using stake_rose_always by blast
  then show ?thesis
    using g by (cases g) auto
qed

text \<open>
  The rewards are staked one after the other: a reward in a pool that exists is added to the account's
  stake in it, or enters the pool as a new stake, and the pool gains power; one in a pool that is gone is
  not staked.
\<close>

fun auto_staked :: "rewards \<Rightarrow> ledger \<Rightarrow> ledger \<Rightarrow> bool" where
  "auto_staked [] L L' \<longleftrightarrow> L' = L"
| "auto_staked ((op, own, n) # autos) L L' \<longleftrightarrow>
     (if pool_in L op then \<exists>L1. stake_gained False op own (the (l_power L op)) n (Inr ()) L L1 \<and> auto_staked autos L1 L'
      else auto_staked autos L L')"

lemma gained_frame:
  assumes "stake_gained False op own pw n (Inr ()) L L'"
  shows "l_deposit L' = l_deposit L" "l_auto L' = l_auto L" "l_operator L' = l_operator L"
    "x \<noteq> op \<Longrightarrow> stake_in L' x y = stake_in L x y"
proof -
  obtain add L1 m where rose: "stake_rose False op own n (Inr add) L L1" and L': "L' = set_pool_power op (saturating_add pw add) m L1"
    using assms by (auto simp: stake_gained_Inr)
  have shape: "(\<exists>k. L1 = put_stake op own k L) \<or> (\<exists>m. L1 = L\<lparr>l_delegated := (l_delegated L)(op := m)\<rparr>)"
    using rose unfolding stake_rose_def by meson
  show "l_deposit L' = l_deposit L" "l_auto L' = l_auto L" "l_operator L' = l_operator L"
    using shape by (auto simp: L' set_pool_power_def put_stake_def)
  show "x \<noteq> op \<Longrightarrow> stake_in L' x y = stake_in L x y"
    using rose_frame(5)[OF rose] by (simp add: L')
qed

lemma auto_staked_frame:
  "auto_staked autos L L' \<Longrightarrow> l_deposit L' = l_deposit L \<and> l_auto L' = l_auto L \<and> l_operator L' = l_operator L"
  by (induction autos L L' rule: auto_staked.induct) (auto split: if_split_asm dest: gained_frame)

text \<open>A pool in which every account that a reward is to be staked for has a place already.\<close>

definition all_seated :: "rewards \<Rightarrow> ledger \<Rightarrow> public_address \<Rightarrow> bool" where
  "all_seated autos L op \<longleftrightarrow> pool_in L op \<and> (\<forall>(o', own, n)\<in>set autos. o' = op \<longrightarrow> own = op \<or> l_delegated L op own \<noteq> None)"

lemma gained_seated:
  assumes "stake_gained False op own pw n (Inr ()) L L'" "own = op \<or> l_delegated L op own \<noteq> None"
    and "staked L op own + n \<le> U64_MAX"
  shows "staked L' op x = staked L op x + (if x = own then n else 0)" "l_delegated L op x \<noteq> None \<Longrightarrow> l_delegated L' op x \<noteq> None"
proof -
  obtain add L1 m where rose: "stake_rose False op own n (Inr add) L L1" and L': "L' = set_pool_power op (saturating_add pw add) m L1"
    using assms(1) by (auto simp: stake_gained_Inr)
  have "op = own \<or> stake_in L op own \<noteq> None"
    using assms(2) by (auto simp: stake_in_def)
  then have L1: "L1 = put_stake op own (staked L op own + n) L"
    using rose assms(3) by (auto simp: stake_rose_def saturating_add_def staked_def)
  show "staked L' op x = staked L op x + (if x = own then n else 0)"
    by (simp add: L' L1 staked_put_stake)
  show "l_delegated L op x \<noteq> None \<Longrightarrow> l_delegated L' op x \<noteq> None"
    by (auto simp: L' L1 set_pool_power_def put_stake_def)
qed

lemma auto_staked_exact:
  assumes "auto_staked autos L L'" "all_seated autos L op" "\<And>own. staked L op own + to_stake autos op own \<le> U64_MAX"
  shows "staked L' op own = staked L op own + to_stake autos op own"
  using assms
proof (induction autos L L' rule: auto_staked.induct)
  case (2 o' w n autos L L')
  show ?case
  proof (cases "o' = op")
    case True
    then have seat: "pool_in L op" "w = op \<or> l_delegated L op w \<noteq> None"
      using 2(4) by (auto simp: all_seated_def)
    obtain L1 where gain: "stake_gained False op w (the (l_power L op)) n (Inr ()) L L1" and rest: "auto_staked autos L1 L'"
      using 2(3) True seat(1) by auto
    note g = gained_seated[OF gain seat(2)] and f = gained_frame(3)[OF gain]
    have le: "staked L op w + n \<le> U64_MAX"
      using 2(5)[of w] True by simp
    have "all_seated autos L1 op"
      using 2(4) True g(2)[OF le] f by (fastforce simp: all_seated_def)
    moreover have "staked L1 op x + to_stake autos op x \<le> U64_MAX" for x
      using 2(5)[of x] True g(1)[OF le, of x] by (cases "x = w") simp_all
    ultimately have "staked L' op own = staked L1 op own + to_stake autos op own"
      using 2(1)[OF _ rest] seat(1) True by simp
    then show ?thesis
      using g(1)[OF le, of own] True by (cases "own = w") simp_all
  next
    case False
    have to: "to_stake ((o', w, n) # autos) op x = to_stake autos op x" for x
      using False by simp
    show ?thesis
    proof (cases "pool_in L o'")
      case True
      then obtain L1 where gain: "stake_gained False o' w (the (l_power L o')) n (Inr ()) L L1" and rest: "auto_staked autos L1 L'"
        using 2(3) by auto
      have same: "stake_in L1 op x = stake_in L op x" "l_operator L1 = l_operator L" for x
        using gained_frame(3,4)[OF gain] False by auto
      then have "staked L1 op x = staked L op x" "x \<noteq> op \<Longrightarrow> l_delegated L1 op x = l_delegated L op x" for x
        by (simp add: staked_def, metis stake_in_delegated)
      then show ?thesis
        using 2(1)[OF True rest] 2(4,5) same(2) unfolding to by (fastforce simp: all_seated_def)
    qed (use 2(2-5) to in \<open>auto simp: all_seated_def\<close>)
  qed
qed simp

lemma auto_stake_runs:
  assumes laws: "raise_laws N I led ok" and at: "at_ledger led ok L s" and inv: "ledger_inv (\<le>) L bal"
    and le: "staked L op own + n \<le> deposited L op own"
  shows "runs (auto_stake N I (op, own, n) s) (\<lambda>_ s'. \<exists>L'. at_ledger led ok L' s' \<and> ledger_inv (\<le>) L' bal \<and>
    deposited L' = deposited L \<and> (\<forall>x y. staked L' x y \<le> staked L x y + to_stake [(op, own, n)] x y) \<and>
    auto_staked [(op, own, n)] L L')"
proof (cases "pool_in L op")
  case False
  then show ?thesis
    unfolding auto_stake_def prod.case using inv
    by (intro answers_bind[OF raise_answers(1)[OF laws] at]) (auto intro!: runs_return exI[of _ L])
next
  case True
  then obtain pw where pw: "l_power L op = Some pw"
    using ledger_wf_power[OF ledger_inv_wf[OF inv]] by blast
  have gain: "runs (increase_stake_power N I op pw own (stake_in L op own) n False s') (\<lambda>r s'. \<exists>L'. at_ledger led ok L' s' \<and>
    ledger_inv (\<le>) L' bal \<and> deposited L' = deposited L \<and> (\<forall>x y. staked L' x y \<le> staked L x y + to_stake [(op, own, n)] x y) \<and>
    auto_staked [(op, own, n)] L L')"
    if "at_ledger led ok L s'" for s'
  proof (rule runs_mono[OF increase_stake_power_runs[OF laws that]], elim exE conjE)
    fix r s1 L'
    assume at': "at_ledger led ok L' s1" and g: "stake_gained False op own pw n r L L'"
    note rises = stake_rises[OF inv _ True pw le g[unfolded stake_gained_always[OF g]]]
    have "staked L' x y \<le> staked L x y + to_stake [(op, own, n)] x y" for x y
      using rises(3)[of x y] by auto
    moreover have "auto_staked [(op, own, n)] L L'"
      using g[unfolded stake_gained_always[OF g]] True pw by simp
    ultimately show "\<exists>L'. at_ledger led ok L' s1 \<and> ledger_inv (\<le>) L' bal \<and> deposited L' = deposited L \<and>
      (\<forall>x y. staked L' x y \<le> staked L x y + to_stake [(op, own, n)] x y) \<and> auto_staked [(op, own, n)] L L'"
      using at' rises(1,2) by blast
  qed
  show ?thesis
    unfolding auto_stake_def prod.case
    by (rule answers_bind[OF raise_answers(1)[OF laws] at], simp only: prod.case True simp_thms if_False)
       (auto simp: pw intro!: raise_answers(2)[OF laws, THEN answers_bind] runs_bind[OF stake_of_pool_runs[OF laws]]
          runs_bind[OF gain] runs_return simp del: to_stake_simps auto_staked.simps)
qed

lemma auto_staked_Cons: "auto_staked [a] L L1 \<Longrightarrow> auto_staked autos L1 L2 \<Longrightarrow> auto_staked (a # autos) L L2"
  by (cases a) (auto split: if_split_asm)

lemma auto_stakes_runs:
  assumes "raise_laws N I led ok" "at_ledger led ok L s" "ledger_inv (\<le>) L bal"
    and "\<And>x y. staked L x y + to_stake autos x y \<le> deposited L x y"
  shows "runs (for_each (auto_stake N I) autos s) (\<lambda>_ s'. \<exists>L'. at_ledger led ok L' s' \<and> ledger_inv (\<le>) L' bal \<and>
    deposited L' = deposited L \<and> (\<forall>x y. staked L' x y \<le> staked L x y + to_stake autos x y) \<and> auto_staked autos L L')"
  using assms(2-)
proof (induction autos arbitrary: L s)
  case (Cons a autos)
  obtain op own n where a: "a = (op, own, n)"
    by (cases a) auto
  have "staked L op own + n \<le> deposited L op own"
    using Cons.prems(3)[of op own] a by simp
  note first = auto_stake_runs[OF assms(1) Cons.prems(1,2) this]
  show ?case
    unfolding for_each.simps a
  proof (rule runs_bind[OF first], unfold prod.case, elim exE conjE, goal_cases)
    case (1 u s1 L1)
    have "staked L1 x y + to_stake autos x y \<le> deposited L1 x y" for x y
      using Cons.prems(3)[of x y] 1(3) 1(4)[rule_format, of x y] a by auto
    note rest = Cons.IH[OF 1(1,2) this]
    have "staked L2 x y \<le> staked L x y + to_stake ((op, own, n) # autos) x y"
      if "\<forall>x y. staked L2 x y \<le> staked L1 x y + to_stake autos x y" for L2 x y
      using that[rule_format, of x y] 1(4)[rule_format, of x y] by auto
    then show ?case
      by (intro runs_bind[OF rest]) (use 1(3) auto_staked_Cons[OF 1(5)] in
          \<open>auto intro!: runs_return simp del: to_stake_simps auto_staked.simps\<close>)
  qed
qed (auto intro!: runs_return)

end
