(* ===== verification/Epoch_Refinement.thy ===== *)
theory Epoch_Refinement
  imports Epoch_Ledger
begin

text \<open>
  The rotation of the validator sets, and the whole of the next epoch command on the ledger: on a
  sound state it returns, pays out at most the rewards of the pools, keeps the books, and moves the
  current validator set to the previous and the next to the current one.
\<close>

section \<open>Rotating the validator sets\<close>

abbreviation at_all ::
  "('s \<Rightarrow> ledger) \<Rightarrow> ('s \<Rightarrow> validators) \<Rightarrow> ('s \<Rightarrow> layout) \<Rightarrow> ('s \<Rightarrow> bool) \<Rightarrow> ledger \<Rightarrow> validators \<Rightarrow> layout \<Rightarrow> 's \<Rightarrow> bool"
where
  "at_all led vb lay ok P V ly \<equiv> at_ledger (\<lambda>s. (plain (led s), vb s, lay s)) ok (P, V, ly)"

lemma set_writes:
  assumes "set_write_laws N I ab most seats ok"
  shows "updates I ab ok (vs_clear (pvp N)) any (\<lambda>(L, V, ly). (L, V\<lparr>v_previous := []\<rparr>, ly))"
    "updates I ab ok (vs_clear (vp N)) any (\<lambda>(L, V, ly). (L, V\<lparr>v_current := []\<rparr>, ly))"
    "updates I ab ok (vs_push (pvp N) p ss) (\<lambda>(L, V, ly). length (v_previous V) < most \<and> length ss \<le> seats)
        (\<lambda>(L, V, ly). (L, V\<lparr>v_previous := v_previous V @ [(p, ss)]\<rparr>, ly))"
    "updates I ab ok (vs_push (vp N) p ss) (\<lambda>(L, V, ly). length (v_current V) < most \<and> length ss \<le> seats)
        (\<lambda>(L, V, ly). (L, V\<lparr>v_current := v_current V @ [(p, ss)]\<rparr>, ly))"
    "updates I ab ok (na_set_current_epoch N n) any (\<lambda>(L, V, ly). (L, V\<lparr>v_epoch := n\<rparr>, ly))"
  using assms by (simp_all add: set_write_laws_def)

lemma promote_reads:
  assumes "promote_laws N I ab ok"
  shows "answers I ab ok (nvp_length (nvp N)) (\<lambda>(L, V, ly). length (ly_nvp ly))"
    "answers I ab ok (nvp_get (nvp N) i) (\<lambda>(L, V, ly). if i < length (ly_nvp ly)
        then Some \<lparr>pk_operator = ly_nvp ly ! i, pk_power = the (l_nvp L (ly_nvp ly ! i))\<rparr> else None)"
    "answers I ab ok (p_operator (pools N) op) (\<lambda>(L, V, ly). l_operator L op)"
    "answers I ab ok (p_commission_rate (pools N) op) (\<lambda>(L, V, ly). l_rate L op)"
    "answers I ab ok (p_power (pools N) op) (\<lambda>(L, V, ly). l_power L op)"
    "answers I ab ok (p_operator_stake (pools N) op) (\<lambda>(L, V, ly). l_operator_stake L op)"
    "answers I ab ok (ds_unordered_values (pools N) op) (\<lambda>(L, V, ly). ly_stakes ly op)"
  using assms by (simp_all add: promote_laws_def)

lemma push_previous_runs:
  assumes laws: "set_write_laws N I (\<lambda>s. (plain (led s), vb s, lay s)) most seats ok"
    and "at_all led vb lay ok P V ly s" "distinct (map (pl_operator \<circ> fst) qs)"
    and "\<And>x. x \<in> set qs \<Longrightarrow> map_of m (pl_operator (fst x)) = Some (snd x) \<and> length (snd x) \<le> seats"
    and "length (v_previous V) + length qs \<le> most"
  shows "runs (push_previous N I (map fst qs) m s)
    (\<lambda>_ s'. at_all led vb lay ok P (V\<lparr>v_previous := v_previous V @ qs\<rparr>) ly s')"
  using assms(2-)
proof (induction qs arbitrary: m V s)
  case (Cons x qs)
  obtain p ss where x: "x = (p, ss)"
    by force
  have m: "map_of m (pl_operator p) = Some ss" "length ss \<le> seats"
    using Cons.prems(3)[of x] x by simp_all
  have ne: "pl_operator (fst y) \<noteq> pl_operator p" if "y \<in> set qs" for y
    using Cons.prems(2) x that by force
  let ?V = "V\<lparr>v_previous := v_previous V @ [(p, ss)]\<rparr>"
  have rest: "runs (push_previous N I (map fst qs) (AList.delete (pl_operator p) m) s1)
    (\<lambda>_ s'. at_all led vb lay ok P (?V\<lparr>v_previous := v_previous ?V @ qs\<rparr>) ly s')" if "at_all led vb lay ok P ?V ly s1" for s1
    using Cons.prems(2-4) x ne by (intro Cons.IH[OF that]) (auto simp: delete_conv')
  show ?case
    unfolding x list.map fst_conv push_previous.simps m Option.bind.simps
    by (rule updates_bind[OF set_writes(3)[OF laws] Cons.prems(1)])
       (use m Cons.prems(4) rest in \<open>auto simp: x\<close>)
qed (auto intro!: runs_return)

text \<open>The hash map of the stakes holds the stakes of every pool.\<close>

lemma map_of_fold_other:
  "k \<notin> (\<lambda>(p, _). pl_operator p) ` set zs \<Longrightarrow>
   map_of (fold (\<lambda>(p, st, _). AList.update (pl_operator p) st) zs m) k = map_of m k"
  by (induction zs arbitrary: m) (auto simp: update_conv')

lemma map_of_fold_update:
  "distinct (map (\<lambda>(p, _). pl_operator p) zs) \<Longrightarrow> (p, st, a) \<in> set zs \<Longrightarrow>
   map_of (fold (\<lambda>(p, st, _). AList.update (pl_operator p) st) zs m) (pl_operator p) = Some st"
proof (induction zs arbitrary: m)
  case (Cons z zs)
  show ?case
  proof (cases "(p, st, a) \<in> set zs")
    case False
    then have "z = (p, st, a)"
      using Cons.prems(2) by simp
    then show ?thesis
      using Cons.prems(1) map_of_fold_other[of "pl_operator p" zs] by (auto simp: update_conv' comp_def)
  qed (use Cons in auto)
qed simp

lemma stakes_of_sets:
  assumes "distinct (map (pl_operator \<circ> fst) cur)" "map fst rounds = map snd cur" "x \<in> set cur"
  shows "map_of (fold (\<lambda>(p, st, _). AList.update (pl_operator p) st) (zip (map fst cur) rounds) [])
    (pl_operator (fst x)) = Some (snd x)"
proof -
  have len: "length rounds = length cur"
    using assms(2) by (metis length_map)
  obtain i where i: "i < length cur" "x = cur ! i"
    using assms(3) by (auto simp: in_set_conv_nth)
  have "fst (rounds ! i) = snd x"
    using arg_cong[OF assms(2), of "\<lambda>l. l ! i"] i len by simp
  then have "(fst x, snd x, snd (rounds ! i)) \<in> set (zip (map fst cur) rounds)"
    using i len by (auto simp: in_set_zip prod_eq_iff intro!: exI[of _ i])
  moreover have "map (\<lambda>(p, _). pl_operator p) (zip (map fst cur) rounds) = map (pl_operator \<circ> fst) cur"
    using len by (intro nth_equalityI) auto
  ultimately show ?thesis
    using map_of_fold_update assms(1) by metis
qed

text \<open>A pool of the ledger as it enters the current validator set.\<close>

definition snapshot :: "ledger \<Rightarrow> layout \<Rightarrow> public_address \<Rightarrow> pool \<times> stake list" where
  "snapshot L ly op =
     (\<lparr>pl_operator = op, pl_commission_rate = the (l_rate L op), pl_power = the (l_power L op),
       pl_operator_stake = the (l_operator_stake L op)\<rparr>, ly_stakes ly op)"

definition promotable :: "ledger \<Rightarrow> public_address \<Rightarrow> bool" where
  "promotable L op \<longleftrightarrow> l_operator L op = Some op \<and> l_rate L op \<noteq> None \<and> l_power L op \<noteq> None \<and>
     l_operator_stake L op \<noteq> None"

lemma promote_pool_runs:
  assumes laws: "set_write_laws N I (\<lambda>s. (plain (led s), vb s, lay s)) most seats ok"
      "promote_laws N I (\<lambda>s. (plain (led s), vb s, lay s)) ok"
    and at: "at_all led vb lay ok P V ly s" and i: "i < length (ly_nvp ly)" "promotable P (ly_nvp ly ! i)"
    and room: "length (v_current V) < most" "length (ly_stakes ly (ly_nvp ly ! i)) \<le> seats"
  shows "runs (promote_pool N I i s) (\<lambda>r s'. r = (ly_nvp ly ! i, the (l_power P (ly_nvp ly ! i))) \<and>
    at_all led vb lay ok P (V\<lparr>v_current := v_current V @ [snapshot P ly (ly_nvp ly ! i)]\<rparr>) ly s')"
proof -
  obtain rate pw os where f: "l_operator P (ly_nvp ly ! i) = Some (ly_nvp ly ! i)" "l_rate P (ly_nvp ly ! i) = Some rate"
    "l_power P (ly_nvp ly ! i) = Some pw" "l_operator_stake P (ly_nvp ly ! i) = Some os"
    using i(2) by (auto simp: promotable_def)
  show ?thesis
    unfolding promote_pool_def Let_def
    using at
    by - (assumption | rule promote_reads[OF laws(2), THEN answers_bind] set_writes(4)[OF laws(1), THEN updates_bind]
       | simp only: prod.case f if_P[OF i(1)] Option.bind.simps pool_key.simps
       | (simp add: room; fail) | (rule runs_return, simp add: snapshot_def f; fail))+
qed

lemma promote_pools_runs:
  assumes laws: "set_write_laws N I (\<lambda>s. (plain (led s), vb s, lay s)) most seats ok"
      "promote_laws N I (\<lambda>s. (plain (led s), vb s, lay s)) ok"
    and "at_all led vb lay ok P V ly s"
    and "\<forall>i\<in>set is. i < length (ly_nvp ly) \<and> promotable P (ly_nvp ly ! i) \<and> length (ly_stakes ly (ly_nvp ly ! i)) \<le> seats"
    and "length (v_current V) + length is \<le> most"
  shows "runs (for_each (promote_pool N I) is s) (\<lambda>r s'. r = map (\<lambda>i. (ly_nvp ly ! i, the (l_power P (ly_nvp ly ! i)))) is \<and>
    at_all led vb lay ok P (V\<lparr>v_current := v_current V @ map (\<lambda>i. snapshot P ly (ly_nvp ly ! i)) is\<rparr>) ly s')"
  using assms(3-)
proof (induction "is" arbitrary: V s)
  case (Cons i "is")
  have i: "i < length (ly_nvp ly)" "promotable P (ly_nvp ly ! i)" "length (v_current V) < most"
    "length (ly_stakes ly (ly_nvp ly ! i)) \<le> seats"
    using Cons.prems(2,3) by auto
  show ?case
    unfolding for_each.simps
  proof (rule runs_bind[OF promote_pool_runs[OF laws Cons.prems(1) i]], unfold prod.case, elim conjE, goal_cases)
    case (1 r s1)
    from Cons.IH[OF 1(2)] Cons.prems(2,3) show ?case
      by (intro runs_bind[OF Cons.IH[OF 1(2)]]) (auto simp: 1(1) intro!: runs_return)
  qed
qed (auto intro!: runs_return)

section \<open>The command\<close>

lemma plain_sel [simp]:
  "l_operator (plain L) = l_operator L" "l_power (plain L) = l_power L" "l_rate (plain L) = l_rate L"
  "l_operator_stake (plain L) = l_operator_stake L" "l_delegated (plain L) = l_delegated L"
  "l_deposit (plain L) = l_deposit L" "l_auto (plain L) = l_auto L" "l_nvp (plain L) = l_nvp L"
  by (simp_all add: plain_def)

lemma plain_twice: "plain (plain L) = plain L"
  by (simp add: plain_def)

lemma stake_in_plain [simp]: "stake_in (plain L) = stake_in L" "staked (plain L) = staked L" "deposited (plain L) = deposited L"
  using stakes_same[of "plain L" L] by (simp_all add: deposited_def fun_eq_iff)

lemma ledger_inv_plain: "ledger_inv cmp (plain L) bal = ledger_inv cmp L bal" "total_supply (plain L) bal = total_supply L bal"
  by (simp_all add: inv_defs total_supply_def)

text \<open>Tokens that an epoch may issue.\<close>

definition epoch_issuance :: "validator_performance \<Rightarrow> validators \<Rightarrow> nat" where
  "epoch_issuance perf V = (\<Sum>x\<leftarrow>v_current V. epoch_reward perf (v_epoch V) (length (v_current V)) (fst x))"

text \<open>What the stakers and the operators are paid.\<close>

definition epoch_income :: "validator_performance \<Rightarrow> ledger \<Rightarrow> validators \<Rightarrow> public_address \<Rightarrow> public_address \<Rightarrow> nat" where
  "epoch_income perf L V = pools_income (epoch_reward perf (v_epoch V) (length (v_current V))) L (v_current V)"

text \<open>The payments in the order in which they are made, and those of them that are to be staked.\<close>

definition epoch_payments :: "validator_performance \<Rightarrow> validators \<Rightarrow> rewards" where
  "epoch_payments perf V =
     concat (map (\<lambda>x. pool_payments (epoch_reward perf (v_epoch V) (length (v_current V)) (fst x)) x) (v_current V))"

definition epoch_autos :: "validator_performance \<Rightarrow> ledger \<Rightarrow> validators \<Rightarrow> rewards" where
  "epoch_autos perf L V = chosen L (epoch_payments perf V)"

lemma to_stake_concat: "to_stake (concat pss) op own = (\<Sum>ps\<leftarrow>pss. to_stake ps op own)"
  by (induction pss) simp_all

lemma to_stake_autos:
  assumes "settings_kept L"
  shows "to_stake (epoch_autos perf L V) op own = (if l_auto L op own = Some True then epoch_income perf L V op own else 0)"
proof (cases "l_auto L op own = Some True")
  case True
  then have "l_deposit L op own \<noteq> None"
    using assms unfolding settings_kept_def by (metis option.distinct(1))
  then show ?thesis
    using True by (simp add: epoch_autos_def to_stake_chosen epoch_payments_def epoch_income_def pools_income_def to_stake_concat
        comp_def to_stake_pool)
qed (simp add: epoch_autos_def to_stake_chosen)

definition sets_wf :: "nat \<Rightarrow> nat \<Rightarrow> validators \<Rightarrow> bool" where
  "sets_wf most seats V \<longleftrightarrow> distinct (map (pl_operator \<circ> fst) (v_current V)) \<and> length (v_current V) \<le> most \<and>
     (\<forall>x\<in>set (v_current V). validator_wf x \<and> length (snd x) \<le> seats)"

text \<open>
  The sets after an epoch: the current set has become the previous one and the pools of the next set,
  with the powers, rates and stakes that they have in the ledger, make up the current one.
\<close>

fun taken_from :: "ledger \<Rightarrow> pool \<times> stake list \<Rightarrow> bool" where
  "taken_from L (p, ss) \<longleftrightarrow>
     l_operator L (pl_operator p) = Some (pl_operator p) \<and> l_power L (pl_operator p) = Some (pl_power p) \<and>
     l_rate L (pl_operator p) = Some (pl_commission_rate p) \<and>
     l_operator_stake L (pl_operator p) = Some (pl_operator_stake p) \<and>
     distinct (map owner ss) \<and> map_of (map stake_entry ss) = l_delegated L (pl_operator p)"

definition rotated :: "validators \<Rightarrow> ledger \<Rightarrow> validators \<Rightarrow> bool" where
  "rotated V L' V' \<longleftrightarrow> v_epoch V' = v_epoch V + 1 \<and> v_previous V' = v_current V \<and>
     distinct (map (pl_operator \<circ> fst) (v_current V')) \<and>
     (pl_operator \<circ> fst) ` set (v_current V') = dom (l_nvp L') \<and> (\<forall>x\<in>set (v_current V'). taken_from L' x)"

definition reported :: "validators \<Rightarrow> validators \<Rightarrow> validator_changes" where
  "reported V V' = validator_changes_of (map fst (v_current V))
     (map (\<lambda>x. (pl_operator (fst x), pl_power (fst x))) (v_current V'))"

lemma taken_plain: "taken_from (plain L) = taken_from L"
  by (simp add: fun_eq_iff)

lemma nvp_promotable:
  assumes "ledger_inv cmp L bal" "op \<in> dom (l_nvp L)"
  shows "promotable L op"
proof -
  obtain pw where pw: "l_nvp L op = Some pw"
    using assms(2) by auto
  then have "pool_in L op" "l_power L op = Some pw"
    using assms(1) ledger_wf_nvp[OF ledger_inv_wf[OF assms(1)], of op]
    by (auto simp: ledger_inv_def nvp_current_def)
  then show ?thesis
    using assms(1) by (auto simp: promotable_def ledger_inv_def records_complete_def)
qed

lemma snapshot_taken:
  assumes "promotable L op" "distinct (map owner (ly_stakes ly op))" "map_of (map stake_entry (ly_stakes ly op)) = l_delegated L op"
  shows "taken_from L (snapshot L ly op)" "pl_operator (fst (snapshot L ly op)) = op"
  using assms by (auto simp: snapshot_def promotable_def)

text \<open>What is taken from the ledger is well formed, and locks what is staked.\<close>

lemma sum_entries:
  assumes "distinct (map owner ss)"
  shows "(\<Sum>own\<in>UNIV. case_option 0 id (map_of (map stake_entry ss) own)) = (\<Sum>k\<leftarrow>ss. stake_power k)"
  using assms
proof (induction ss)
  case (Cons k ss)
  let ?f = "\<lambda>own. case_option 0 id (map_of (map stake_entry ss) own)"
  have "map_of (map stake_entry ss) (owner k) = None"
    using Cons.prems by (auto simp: map_of_eq_None_iff stake_entry_def)
  moreover have eq: "case_option 0 id (map_of (map stake_entry (k # ss)) own) = (?f(owner k := stake_power k)) own" for own
    by (simp add: stake_entry_def)
  ultimately show ?case
    using sum_update[of ?f "owner k" "stake_power k"] Cons unfolding eq by simp
qed simp

lemma taken_stakes:
  assumes "taken_from L (p, ss)"
  shows "staked L (pl_operator p) own =
    (if own = pl_operator p then own_stake p else case_option 0 id (map_of (map stake_entry ss) own))"
  using assms by (simp add: staked_def stake_in_def own_stake_def split: option.split)

lemma taken_wf:
  assumes inv: "ledger_inv cmp L bal" and x: "taken_from L (p, ss)"
  shows "validator_wf (p, ss)"
proof -
  let ?op = "pl_operator p" and ?f = "\<lambda>own. case_option 0 id (map_of (map stake_entry ss) own)"
  have f: "l_operator L ?op = Some ?op" "l_power L ?op = Some (pl_power p)" "l_rate L ?op = Some (pl_commission_rate p)"
    "distinct (map owner ss)" "map_of (map stake_entry ss) = l_delegated L ?op"
    using x by simp_all
  have "?f ?op = 0"
    using inv f(5) by (simp add: ledger_inv_def stakes_covered_def)
  moreover have "staked L ?op = ?f(?op := own_stake p)"
    using taken_stakes[OF x] by (auto simp: fun_eq_iff)
  ultimately have "own_stake p + (\<Sum>k\<leftarrow>ss. stake_power k) = (\<Sum>own\<in>UNIV. staked L ?op own)"
    using sum_update[of ?f ?op "own_stake p"] sum_entries[OF f(4)] by simp
  moreover have "(\<Sum>own\<in>UNIV. staked L ?op own) \<le> U64_MAX"
    using pool_sum_le[of L ?op bal] inv by (simp add: ledger_inv_def)
  moreover have "pl_power p \<le> U64_MAX" "pl_commission_rate p \<le> 100"
    using pool_power(2)[of cmp L ?op "pl_power p"] inv f by (auto simp: ledger_inv_def records_complete_def)
  ultimately show ?thesis
    by (simp add: validator_wf_def)
qed

lemma locked_taken:
  assumes "\<forall>x\<in>set xs. taken_from L x" "(pl_operator \<circ> fst) ` set xs = dom (l_nvp L)"
  shows "locked_by xs op own = (if l_nvp L op = None then 0 else staked L op own)"
proof (cases "find (\<lambda>x. pl_operator (fst x) = op) xs")
  case None
  then have "op \<notin> (pl_operator \<circ> fst) ` set xs"
    by (auto simp: find_None_iff)
  then show ?thesis
    using assms(2) None by (simp add: locked_by_def domIff)
next
  case (Some x)
  obtain p ss where x: "x = (p, ss)"
    by force
  then have "(p, ss) \<in> set xs" "pl_operator p = op"
    using Some by (auto simp: find_Some_iff in_set_conv_nth) (metis fst_conv)
  moreover then have "op \<in> dom (l_nvp L)"
    using assms(2) by force
  ultimately show ?thesis
    using Some x taken_stakes[of L p ss own] assms(1) by (auto simp: locked_by_def)
qed

lemma map_upt_nth: "map (\<lambda>i. f (xs ! i)) [0..<length xs] = map f xs"
  by (rule nth_equalityI) simp_all

lemma rotation_runs:
  assumes laws: "epoch_laws N I led vb lay hnd most seats ok" and at: "at_sets led vb ok L V s"
    and inv: "ledger_inv cmp L bal" and wf: "sets_wf most seats V"
    and m: "\<And>x. x \<in> set (v_current V) \<Longrightarrow> map_of m (pl_operator (fst x)) = Some (snd x)"
    and epoch: "v_epoch V + 1 \<le> U64_MAX"
  shows "runs (do {
     (_, s) \<leftarrow> run_na I (vs_clear (pvp N)) s;
     (_, s) \<leftarrow> push_previous N I (map fst (v_current V)) m s;
     (_, s) \<leftarrow> run_na I (vs_clear (vp N)) s;
     (nvp_len, s) \<leftarrow> run_na I (nvp_length (nvp N)) s;
     (next_validator_set, s) \<leftarrow> for_each (promote_pool N I) [0..<nvp_len] s;
     epoch \<leftarrow> add_u64 (v_epoch V) 1;
     (_, s) \<leftarrow> run_na I (na_set_current_epoch N epoch) s;
     Some (validator_changes_of (map fst (v_current V)) next_validator_set, s)
   }) (\<lambda>changes s'. \<exists>L' V'. at_sets led vb ok L' V' s' \<and> plain L' = plain L \<and> rotated V L' V' \<and> sets_wf most seats V' \<and>
      changes = reported V V')"
proof -
  let ?P = "plain L" and ?ly = "lay s"
  let ?ops = "ly_nvp ?ly"
  note W = epoch_laws_parts(4)[OF laws] and R = epoch_laws_parts(5)[OF laws]
  have "listed most seats L V ?ly" and at0: "at_all led vb lay ok ?P V ?ly s"
    using epoch_laws_parts(6)[OF laws, of s] at by (auto simp: at_ledger_def)
  then have lst: "distinct ?ops" "set ?ops = dom (l_nvp L)" "length ?ops \<le> most"
    "\<And>op. distinct (map owner (ly_stakes ?ly op)) \<and> map_of (map stake_entry (ly_stakes ?ly op)) = l_delegated L op \<and>
       length (ly_stakes ?ly op) \<le> seats"
    by (simp_all add: listed_def)
  have prom: "promotable ?P op" if "op \<in> set ?ops" for op
    using nvp_promotable[OF inv] that lst(2) by (simp add: promotable_def)
  define V1 where "V1 = V\<lparr>v_previous := []\<rparr>"
  define V2 where "V2 = V1\<lparr>v_previous := v_previous V1 @ v_current V\<rparr>"
  define V3 where "V3 = V2\<lparr>v_current := []\<rparr>"
  define V4 where "V4 = V3\<lparr>v_current := v_current V3 @ map (\<lambda>i. snapshot ?P ?ly (?ops ! i)) [0..<length ?ops]\<rparr>"
  define V5 where "V5 = V4\<lparr>v_epoch := v_epoch V + 1\<rparr>"
  note Vs = V5_def V4_def V3_def V2_def V1_def
  have cur: "v_current V5 = map (snapshot ?P ?ly) ?ops"
    by (simp add: Vs map_upt_nth)
  have push: "runs (push_previous N I (map fst (v_current V)) m s') (\<lambda>_. at_all led vb lay ok ?P V2 ?ly)"
    if "at_all led vb lay ok ?P V1 ?ly s'" for s'
    unfolding V2_def using m wf by (intro push_previous_runs[OF W that]) (auto simp: sets_wf_def V1_def)
  have promote: "runs (for_each (promote_pool N I) [0..<length ?ops] s')
    (\<lambda>r s'. r = map (\<lambda>i. (?ops ! i, the (l_power ?P (?ops ! i)))) [0..<length ?ops] \<and> at_all led vb lay ok ?P V4 ?ly s')"
    if "at_all led vb lay ok ?P V3 ?ly s'" for s'
    unfolding V4_def using prom lst(3,4) by (intro promote_pools_runs[OF W R that]) (auto simp: V3_def)
  have rot: "rotated V L5 V5" if "plain L5 = ?P" for L5
  proof -
    have "taken_from (plain L5) (snapshot ?P ?ly op)" if "op \<in> set ?ops" for op
      using snapshot_taken(1)[OF prom[OF that], of ?ly] lst(4) \<open>plain L5 = ?P\<close> by simp
    moreover have "l_nvp L5 = l_nvp L"
      using plain_sel(8)[of L5] plain_sel(8)[of L] that by simp
    moreover have "(pl_operator \<circ> fst) \<circ> snapshot ?P ?ly = (\<lambda>op. op)"
      by (simp add: snapshot_def fun_eq_iff)
    ultimately show ?thesis
      using lst(1,2) by (simp add: rotated_def cur taken_plain image_image snapshot_def comp_def) (simp add: Vs)
  qed
  have "map (\<lambda>i. (?ops ! i, the (l_power ?P (?ops ! i)))) [0..<length ?ops] =
    map (\<lambda>x. (pl_operator (fst x), pl_power (fst x))) (v_current V5)"
    by (simp add: cur snapshot_def map_upt_nth[where f = "\<lambda>op. (op, the (l_power L op))"])
  then have rep: "validator_changes_of (map fst (v_current V)) (map (\<lambda>i. (?ops ! i, the (l_power ?P (?ops ! i)))) [0..<length ?ops]) =
    reported V V5"
    by (simp only: reported_def)
  have "validator_wf (snapshot ?P ?ly op) \<and> length (snd (snapshot ?P ?ly op)) \<le> seats" if "op \<in> set ?ops" for op
    using taken_wf[where L = ?P and cmp = cmp and bal = bal] inv snapshot_taken(1)[OF prom[OF that], of ?ly] lst(4)[of op]
    by (simp add: ledger_inv_plain snapshot_def)
  then have wf5: "sets_wf most seats V5"
    using rot[of ?P] lst(3) by (simp add: sets_wf_def rotated_def cur plain_twice)
  have final: "\<exists>L' V'. at_sets led vb ok L' V' s' \<and> plain L' = plain L \<and> rotated V L' V' \<and> sets_wf most seats V' \<and>
      reported V V5 = reported V V'"
    if "at_all led vb lay ok ?P V5 ?ly s'" for s'
    using that rot[of "led s'"] wf5 by (intro exI[of _ "led s'"] exI[of _ V5]) (simp add: at_ledger_def)
  have add: "add_u64 (v_epoch V) 1 = Some (v_epoch V + 1)"
    using epoch by (simp add: checked_defs)
  show ?thesis
    unfolding add Option.bind.simps
    using at0
    by - (rule set_writes(1)[OF W, THEN updates_bind], assumption, rule TrueI, unfold prod.case, fold V1_def,
      rule runs_bind[OF push], assumption, unfold prod.case,
      rule set_writes(2)[OF W, THEN updates_bind], assumption, rule TrueI, unfold prod.case, fold V3_def,
      rule promote_reads(1)[OF R, THEN answers_bind], assumption, unfold prod.case,
      rule runs_bind[OF promote], assumption, unfold prod.case, elim conjE, hypsubst,
      rule set_writes(5)[OF W, THEN updates_bind], assumption, rule TrueI, unfold prod.case, fold V5_def,
      rule runs_return, unfold rep, rule final, assumption)
qed

text \<open>
  What the command does. The books stay in order. Each deposit grows by exactly its income, and all
  together by at most the rewards of the pools. Then the incomes of the accounts that asked for it are
  staked, one after the other and nothing else: from the ledger with the new deposits on, \<open>auto_staked\<close>
  leads to the new one. So no stake grows by more than the income, and in a pool where every such account
  has a place each of these stakes grows by exactly the income. The sets are rotated and the changes
  reported; the stakes that the current set locked are locked by the previous one, and the current set
  locks what is staked in its pools.
\<close>

definition epoch_done ::
  "validator_performance \<Rightarrow> bank \<Rightarrow> ledger \<Rightarrow> validators \<Rightarrow> validator_changes \<Rightarrow> ledger \<Rightarrow> validators \<Rightarrow> bool" where
  "epoch_done perf bal L V changes L' V' \<longleftrightarrow>
     ledger_inv (\<le>) L' bal \<and> (\<forall>op own. deposited L' op own = deposited L op own + epoch_income perf L V op own) \<and>
     (\<exists>L1. auto_staked (epoch_autos perf L V) (L\<lparr>l_deposit := l_deposit L', l_auto := l_auto L'\<rparr>) L1 \<and> plain L' = plain L1) \<and>
     (\<forall>op own. staked L' op own \<le> staked L op own + (if l_auto L op own = Some True then epoch_income perf L V op own else 0)) \<and>
     (\<forall>op own. all_seated (epoch_autos perf L V) L op \<longrightarrow>
        staked L' op own = staked L op own + (if l_auto L op own = Some True then epoch_income perf L V op own else 0)) \<and>
     total_supply L' bal \<le> total_supply L bal + epoch_issuance perf V \<and>
     rotated V L' V' \<and> changes = reported V V' \<and> locked_in l_pvp L' = locked_in l_vp L \<and>
     (\<forall>op own. locked_in l_vp L' op own = (if l_nvp L' op = None then 0 else staked L' op own))"

text \<open>The stakes after the payments \<open>L1\<close>, the auto stakes \<open>L2\<close> and the rotation \<open>L'\<close>.\<close>

lemma rewards_staked:
  assumes "auto_staked autos L1 L2" "plain L' = plain L2" "L1 = L\<lparr>l_deposit := d, l_auto := a\<rparr>"
    and fits: "\<And>x y. staked L1 x y + to_stake autos x y \<le> U64_MAX"
  shows "auto_staked autos (L\<lparr>l_deposit := l_deposit L', l_auto := l_auto L'\<rparr>) L2"
    "all_seated autos L op \<Longrightarrow> staked L' op own = staked L op own + to_stake autos op own"
proof -
  have "l_deposit L' = d" "l_auto L' = a"
    using auto_staked_frame[OF assms(1)] plain_sel(6,7)[of L'] plain_sel(6,7)[of L2] assms(2,3) by simp_all
  then show "auto_staked autos (L\<lparr>l_deposit := l_deposit L', l_auto := l_auto L'\<rparr>) L2"
    using assms(1,3) by simp
  have st: "staked L1 = staked L" "staked L' = staked L2"
    using stakes_same[of L1 L] stake_in_plain(2)[of L'] stake_in_plain(2)[of L2] assms(2,3) by simp_all
  assume "all_seated autos L op"
  then have "all_seated autos L1 op"
    by (simp add: all_seated_def assms(3))
  from auto_staked_exact[OF assms(1) this fits] show "staked L' op own = staked L op own + to_stake autos op own"
    by (simp add: st)
qed

lemma listed_locks:
  assumes "epoch_laws N I led vb lay hnd most seats ok" "at_sets led vb ok L V s"
  shows "locked_in l_vp L = locked_by (v_current V)" "locked_in l_pvp L = locked_by (v_previous V)"
  using epoch_laws_parts(6)[OF assms(1), of s] assms(2) by (auto simp: at_ledger_def listed_def)

lemma next_epoch_on_runs:
  assumes laws: "epoch_laws N I led vb lay hnd most seats ok" and at: "at_sets led vb ok L V s"
    and inv: "ledger_inv (\<le>) L bal" and wf: "sets_wf most seats V" "performance_wf perf"
    and room: "total_supply L bal + epoch_issuance perf V \<le> U64_MAX" "v_epoch V + 1 \<le> U64_MAX"
  shows "runs (next_epoch_on N I perf s) (\<lambda>changes s'. \<exists>L' V'. at_sets led vb ok L' V' s' \<and>
    epoch_done perf bal L V changes L' V' \<and> sets_wf most seats V')"
proof -
  let ?n = "length (v_current V)"
  note S = epoch_laws_parts(3)[OF laws]
  have read: "runs (for_each (read_vp_pool N I) [0..<?n] s') (\<lambda>ys s'. ys = map fst (v_current V) \<and> at_sets led vb ok L V s')"
    if "at_sets led vb ok L V s'" for s'
    unfolding map_upt_nth[of fst, symmetric]
    by (rule for_each_runs[where P = "at_sets led vb ok L V", OF _ that]) (auto intro: read_vp_pool_runs[OF S])
  have fits: "all_deposits L + (\<Sum>x\<leftarrow>v_current V. epoch_reward perf (v_epoch V) ?n (fst x)) \<le> U64_MAX"
    using room(1) by (simp add: epoch_issuance_def supply_deposits)
  have dist: "distinct (map (pl_operator \<circ> fst) (v_current V))" and valid: "\<forall>x\<in>set (v_current V). validator_wf x"
    using wf(1) by (simp_all add: sets_wf_def)
  note pay = reward_pools_runs[OF laws dist wf(2) subset_refl dist valid _ inv_settings[OF inv] fits]
  show ?thesis
    unfolding next_epoch_on_def Let_def
  proof (rule answers_bind[OF set_reads(1)[OF S] at], unfold prod.case snd_conv,
      erule answers_bind[OF set_reads(2)[OF S]], unfold prod.case snd_conv, rule runs_bind[OF read], assumption,
      unfold prod.case, elim conjE, hypsubst, rule runs_bind[OF pay], assumption, unfold prod.case, elim exE conjE, goal_cases)
    case (1 s1 s2 ps s3 rounds s4 L1 made)
    note rounds = 1(3) and paid = paid_inv[OF 1(6)[folded epoch_issuance_def] inv room(1)]
    have list: "concat (map snd rounds) = epoch_autos perf L V"
      using 1(4) by (simp add: epoch_autos_def epoch_payments_def)
    note autos = auto_stakes_runs[OF epoch_laws_parts(1)[OF laws] 1(5)[unfolded at_pair] paid(1,3)]
    note to = to_stake_autos[OF inv_settings[OF inv], of perf V]
    have income: "deposited L1 op own = deposited L op own + epoch_income perf L V op own" for op own
      using paid_entries(1)[OF 1(6)] by (simp add: epoch_income_def)
    obtain d a where L1: "L1 = L\<lparr>l_deposit := d, l_auto := a\<rparr>"
      using paid_whole(1)[OF 1(6)] by blast
    have fits: "staked L1 x y + to_stake (epoch_autos perf L V) x y \<le> U64_MAX" for x y
      using paid(3)[of x y] supply_ge[of bal y L1 x y] paid(4) room(1) unfolding list by simp
    show ?case
    proof (rule runs_bind[OF autos], unfold prod.case, elim exE conjE, fold at_pair, goal_cases)
      case (1 u s5 L2)
      show ?case
      proof (rule runs_mono[OF rotation_runs[OF laws 1(1,2) wf(1) stakes_of_sets[OF dist rounds] room(2)]], assumption,
          elim exE conjE, goal_cases)
        case (1 changes s' L' V')
        note locks = listed_locks[OF laws at] listed_locks[OF laws 1(1)]
        have stakes: "staked L' op own \<le> staked L op own + (if l_auto L op own = Some True then epoch_income perf L V op own else 0)"
          for op own
          using \<open>\<forall>x y. staked L2 x y \<le> _\<close> paid(2) 1(2) stake_in_plain(2)[of L'] stake_in_plain(2)[of L2]
          unfolding list to by simp
        note staked = rewards_staked[OF \<open>auto_staked _ L1 L2\<close>[unfolded list] 1(2) L1 fits, unfolded to]
        have steps: "\<exists>L1. auto_staked (epoch_autos perf L V) (L\<lparr>l_deposit := l_deposit L', l_auto := l_auto L'\<rparr>) L1 \<and> plain L' = plain L1"
          using staked(1) 1(2) by blast
        have "deposited L' = deposited L1" "ledger_inv (\<le>) L' bal" "total_supply L' bal = total_supply L1 bal"
          using \<open>deposited L2 = deposited L1\<close> \<open>ledger_inv (\<le>) L2 bal\<close> 1(2) stake_in_plain(3)[of L'] stake_in_plain(3)[of L2]
            ledger_inv_plain(1)[of "(\<le>)" L' bal] ledger_inv_plain(1)[of "(\<le>)" L2 bal]
            ledger_inv_plain(2)[of L' bal] ledger_inv_plain(2)[of L2 bal] supply_cong[of L2 L1 bal] by simp_all
        moreover have "locked_by (v_current V') op own = (if l_nvp L' op = None then 0 else staked L' op own)" for op own
          using 1(3) by (intro locked_taken) (simp_all add: rotated_def)
        ultimately show ?case
          using 1 income paid(4) locks unfolding epoch_done_def
          by (intro exI[of _ L'] exI[of _ V'] conjI allI impI stakes staked(2) steps) (simp_all add: rotated_def)
      qed
    qed
  qed
qed

section \<open>The network account of a runtime\<close>

definition epoch_network_laws ::
  "('w, 'c, 'm, 'v) runtime \<Rightarrow> (net_storage \<Rightarrow> ledger) \<Rightarrow> (net_storage \<Rightarrow> validators) \<Rightarrow> (net_storage \<Rightarrow> layout) \<Rightarrow>
   (nat \<Rightarrow> pool_handle) \<Rightarrow> nat \<Rightarrow> nat \<Rightarrow> (net_storage \<Rightarrow> bool) \<Rightarrow> bool" where
  "epoch_network_laws R ab vb lay hnd most seats good \<longleftrightarrow> (let view = net_view (rt_ws R) (NETWORK_ADDRESS (rt_net R)) in
     epoch_laws (rt_net R) (ws_nas (rt_ws R) (NETWORK_ADDRESS (rt_net R))) (\<lambda>s. ab (view s)) (\<lambda>s. vb (view s))
       (\<lambda>s. lay (view s)) hnd most seats (ws_ok (rt_ws R) (NETWORK_ADDRESS (rt_net R)) good))"

end
