(* ===== verification/Example_Epoch.thy ===== *)
theory Example_Epoch
  imports Example_Ledger Epoch_Refinement
begin

text \<open>
  The network account of \<open>Example_Ledger\<close> keeps the laws of the next epoch command too: each validator
  set has room for one pool, in cells of its own, with one delegated stake.
\<close>

section \<open>What the cells hold of the validator sets\<close>

type_synonym cells = "byte \<Rightarrow> public_address \<Rightarrow> public_address \<Rightarrow> nat option"

definition slot_stakes :: "nat option \<Rightarrow> stake list" where
  "slot_stakes v = (case v of Some e \<Rightarrow> [slot_stake e] | None \<Rightarrow> [])"

definition seated :: "cells \<Rightarrow> public_address \<Rightarrow> (pool \<times> stake list) list" where
  "seated c w = (case c 8 w 0 of None \<Rightarrow> [] | Some n \<Rightarrow>
     [(\<lparr>pl_operator = word_of_nat n, pl_commission_rate = or_zero (c 9 w 0), pl_power = or_zero (c 10 w 0),
        pl_operator_stake = dec_stake (or_zero (c 11 w 0))\<rparr>, slot_stakes (c 12 w 0))])"

definition sets_of :: "cells \<Rightarrow> validators" where
  "sets_of c = \<lparr>v_epoch = or_zero (c 13 0 0), v_current = seated c 0, v_previous = seated c 1\<rparr>"

abbreviation validators_of :: "net_storage \<Rightarrow> validators" where
  "validators_of \<sigma> \<equiv> sets_of (cell \<sigma>)"

definition layout_of :: "net_storage \<Rightarrow> layout" where
  "layout_of \<sigma> = \<lparr>ly_nvp = (case cell \<sigma> 7 0 0 of None \<Rightarrow> [] | Some e \<Rightarrow> [entry_owner e]),
     ly_stakes = (\<lambda>op. slot_stakes (cell \<sigma> 4 op 0))\<rparr>"

definition seat :: "nat \<Rightarrow> pool_handle" where
  "seat i = [0]"

lemma slot_stakes_of: "map_of (map stake_entry (slot_stakes v)) = slot_of v" "distinct (map owner (slot_stakes v))"
  "length (slot_stakes v) \<le> Suc 0"
  by (auto simp: slot_stakes_def slot_of_def slot_stake_def stake_entry_def fun_eq_iff split: option.split)

lemma locked_seated:
  "locked_in l_vp (ledger_of \<sigma>) = locked_by (seated (cell \<sigma>) 0)"
  "locked_in l_pvp (ledger_of \<sigma>) = locked_by (seated (cell \<sigma>) 1)"
  by (auto simp: fun_eq_iff locked_in_def locked_by_def ledger_of_def seated_def seat_handle_def handle_set_def
      slot_stakes_of own_stake_def split: option.split)

lemma cells_listed: "listed 1 1 (ledger_of \<sigma>) (validators_of \<sigma>) (layout_of \<sigma>)"
proof -
  have "set (ly_nvp (layout_of \<sigma>)) = dom (l_nvp (ledger_of \<sigma>))"
    by (cases "cell \<sigma> 7 0 0") (auto simp: layout_of_def ledger_of_def slot_of_def split: if_split_asm)
  moreover have "distinct (ly_nvp (layout_of \<sigma>))" "length (ly_nvp (layout_of \<sigma>)) \<le> 1"
    by (simp_all add: layout_of_def split: option.split)
  moreover have "l_delegated (ledger_of \<sigma>) op = slot_of (cell \<sigma> 4 op 0)"
    "ly_stakes (layout_of \<sigma>) op = slot_stakes (cell \<sigma> 4 op 0)" for op
    by (simp_all add: ledger_of_def layout_of_def)
  ultimately show ?thesis
    by (simp add: listed_def locked_seated slot_stakes_of sets_of_def)
qed

section \<open>The laws of the next epoch\<close>

lemma cell_epoch:
  "na_current_epoch cell_network = get_cell 13 0 0 (\<lambda>v. NA_Return (or_zero v))"
  "na_set_current_epoch cell_network n = set_cell 13 0 0 n (NA_Return ())"
  by (simp_all add: cell_network_def)

text \<open>States that differ in the cells of one validator set only.\<close>

definition elsewhere :: "public_address \<Rightarrow> net_storage \<Rightarrow> net_storage \<Rightarrow> bool" where
  "elsewhere w \<sigma> \<sigma>' \<longleftrightarrow> (\<forall>t a b. t \<notin> {8, 9, 10, 11, 12} \<or> a \<noteq> w \<longrightarrow> cell \<sigma>' t a b = cell \<sigma> t a b)"

lemma elsewhere_same:
  assumes "elsewhere w \<sigma> \<sigma>'"
  shows "plain (ledger_of \<sigma>') = plain (ledger_of \<sigma>)" "layout_of \<sigma>' = layout_of \<sigma>" "cell \<sigma>' 13 0 0 = cell \<sigma> 13 0 0"
    "w' \<noteq> w \<Longrightarrow> seated (cell \<sigma>') w' = seated (cell \<sigma>) w'"
proof -
  have c: "cell \<sigma>' t a b = cell \<sigma> t a b" if "t \<notin> {8, 9, 10, 11, 12}" for t a b
    using assms that by (simp add: elsewhere_def)
  show "plain (ledger_of \<sigma>') = plain (ledger_of \<sigma>)" "layout_of \<sigma>' = layout_of \<sigma>" "cell \<sigma>' 13 0 0 = cell \<sigma> 13 0 0"
    by (simp_all add: plain_def ledger_of_def layout_of_def c fun_eq_iff)
  have "cell \<sigma>' t w' b = cell \<sigma> t w' b" if "w' \<noteq> w" for t b
    using assms that by (simp add: elsewhere_def)
  then show "w' \<noteq> w \<Longrightarrow> seated (cell \<sigma>') w' = seated (cell \<sigma>) w'"
    by (simp add: seated_def split: option.split)
qed

context cell_storage
begin

lemma answers_get_if:
  assumes "\<And>s. ok s \<Longrightarrow> Q (obs s) \<Longrightarrow> F (ab (obs s)) = f (cell (obs s) t a b)"
  shows "answers I (\<lambda>s. ab (obs s)) (\<lambda>s. ok s \<and> Q (obs s)) (get_cell t a b (\<lambda>v. NA_Return (f v))) F"
  unfolding answers_def
proof (intro allI impI, elim conjE)
  fix s
  assume "ok s" "Q (obs s)"
  from run_get_cell[OF this(1), of t a b "\<lambda>v. NA_Return (f v)"] assms[OF this] this(2)
  show "\<exists>s'. run_na I (get_cell t a b (\<lambda>v. NA_Return (f v))) s = Some (F (ab (obs s)), s') \<and>
      ab (obs s') = ab (obs s) \<and> ok s' \<and> Q (obs s')"
    by auto
qed

lemma set_read_laws_cells: "set_read_laws cell_network I (\<lambda>s. ledger_of (obs s)) (\<lambda>s. validators_of (obs s)) seat ok"
proof -
  let ?ab = "\<lambda>\<sigma>. (ledger_of \<sigma>, validators_of \<sigma>)"
  have reads: "answers I (\<lambda>s. ?ab (obs s)) ok (na_current_epoch cell_network) (\<lambda>A. v_epoch (snd A))"
    "answers I (\<lambda>s. ?ab (obs s)) ok (vs_length (vp cell_network)) (\<lambda>A. length (v_current (snd A)))"
    "answers I (\<lambda>s. ?ab (obs s)) ok (vs_pool (vp cell_network) op)
        (\<lambda>A. map_option seat (index_of op (v_current (snd A))))" for op
    unfolding network_cells cell_set_def Let_def handle_set_def validator_set_api.simps cell_epoch
    by (rule answers_get[where ab = ?ab];
        auto simp: sets_of_def seated_def index_of_def seat_def seat_handle_def split: option.split)+
  have place: "place_answers I (\<lambda>s. ledger_of (obs s)) (\<lambda>s. validators_of (obs s)) ok i p ss
      (get_cell t 0 0 (\<lambda>v. NA_Return (f v))) x"
    if "\<And>\<sigma>. i = 0 \<Longrightarrow> seated (cell \<sigma>) 0 = [(p, ss)] \<Longrightarrow> x = f (cell \<sigma> t 0 0)" for i p ss t f x
  proof -
    let ?Q = "\<lambda>\<sigma>. i < length (v_current (validators_of \<sigma>)) \<and> v_current (validators_of \<sigma>) ! i = (p, ss)"
    have "?Q \<sigma> \<Longrightarrow> i = 0 \<and> seated (cell \<sigma>) 0 = [(p, ss)]" for \<sigma>
      by (auto simp: sets_of_def seated_def split: option.split_asm)
    then show ?thesis
      unfolding holding_def using that by (intro answers_get_if[where ab = ?ab and Q = ?Q]) blast
  qed
  show ?thesis
    unfolding set_read_laws_def
    by (intro conjI allI impI reads)
      (auto simp: network_cells cell_set_def cell_vs_pools_def Let_def seat_def handle_set_def intro!: place,
       auto simp: seated_def slot_stakes_def split: option.split_asm)
qed

lemma vs_push_updates:
  fixes ab :: "net_storage \<Rightarrow> 'l"
  assumes free: "{8, 9, 10, 11, 12, 13} \<subseteq> free"
    and "\<And>\<sigma>. pre (ab \<sigma>) \<Longrightarrow> length ss \<le> 1"
    and "\<And>\<sigma> \<sigma>'. pre (ab \<sigma>) \<Longrightarrow> seated (cell \<sigma>') (handle_set h) = [(p, ss)] \<Longrightarrow>
      elsewhere (handle_set h) \<sigma> \<sigma>' \<Longrightarrow> ab \<sigma>' = u (ab \<sigma>)"
  shows "updates I (\<lambda>s. ab (obs s)) ok (vs_push (cell_set h) p ss) pre u"
proof -
  let ?w = "handle_set h"
  note sets = stores_set[OF stores_set[OF stores_set[OF stores_set[OF stores_set[OF stores_return]]]]]
    and dels = stores_set[OF stores_set[OF stores_set[OF stores_set[OF stores_del[OF stores_return]]]]]
  show ?thesis
  proof (cases ss)
    case Nil
    show ?thesis
      unfolding Nil cell_set_def Let_def validator_set_api.simps list.case
      by (rule stores_updates[where ab = ab, OF dels]; (rule assms(3), assumption)?)
        (use free in \<open>auto simp: elsewhere_def Nil seated_def slot_stakes_def or_zero_def\<close>)
  next
    case (Cons k ks)
    show ?thesis
      unfolding Cons cell_set_def Let_def validator_set_api.simps list.case
      by (rule stores_updates[where ab = ab, OF sets]; (rule assms(3), assumption)?)
        (use free assms(2) in \<open>auto simp: elsewhere_def Cons seated_def slot_stakes_def slot_stake_def or_zero_def\<close>)
  qed
qed

lemma vs_clear_updates:
  fixes ab :: "net_storage \<Rightarrow> 'l"
  assumes free: "{8, 9, 10, 11, 12, 13} \<subseteq> free"
    and "\<And>\<sigma> \<sigma>'. seated (cell \<sigma>') (handle_set h) = [] \<Longrightarrow>
      elsewhere (handle_set h) \<sigma> \<sigma>' \<Longrightarrow> ab \<sigma>' = u (ab \<sigma>)"
  shows "updates I (\<lambda>s. ab (obs s)) ok (vs_clear (cell_set h)) any u"
  unfolding cell_set_def Let_def validator_set_api.simps
  by (rule stores_updates[where ab = ab, OF stores_del[OF stores_del[OF stores_del[OF stores_del[OF stores_del[OF stores_return]]]]]];
      (rule assms(2))?)
    (use free in \<open>auto simp: elsewhere_def seated_def\<close>)

lemma set_write_laws_cells:
  assumes "{8, 9, 10, 11, 12, 13} \<subseteq> free"
  shows "set_write_laws cell_network I (\<lambda>s. (plain (ledger_of (obs s)), validators_of (obs s), layout_of (obs s))) 1 1 ok"
proof -
  let ?ab = "\<lambda>\<sigma>. (plain (ledger_of \<sigma>), validators_of \<sigma>, layout_of \<sigma>)"
  have h: "handle_set [0] = 0" "handle_set [1] = 1"
    by (simp_all add: handle_set_def)
  have push: "updates I (\<lambda>s. ?ab (obs s)) ok (vs_push (cell_set [1]) p ss)
        (\<lambda>(L, V, ly). length (v_previous V) < 1 \<and> length ss \<le> 1)
        (\<lambda>(L, V, ly). (L, V\<lparr>v_previous := v_previous V @ [(p, ss)]\<rparr>, ly))"
    "updates I (\<lambda>s. ?ab (obs s)) ok (vs_push (cell_set [0]) p ss)
        (\<lambda>(L, V, ly). length (v_current V) < 1 \<and> length ss \<le> 1)
        (\<lambda>(L, V, ly). (L, V\<lparr>v_current := v_current V @ [(p, ss)]\<rparr>, ly))" for p ss
    by (rule vs_push_updates[where ab = ?ab, OF assms]; simp add: sets_of_def h elsewhere_same)+
  have clear: "updates I (\<lambda>s. ?ab (obs s)) ok (vs_clear (cell_set [1])) any (\<lambda>(L, V, ly). (L, V\<lparr>v_previous := []\<rparr>, ly))"
    "updates I (\<lambda>s. ?ab (obs s)) ok (vs_clear (cell_set [0])) any (\<lambda>(L, V, ly). (L, V\<lparr>v_current := []\<rparr>, ly))"
    by (rule vs_clear_updates[where ab = ?ab, OF assms]; simp add: sets_of_def h elsewhere_same)+
  have "updates I (\<lambda>s. ?ab (obs s)) ok (set_cell 13 0 0 n (NA_Return ())) any (\<lambda>(L, V, ly). (L, V\<lparr>v_epoch := n\<rparr>, ly))" for n
    by (rule stores_updates[where ab = ?ab, OF stores_set[OF stores_return]])
      (use assms in \<open>auto simp: sets_of_def plain_def ledger_of_def layout_of_def seated_def or_zero_def fun_eq_iff split: option.split\<close>)
  then show ?thesis
    unfolding set_write_laws_def network_cells cell_epoch by (intro conjI allI push clear)
qed

lemma promote_laws_cells:
  "promote_laws cell_network I (\<lambda>s. (plain (ledger_of (obs s)), validators_of (obs s), layout_of (obs s))) ok"
proof -
  let ?ab = "\<lambda>\<sigma>. (plain (ledger_of \<sigma>), validators_of \<sigma>, layout_of \<sigma>)"
  have slots: "(case v of None \<Rightarrow> [] | Some e \<Rightarrow> [slot_stake e]) = slot_stakes v" for v
    by (simp add: slot_stakes_def split: option.split)
  show ?thesis
    unfolding promote_laws_def network_cells cell_nvp_def cell_pools_def nvp_api.simps pool_api.simps
    by (intro conjI allI; rule answers_get[where ab = ?ab])
      (auto simp: ledger_of_def layout_of_def slots slot_pool_def slot_of_def split: option.split)
qed

lemma raise_pay_laws_cells:
  assumes "{0, 1, 2, 3, 4, 5, 6, 7} \<subseteq> free"
  shows "raise_laws cell_network I (\<lambda>s. ledger_of (obs s)) ok" "pay_laws cell_network I (\<lambda>s. ledger_of (obs s)) ok"
  using ledger_raise[OF ledger_laws_cells[OF assms]] deposit_laws_cells assms
  by (auto simp: pay_laws_def deposit_laws_def)

end

text \<open>The commands of other transactions write the cells of the ledger and leave the validator sets alone.\<close>

definition ledger_tags :: "byte set" where
  "ledger_tags = {0, 1, 2, 3, 4, 5, 6, 7}"

lemma agreeing_sets: "agreeing ledger_tags (\<lambda>c. sets_of c = V) = (\<lambda>\<sigma>. sound \<sigma> \<and> validators_of \<sigma> = V)"
proof -
  have "sets_of (\<lambda>t. if t \<in> ledger_tags then (\<lambda>_ _. None) else c t) = sets_of c" for c
    by (simp add: sets_of_def seated_def ledger_tags_def)
  then show ?thesis
    by (simp add: agreeing_def fun_eq_iff)
qed

lemma network_laws_sets:
  fixes R :: "('w, 'c, 'm, 'v) runtime"
  assumes "rt_net R = cell_network"
  shows "network_laws R ledger_of (\<lambda>\<sigma>. sound \<sigma> \<and> validators_of \<sigma> = V)"
  unfolding network_laws_def assms agreeing_sets[symmetric] by (rule cg.ledger_laws_cells) (simp add: ledger_tags_def)

lemma epoch_laws_cells:
  fixes R :: "('w, 'c, 'm, 'v) runtime"
  assumes "rt_net R = cell_network"
  shows "epoch_network_laws R ledger_of validators_of layout_of seat 1 1 sound"
proof -
  have ok: "(\<lambda>s. ws_ok W net sound s \<and> validators_of (net_view W net s) = V) =
      ws_ok W net (agreeing ledger_tags (\<lambda>c. sets_of c = V))" for W :: "'w ws_ops" and net V
    by (simp add: ws_ok_def agreeing_sets fun_eq_iff)
  note cells = cw.raise_pay_laws_cells[where free = ledger_tags and q = "\<lambda>c. sets_of c = V" for V]
  note sets = cw.set_read_laws_cells[where free = UNIV and q = "\<lambda>_. True", unfolded agreeing_all]
    cw.set_write_laws_cells[where free = UNIV and q = "\<lambda>_. True", unfolded agreeing_all]
    cw.promote_laws_cells[where free = UNIV and q = "\<lambda>_. True", unfolded agreeing_all]
  show ?thesis
    unfolding epoch_network_laws_def epoch_laws_def Let_def assms ok
    by (intro conjI allI impI cells sets cells_listed) (simp_all add: ledger_tags_def)
qed

end
