(* ===== verification/Epoch_Transactions.thy ===== *)
theory Epoch_Transactions
  imports Ledger_Transactions Epoch_Properties Example_Epoch
begin

text \<open>
  Next epoch transactions on the ledger, and histories of transactions of every kind. A valid next
  epoch transaction goes through, pays out the rewards of the epoch and rotates the validator sets;
  along a history the books stay in order, the supply grows by at most what the epochs issue, and
  every valid next epoch transaction counts the epoch up by one.
\<close>

section \<open>The next epoch command on a world state\<close>

lemma new_cache_view:
  "net_view (rt_ws R) (NETWORK_ADDRESS (rt_net R)) (wsc_new w) = world_storage R w"
  using clean_views(4)[OF wsc_clean_new, of "rt_ws R" w]
  by (simp add: fun_eq_iff net_view_def world_storage_def)

lemma next_epoch_at:
  assumes laws: "epoch_network_laws R ab vb lay hnd most seats good"
    and at: "world_at R ab good L bal w" "vb (world_storage R w) = V"
    and inv: "ledger_inv (\<le>) L bal" "sets_wf most seats V"
    and perf: "bp_validator_performance params = Some perf" "performance_wf perf"
    and room: "total_supply L bal + epoch_issuance perf V \<le> U64_MAX" "v_epoch V + 1 \<le> U64_MAX"
  shows "\<exists>s changes. next_epoch R (initial_state self ver w meta params limit) =
      Some (set_es_cache (initial_state self ver w meta params limit) s, changes) \<and>
    (let \<sigma> = net_view (rt_ws R) (NETWORK_ADDRESS (rt_net R)) s in
      good \<sigma> \<and> epoch_done perf bal L V changes (ab \<sigma>) (vb \<sigma>) \<and> sets_wf most seats (vb \<sigma>))"
proof -
  let ?view = "net_view (rt_ws R) (NETWORK_ADDRESS (rt_net R))"
  have "at_sets (\<lambda>s. ab (?view s)) (\<lambda>s. vb (?view s)) (ws_ok (rt_ws R) (NETWORK_ADDRESS (rt_net R)) good) L V (wsc_new w)"
    using at by (simp add: at_ledger_def ws_ok_def new_cache_view world_at_def)
  from next_epoch_on_runs[OF laws[unfolded epoch_network_laws_def Let_def] this inv perf(2) room]
  obtain changes s where run: "next_epoch_on (rt_net R) (ws_nas (rt_ws R) (NETWORK_ADDRESS (rt_net R))) perf (wsc_new w) =
      Some (changes, s)" and "good (?view s)" "epoch_done perf bal L V changes (ab (?view s)) (vb (?view s))"
    "sets_wf most seats (vb (?view s))"
    unfolding runs_def at_ledger_def ws_ok_def by auto
  then show ?thesis
    by (intro exI[of _ s] exI[of _ changes]) (simp add: next_epoch_def perf Let_def)
qed

section \<open>Next epoch transactions\<close>

text \<open>The world state after an epoch.\<close>

definition epoch_moves ::
  "('w, 'c, 'm, 'v) runtime \<Rightarrow> (net_storage \<Rightarrow> ledger) \<Rightarrow> (net_storage \<Rightarrow> validators) \<Rightarrow> (net_storage \<Rightarrow> bool) \<Rightarrow>
   validator_performance \<Rightarrow> ledger \<Rightarrow> bank \<Rightarrow> 'w \<Rightarrow> ('w, 'r) transition_result \<Rightarrow> bool" where
  "epoch_moves R ab vb good perf L bal w res \<longleftrightarrow> (\<exists>changes L'. tr_validator_changes res = Some changes \<and>
     world_at R ab good L' bal (new_state res) \<and>
     epoch_done perf bal L (vb (world_storage R w)) changes L' (vb (world_storage R (new_state res))))"

lemma reads_live_storage:
  assumes "reads_live (\<lambda>\<sigma>. (ab \<sigma>, vb \<sigma>)) good"
    and "\<And>k. live (\<sigma> k) = live (\<sigma>' k)"
  shows "ab \<sigma> = ab \<sigma>'" "vb \<sigma> = vb \<sigma>'" "good \<sigma> = good \<sigma>'"
  using assms unfolding reads_live_def by blast+

text \<open>A next epoch transaction that has run moved the ledger.\<close>

lemma epoch_transaction_moves:
  fixes st :: "('w, 'c, 'e) execution_state"
  assumes run: "next_epoch R (initial_state self ver w meta params limit) = Some (st, changes)"
      "at_set_nonce (rt_ws R) (ws (es_cache st)) (signer meta) (saturating_add (nonce meta) 1) = Some w1"
      "handle_post_execution R F (set_es_cache st ((es_cache st)\<lparr>ws := w1\<rparr>)) changes = Some res"
    and laws: "ws_laws (rt_ws R)" "epoch_network_laws R ab vb lay hnd most seats good" "reads_live (\<lambda>\<sigma>. (ab \<sigma>, vb \<sigma>)) good"
    and at: "world_at R ab good L bal w" "vb (world_storage R w) = V"
    and inv: "ledger_inv (\<le>) L bal" "sets_wf most seats V"
    and perf: "bp_validator_performance params = Some perf" "performance_wf perf"
    and room: "total_supply L bal + epoch_issuance perf V \<le> U64_MAX" "v_epoch V + 1 \<le> U64_MAX"
  shows "tr_error res = None" "epoch_moves R ab vb good perf L bal w res" "sets_wf most seats (vb (world_storage R (new_state res)))"
proof -
  let ?view = "net_view (rt_ws R) (NETWORK_ADDRESS (rt_net R))"
  note world = epoch_world[OF run laws(1)]
  obtain s changes' where "next_epoch R (initial_state self ver w meta params limit :: ('w, 'c, 'e) execution_state) =
      Some (set_es_cache (initial_state self ver w meta params limit) s, changes')"
    "let \<sigma> = ?view s in good \<sigma> \<and> epoch_done perf bal L V changes' (ab \<sigma>) (vb \<sigma>) \<and> sets_wf most seats (vb \<sigma>)"
    using next_epoch_at[OF laws(2) at inv perf room, of self ver meta limit] by blast
  then have after: "good (?view (es_cache st))" "sets_wf most seats (vb (?view (es_cache st)))"
    "epoch_done perf bal L V changes (ab (?view (es_cache st))) (vb (?view (es_cache st)))"
    using run(1) by (auto simp: Let_def)
  have live: "live (world_storage R (new_state res) k) = live (?view (es_cache st) k)" for k
    using world(9) by (simp add: world_storage_def net_view_def)
  note same = reads_live_storage[OF laws(3) live]
  show "tr_error res = None"
    by (rule world)
  show "sets_wf most seats (vb (world_storage R (new_state res)))"
    using same after by simp
  show "epoch_moves R ab vb good perf L bal w res"
    unfolding epoch_moves_def
    using same after at world(1,4,7) by (auto simp: world_at_def)
qed

text \<open>It does run when the tries accept writes.\<close>

lemma epoch_transaction_returns:
  fixes R :: "('w, 'c, 'm, 'v) runtime" and F :: "('e, 'r) finalize_ops"
  assumes "f_into_receipt F [f_command_receipt F KNextEpoch Ok 0 (fst (oc_take oc_default))] 0 [KNextEpoch] \<noteq> None"
    and laws: "ws_laws (rt_ws R)" "epoch_network_laws R ab vb lay hnd most seats good" "reads_live (\<lambda>\<sigma>. (ab \<sigma>, vb \<sigma>)) good"
      "ws_writable (rt_ws R)"
    and at: "world_at R ab good L bal w" "vb (world_storage R w) = V"
    and inv: "ledger_inv (\<le>) L bal" "sets_wf most seats V"
    and tx: "valid_epoch_tx (rt_ws R) w tx params"
    and perf: "bp_validator_performance params = Some perf" "performance_wf perf"
    and room: "total_supply L bal + epoch_issuance perf V \<le> U64_MAX" "v_epoch V + 1 \<le> U64_MAX"
  shows "\<exists>res. execute_next_epoch_command R F (initial_state self ver w (txn_metadata_of ver tx) params limit)
      (tx_commands tx) = Some res \<and> tr_error res = None \<and> epoch_moves R ab vb good perf L bal w res"
proof -
  let ?st = "initial_state self ver w (txn_metadata_of ver tx) params limit :: ('w, 'c, 'e) execution_state"
  obtain s changes where run: "next_epoch R ?st = Some (set_es_cache ?st s, changes)"
    using next_epoch_at[OF laws(2) at inv perf room, of self ver "txn_metadata_of ver tx" limit] by blast
  obtain w1 where w1: "at_set_nonce (rt_ws R) (ws s) (tx_signer tx) (saturating_add (tx_nonce tx) 1) = Some w1"
    using laws(4) unfolding ws_writable_def by blast
  obtain res where post: "handle_post_execution R F (set_es_cache ?st (s\<lparr>ws := w1\<rparr>)) changes = Some res"
    using assms(1) commit_total[OF laws(4), of "s\<lparr>ws := w1\<rparr>"] tx
    unfolding post_execution_eq by (auto simp: valid_epoch_tx_def)
  have "execute_next_epoch_command R F ?st (tx_commands tx) = Some res"
    using tx run w1 post
    by (auto simp: execute_next_epoch_command_def valid_epoch_tx_def Let_def)
  then show ?thesis
    using epoch_transaction_moves[OF run _ _ laws(1-3) at inv perf room, of w1 F res] w1 post by auto
qed

lemma transition_epochs:
  assumes "NextEpoch \<in> set (tx_commands tx)"
  shows "transition_v1 R self w tx params = execute_next_epoch_command R finalize_v1
      (initial_state self V1 w (txn_metadata_of V1 tx) params (tx_gas_limit tx)) (tx_commands tx)"
    and "transition_v2 R self w tx params = execute_next_epoch_command R finalize_v2
      (initial_state self V2 w (txn_metadata_of V2 tx) params (tx_gas_limit tx)) (tx_commands tx)"
  using assms
  by (auto simp: transition_v1_def transition_v2_def execute_next_epoch_v1_def execute_next_epoch_v2_def Let_def
      txn_metadata_from_v1_def txn_metadata_from_v2_def txn_metadata_of_def list_ex_iff)

lemma epoch_receipts:
  "f_into_receipt finalize_v1 [f_command_receipt finalize_v1 KNextEpoch Ok 0 out] 0 [KNextEpoch] \<noteq> None"
  "f_into_receipt finalize_v2 [f_command_receipt finalize_v2 KNextEpoch Ok 0 out] 0 [KNextEpoch] \<noteq> None"
  by (simp_all add: finalize_v1_def finalize_v2_def into_receipt_v1_def into_receipt_v2_def command_receipt_v2_of_def Let_def)

lemma issuance_bound:
  assumes "sets_wf most seats V" "performance_wf perf"
  shows "730000 * epoch_issuance perf V \<le> 167 * (\<Sum>x\<leftarrow>v_current V. pl_power (fst x))"
proof -
  let ?n = "length (v_current V)"
  have "730000 * epoch_reward perf (v_epoch V) ?n (fst x) \<le> 167 * pl_power (fst x)" if "x \<in> set (v_current V)" for x
  proof (rule pool_reward_bound)
    have wf: "validator_wf (fst x, snd x)"
      using assms(1) that by (simp add: sets_wf_def)
    show "pool_reward (v_epoch V) (pl_power (fst x)) (proposed_blocks perf (pl_operator (fst x))) (blocks_per_epoch perf div ?n) =
      Some (epoch_reward perf (v_epoch V) ?n (fst x))"
      by (rule epoch_reward_eq[OF wf assms(2)])
    show "blocks_per_epoch perf div ?n \<le> U32_MAX"
      using assms(2) div_le_dividend[of "blocks_per_epoch perf" ?n] by (simp add: performance_wf_def del: div_le_dividend)
  qed (use assms that in \<open>auto simp: performance_wf_def sets_wf_def validator_wf_def\<close>)
  then show ?thesis
    unfolding epoch_issuance_def sum_list_const_mult[symmetric] by (rule sum_list_mono)
qed

section \<open>An example\<close>

text \<open>
  The pool of account 1 is in the current and in the next validator set: account 1 has staked half of
  its deposit of 2000000000000, account 2 all of its 3000000000000, and wants its rewards to be staked.
\<close>

definition epoch_cells :: "(bytes \<times> bytes) list" where
  "epoch_cells =
     [(cell_key 0 1 0, put_cell 1), (cell_key 1 1 0, put_cell 4000000000000), (cell_key 2 1 0, put_cell 10),
      (cell_key 3 1 0, put_cell (enc_stake (Some \<lparr>owner = 1, stake_power = 1000000000000\<rparr>))),
      (cell_key 4 1 0, put_cell (enc_entry 2 3000000000000)), (cell_key 5 1 1, put_cell 2000000000000),
      (cell_key 6 1 1, put_cell 0), (cell_key 5 1 2, put_cell 3000000000000), (cell_key 6 1 2, put_cell 1),
      (cell_key 7 0 0, put_cell (enc_entry 1 4000000000000)), (cell_key 8 0 0, put_cell 1), (cell_key 9 0 0, put_cell 10),
      (cell_key 10 0 0, put_cell 4000000000000),
      (cell_key 11 0 0, put_cell (enc_stake (Some \<lparr>owner = 1, stake_power = 1000000000000\<rparr>))),
      (cell_key 12 0 0, put_cell (enc_entry 2 3000000000000)), (cell_key 13 0 0, put_cell 4000)]"

definition epoch_storage :: net_storage where
  "epoch_storage = (\<lambda>k. Some (map_of epoch_cells k))"

definition epoch_world_state :: kv_world where
  "epoch_world_state = example_world\<lparr>kv_storage := (\<lambda>a k. if a = 0 then map_of epoch_cells k else None)\<rparr>"

definition epoch_ledger :: ledger where
  "epoch_ledger = ledger_of epoch_storage"

definition epoch_validators :: validators where
  "epoch_validators = \<lparr>v_epoch = 4000, v_current =
     [(\<lparr>pl_operator = 1, pl_commission_rate = 10, pl_power = 4000000000000,
         pl_operator_stake = Some \<lparr>owner = 1, stake_power = 1000000000000\<rparr>\<rparr>,
       [\<lparr>owner = 2, stake_power = 3000000000000\<rparr>])], v_previous = []\<rparr>"

definition epoch_performance :: validator_performance where
  "epoch_performance = \<lparr>blocks_per_epoch = 100, vp_stats = [(1, \<lparr>num_of_proposed_blocks = 60\<rparr>)]\<rparr>"

lemma epoch_cell:
  "cell epoch_storage t a b =
     (if (t, a, b) = (0, 1, 0) then Some 1 else if (t, a, b) = (1, 1, 0) then Some 4000000000000
      else if (t, a, b) = (2, 1, 0) then Some 10
      else if (t, a, b) = (3, 1, 0) then Some (enc_stake (Some \<lparr>owner = 1, stake_power = 1000000000000\<rparr>))
      else if (t, a, b) = (4, 1, 0) then Some (enc_entry 2 3000000000000)
      else if (t, a, b) = (5, 1, 1) then Some 2000000000000 else if (t, a, b) = (6, 1, 1) then Some 0
      else if (t, a, b) = (5, 1, 2) then Some 3000000000000 else if (t, a, b) = (6, 1, 2) then Some 1
      else if (t, a, b) = (7, 0, 0) then Some (enc_entry 1 4000000000000)
      else if (t, a, b) = (8, 0, 0) then Some 1 else if (t, a, b) = (9, 0, 0) then Some 10
      else if (t, a, b) = (10, 0, 0) then Some 4000000000000
      else if (t, a, b) = (11, 0, 0) then Some (enc_stake (Some \<lparr>owner = 1, stake_power = 1000000000000\<rparr>))
      else if (t, a, b) = (12, 0, 0) then Some (enc_entry 2 3000000000000)
      else if (t, a, b) = (13, 0, 0) then Some 4000 else None)"
  by (simp add: cell_def epoch_storage_def epoch_cells_def)

lemma epoch_ledger_sel:
  "l_operator epoch_ledger = (\<lambda>op. if op = 1 then Some 1 else None)"
  "l_power epoch_ledger = (\<lambda>op. if op = 1 then Some 4000000000000 else None)"
  "l_rate epoch_ledger = (\<lambda>op. if op = 1 then Some 10 else None)"
  "l_operator_stake epoch_ledger =
     (\<lambda>op. if op = 1 then Some (Some \<lparr>owner = 1, stake_power = 1000000000000\<rparr>) else None)"
  "l_delegated epoch_ledger = (\<lambda>op a. if op = 1 \<and> a = 2 then Some 3000000000000 else None)"
  "l_deposit epoch_ledger =
     (\<lambda>op a. if op = 1 \<and> a = 1 then Some 2000000000000 else if op = 1 \<and> a = 2 then Some 3000000000000 else None)"
  "l_nvp epoch_ledger = (\<lambda>op. if op = 1 then Some 4000000000000 else None)"
  "l_auto epoch_ledger = (\<lambda>op a. if op = 1 \<and> a = 1 then Some False else if op = 1 \<and> a = 2 then Some True else None)"
  by (auto simp: epoch_ledger_def ledger_of_def epoch_cell fun_eq_iff)

lemma epoch_staked:
  "staked epoch_ledger op own = (if op = 1 then ((\<lambda>_. 0)(1 := 1000000000000, 2 := 3000000000000)) own else 0)"
  by (simp add: staked_def stake_in_def epoch_ledger_sel)

lemma epoch_deposited: "deposited epoch_ledger op own =
    (if op = 1 then (if own = 1 then 2000000000000 else if own = 2 then 3000000000000 else 0) else 0)"
  by (simp add: deposited_def epoch_ledger_sel)

lemma epoch_supply: "total_supply epoch_ledger example_bank = 5001000000000"
proof -
  have "deposited epoch_ledger = upd2 (upd2 (\<lambda>_ _. 0) 1 1 2000000000000) 1 2 3000000000000"
    by (auto simp: epoch_deposited fun_eq_iff)
  then show ?thesis
    using sum_update[of "\<lambda>_ :: public_address. 0" 1 1000000000]
      sum_update2[of "\<lambda>_ _ :: public_address. 0" "1 :: public_address" 1 2000000000000]
      sum_update2[of "upd2 (\<lambda>_ _ :: public_address. 0) (1 :: public_address) 1 2000000000000" 1 2 3000000000000]
    by (simp add: total_supply_def example_bank_def)
qed

lemma epoch_ledger_inv: "ledger_inv (\<le>) epoch_ledger example_bank"
proof -
  have "(\<Sum>own\<in>UNIV. staked epoch_ledger 1 own) = 4000000000000"
    using sum_update[of "\<lambda>_ :: public_address. 0" 1 1000000000000]
      sum_update[of "(\<lambda>_ :: public_address. 0)(1 := 1000000000000)" 2 3000000000000]
    by (simp add: epoch_staked del: fun_upd_apply) simp
  then have "pools_add_up (\<le>) epoch_ledger"
    by (auto simp: pools_add_up_def epoch_ledger_sel stake_in_def U64_MAX_def)
  moreover have "records_complete epoch_ledger"
    by (simp add: records_complete_def epoch_ledger_sel)
  moreover have "stakes_covered epoch_ledger"
    by (simp add: stakes_covered_def epoch_staked epoch_deposited epoch_ledger_sel)
  moreover have "nvp_current epoch_ledger"
    by (simp add: nvp_current_def epoch_ledger_sel)
  ultimately show ?thesis
    using tally_le by (simp add: ledger_inv_def epoch_supply U64_MAX_def)
qed

lemma epoch_world_at: "world_at ledger_runtime ledger_of sound epoch_ledger example_bank epoch_world_state"
  "validators_of (world_storage ledger_runtime epoch_world_state) = epoch_validators"
proof -
  have storage: "world_storage ledger_runtime epoch_world_state = epoch_storage"
    by (simp add: world_storage_def ledger_runtime_def epoch_world_state_def kv_runtime_def kv_world_evals cell_network_def
        kv_network_def example_world_def epoch_storage_def fun_eq_iff)
  moreover have "at_balance (rt_ws ledger_runtime) epoch_world_state = (\<lambda>a. Some (example_bank a))"
    "at_code (rt_ws ledger_runtime) epoch_world_state (NETWORK_ADDRESS (rt_net ledger_runtime)) = Some None"
    by (simp_all add: ledger_runtime_def epoch_world_state_def kv_runtime_def kv_world_evals cell_network_def
        kv_network_def example_world_def example_bank_def fun_eq_iff)
  ultimately show "world_at ledger_runtime ledger_of sound epoch_ledger example_bank epoch_world_state"
    by (simp add: world_at_def sound_def epoch_ledger_def epoch_storage_def)
  show "validators_of (world_storage ledger_runtime epoch_world_state) = epoch_validators"
    unfolding storage
    by (simp add: sets_of_def seated_def epoch_cell slot_stakes_def slot_stake_def or_zero_def epoch_validators_def)
qed

lemma epoch_validators_wf: "sets_wf 1 1 epoch_validators" "performance_wf epoch_performance"
  by (simp_all add: sets_wf_def epoch_validators_def validator_wf_def own_stake_def performance_wf_def
      epoch_performance_def proposed_blocks_def U64_MAX_def U32_MAX_def)

lemma epoch_reward_value:
  "epoch_reward epoch_performance 4000 (Suc 0) (fst (hd (v_current epoch_validators))) = 98630136"
  by (simp add: epoch_reward_def epoch_performance_def proposed_blocks_def epoch_validators_def pool_reward_def issuance_def
      checked_defs div_u_def mul_u128_def U128_MAX_def as_u64_def U64_MAX_def CONSTANT_ISSUANCE_EPOCH_def)

lemma epoch_setting:
  "ws_laws (rt_ws ledger_runtime)" "ws_writable (rt_ws ledger_runtime)"
  "epoch_network_laws ledger_runtime ledger_of validators_of layout_of seat 1 1 sound"
  "reads_live (\<lambda>\<sigma>. (ledger_of \<sigma>, validators_of \<sigma>)) sound"
  "network_laws ledger_runtime ledger_of (\<lambda>\<sigma>. sound \<sigma> \<and> validators_of \<sigma> = V)"
proof -
  show "reads_live (\<lambda>\<sigma>. (ledger_of \<sigma>, validators_of \<sigma>)) sound"
    using ledger_reads_live cell_live unfolding reads_live_def by metis
  show "epoch_network_laws ledger_runtime ledger_of validators_of layout_of seat 1 1 sound"
    by (rule epoch_laws_cells) (simp add: ledger_runtime_def)
qed (simp_all add: ledger_runtime_def kv_runtime_def kv_ops_laws kv_ops_writable network_laws_sets)

lemma epoch_example_run:
  "valid_epoch_tx (rt_ws ledger_runtime) epoch_world_state (example_tx [NextEpoch] 0) epoch_block"
    "bp_validator_performance epoch_block = Some epoch_performance"
    "total_supply epoch_ledger example_bank + epoch_issuance epoch_performance epoch_validators \<le> U64_MAX"
    "v_epoch epoch_validators = 4000" "epoch_issuance epoch_performance epoch_validators = 98630136"
proof -
  show iss: "epoch_issuance epoch_performance epoch_validators = 98630136"
    using epoch_reward_value by (simp add: epoch_issuance_def epoch_validators_def)
  show "total_supply epoch_ledger example_bank + epoch_issuance epoch_performance epoch_validators \<le> U64_MAX"
    unfolding iss by (simp add: epoch_supply U64_MAX_def)
qed (simp_all add: valid_epoch_tx_def ledger_runtime_def epoch_world_state_def example_world_def kv_runtime_def kv_world_evals
    example_tx_def epoch_block_def epoch_performance_def epoch_validators_def)

section \<open>Properties\<close>

text \<open>C4: A valid next epoch transaction goes through, and moves the ledger by an epoch. On a network
  account whose books are in order no phase of it panics. Every staker of a pool of the current set
  who has a deposit is paid its share of the reward of the pool less the commission, the operator its
  own share and the commission; all of it is at most 167 parts in 730000 of the power of the set. Then the
  payments to accounts that asked for it, and no others, are staked in their order: in a pool that still
  exists the account's stake and the power of the pool grow by the payment, where an account that has no
  stake in the pool any more has to find a place among the delegated stakes; so the stakes in a pool where
  all these accounts have a place grow by exactly the payments. No stake exceeds its deposit and no pool
  has more stakes than power. The current set becomes the previous one, with the stakes that it locks, and
  the next set, as the ledger has it after the rewards, the current one; the epoch is counted up and
  the reported changes are those between the two sets.\<close>

theorem next_epoch_succeeds:
  fixes R :: "('w, 'c, 'm, 'v) runtime"
  assumes "ws_laws (rt_ws R)" "ws_writable (rt_ws R)" "epoch_network_laws R ab vb lay hnd most seats good"
      "reads_live (\<lambda>\<sigma>. (ab \<sigma>, vb \<sigma>)) good"
    and "world_at R ab good L bal w" "vb (world_storage R w) = V" "ledger_inv (\<le>) L bal" "sets_wf most seats V"
    and "valid_epoch_tx (rt_ws R) w tx params" "bp_validator_performance params = Some perf" "performance_wf perf"
    and "total_supply L bal + epoch_issuance perf V \<le> U64_MAX" "v_epoch V + 1 \<le> U64_MAX"
  shows "730000 * epoch_issuance perf V \<le> 167 * (\<Sum>x\<leftarrow>v_current V. pl_power (fst x)) \<and>
    (\<exists>res. transition_v1 R self w tx params = Some res \<and> tr_error res = None \<and>
      epoch_moves R ab vb good perf L bal w res) \<and>
    (\<exists>res. transition_v2 R self w tx params = Some res \<and> tr_error res = None \<and>
      epoch_moves R ab vb good perf L bal w res)"
proof -
  have "NextEpoch \<in> set (tx_commands tx)"
    using assms(9) by (simp add: valid_epoch_tx_def)
  note to = transition_epochs[OF this]
  show ?thesis
    unfolding to
    using issuance_bound[OF assms(8,11)] epoch_transaction_returns[OF epoch_receipts(1) assms(1,3,4,2,5-13)]
      epoch_transaction_returns[OF epoch_receipts(2) assms(1,3,4,2,5-13)] by blast
qed

text \<open>In the example the payment to account 2 is staked.\<close>

lemma epoch_example_income:
  "epoch_income epoch_performance epoch_ledger epoch_validators 1 1 = 32054794"
  "epoch_income epoch_performance epoch_ledger epoch_validators 1 2 = 66575342"
  "epoch_autos epoch_performance epoch_ledger epoch_validators = [(1, 2, 66575342)]"
  "all_seated (epoch_autos epoch_performance epoch_ledger epoch_validators) epoch_ledger 1"
proof -
  show autos: "epoch_autos epoch_performance epoch_ledger epoch_validators = [(1, 2, 66575342)]"
    using epoch_reward_value
    by (simp add: epoch_autos_def epoch_payments_def pool_payments_def epoch_validators_def own_stake_def epoch_ledger_sel
        net_share_def commission_on_def chosen_simps)
  show "all_seated (epoch_autos epoch_performance epoch_ledger epoch_validators) epoch_ledger 1"
    by (simp add: autos all_seated_def epoch_ledger_sel)
qed (use epoch_reward_value in \<open>simp_all add: epoch_income_def pools_income_def pool_income_def epoch_validators_def
    own_stake_def epoch_ledger_sel net_share_def commission_on_def\<close>)

lemma epoch_example_power:
  assumes "auto_staked [(1, 2, 66575342)] (epoch_ledger\<lparr>l_deposit := d, l_auto := a\<rparr>) L1"
  shows "l_power L1 1 = Some 4000066575342"
  using assms
  by (auto simp: epoch_ledger_sel stake_gained_Inr stake_rose_def stake_in_def set_pool_power_def saturating_add_def U64_MAX_def)

theorem next_epoch_succeeds_witness:
  "\<exists>res L'. transition_v1 ledger_runtime cached_runtime epoch_world_state (example_tx [NextEpoch] 0) epoch_block = Some res \<and>
     world_at ledger_runtime ledger_of sound L' example_bank (new_state res) \<and>
     deposited L' 1 1 = 2000032054794 \<and> deposited L' 1 2 = 3000066575342 \<and>
     staked L' 1 1 = 1000000000000 \<and> staked L' 1 2 = 3000066575342 \<and> l_power L' 1 = Some 4000066575342 \<and>
     v_epoch (validators_of (world_storage ledger_runtime (new_state res))) = 4001"
proof -
  have "v_epoch epoch_validators + 1 \<le> U64_MAX"
    by (simp add: epoch_validators_def U64_MAX_def)
  note run = next_epoch_succeeds[OF epoch_setting(1-4) epoch_world_at epoch_ledger_inv epoch_validators_wf(1)
      epoch_example_run(1,2) epoch_validators_wf(2) epoch_example_run(3) this,
      of cached_runtime]
  obtain res where res: "transition_v1 ledger_runtime cached_runtime epoch_world_state (example_tx [NextEpoch] 0) epoch_block = Some res"
    "epoch_moves ledger_runtime ledger_of validators_of sound epoch_performance epoch_ledger example_bank epoch_world_state res"
    using run by blast
  obtain changes L' where L': "world_at ledger_runtime ledger_of sound L' example_bank (new_state res)"
    "epoch_done epoch_performance example_bank epoch_ledger epoch_validators changes L'
       (validators_of (world_storage ledger_runtime (new_state res)))"
    using res(2) unfolding epoch_moves_def epoch_world_at(2) by blast
  have "deposited L' op own = deposited epoch_ledger op own + epoch_income epoch_performance epoch_ledger epoch_validators op own"
    "staked L' 1 own = staked epoch_ledger 1 own +
       (if l_auto epoch_ledger 1 own = Some True then epoch_income epoch_performance epoch_ledger epoch_validators 1 own else 0)"
    "v_epoch (validators_of (world_storage ledger_runtime (new_state res))) = v_epoch epoch_validators + 1"
    "l_power L' 1 = Some 4000066575342" for op own
    using L'(2) epoch_example_income(4) plain_sel(2) epoch_example_power
    unfolding epoch_done_def rotated_def epoch_example_income(3) by metis+
  from this(1)[of 1 1] this(1)[of 1 2] this(2)[of 1] this(2)[of 2] this(3,4)
  show ?thesis
    using res(1) L'(1) by (intro exI[of _ res] exI[of _ L'])
      (simp add: epoch_example_income epoch_deposited epoch_staked epoch_ledger_sel epoch_example_run(4))
qed

end
