(* ===== verification/Histories.thy ===== *)
theory Histories
  imports Epoch_Transactions
begin

text \<open>
  Histories of transactions of every kind: what the transactions between the epochs and the next
  epoch transactions do to the books, one after the other, over the whole life of a chain.
\<close>

section \<open>Steps of a history\<close>

text \<open>What a history has tallied: tokens that the fees burnt, tokens that the epochs may have issued, and the epochs.\<close>

record tallies =
  t_burnt :: nat
  t_issued :: nat
  t_epochs :: nat

definition no_tallies :: tallies where
  "no_tallies = \<lparr>t_burnt = 0, t_issued = 0, t_epochs = 0\<rparr>"

definition burn :: "nat \<Rightarrow> tallies \<Rightarrow> tallies" where
  "burn n t = t\<lparr>t_burnt := t_burnt t + n\<rparr>"

text \<open>A next epoch transaction counts when it is valid.\<close>

definition count_epoch ::
  "('w, 'c, 'm, 'v) runtime \<Rightarrow> (net_storage \<Rightarrow> validators) \<Rightarrow> 'w \<Rightarrow> transaction \<Rightarrow> blockchain_params \<Rightarrow> tallies \<Rightarrow> tallies" where
  "count_epoch R vb w tx params t = (case bp_validator_performance params of
     Some perf \<Rightarrow> if valid_epoch_tx (rt_ws R) w tx params
       then t\<lparr>t_issued := t_issued t + epoch_issuance perf (vb (world_storage R w)), t_epochs := t_epochs t + 1\<rparr> else t
   | None \<Rightarrow> t)"

definition performance_ok :: "blockchain_params \<Rightarrow> bool" where
  "performance_ok params \<longleftrightarrow> (\<forall>perf. bp_validator_performance params = Some perf \<longrightarrow> performance_wf perf)"

text \<open>Each step may run on a runtime of its own, since the directory of the contract cache changes from one to the next.\<close>

inductive history ::
  "('w, 'c, 'm, 'v) runtime \<Rightarrow> (net_storage \<Rightarrow> validators) \<Rightarrow> 'w \<Rightarrow> tallies \<Rightarrow> 'w \<Rightarrow> bool"
  for R vb w where
  start: "history R vb w no_tallies w"
| v1: "history R vb w t w1 \<Longrightarrow> no_module R (rn_sc_context self) \<Longrightarrow> transition_v1 R self w1 tx params = Some res \<Longrightarrow>
    NextEpoch \<notin> set (tx_commands tx) \<Longrightarrow> tx_gas_limit tx \<le> U64_MAX \<Longrightarrow>
    history R vb w (burn (fees_v1 params tx res) t) (new_state res)"
| v2: "history R vb w t w1 \<Longrightarrow> no_module R (rn_sc_context self) \<Longrightarrow> transition_v2 R self w1 tx params = Some res \<Longrightarrow>
    NextEpoch \<notin> set (tx_commands tx) \<Longrightarrow> tx_gas_limit tx \<le> U64_MAX \<Longrightarrow>
    history R vb w (burn (fees_v2 params res) t) (new_state res)"
| epoch_v1: "history R vb w t w1 \<Longrightarrow> transition_v1 R self w1 tx params = Some res \<Longrightarrow>
    NextEpoch \<in> set (tx_commands tx) \<Longrightarrow> performance_ok params \<Longrightarrow>
    history R vb w (count_epoch R vb w1 tx params t) (new_state res)"
| epoch_v2: "history R vb w t w1 \<Longrightarrow> transition_v2 R self w1 tx params = Some res \<Longrightarrow>
    NextEpoch \<in> set (tx_commands tx) \<Longrightarrow> performance_ok params \<Longrightarrow>
    history R vb w (count_epoch R vb w1 tx params t) (new_state res)"

lemma tallies_grow [simp]:
  "t_burnt (burn n t) = t_burnt t + n" "t_issued (burn n t) = t_issued t" "t_epochs (burn n t) = t_epochs t"
  "t_burnt (count_epoch R vb w tx params t) = t_burnt t"
  "t_issued t \<le> t_issued (count_epoch R vb w tx params t)" "t_epochs t \<le> t_epochs (count_epoch R vb w tx params t)"
  by (simp_all add: burn_def count_epoch_def split: option.split)

section \<open>What a history keeps\<close>

text \<open>The books after a history that began with a ledger \<open>L\<close>, balances \<open>bal\<close> and validator sets \<open>V\<close>.\<close>

definition in_order ::
  "('w, 'c, 'm, 'v) runtime \<Rightarrow> (net_storage \<Rightarrow> ledger) \<Rightarrow> (net_storage \<Rightarrow> validators) \<Rightarrow> nat \<Rightarrow> nat \<Rightarrow> (net_storage \<Rightarrow> bool) \<Rightarrow>
   nat \<Rightarrow> u64 \<Rightarrow> tallies \<Rightarrow> 'w \<Rightarrow> bool" where
  "in_order R ab vb most seats good tokens epoch t w \<longleftrightarrow> (\<exists>L bal. world_at R ab good L bal w \<and> ledger_inv (\<le>) L bal \<and>
     total_supply L bal + t_burnt t \<le> tokens + t_issued t) \<and>
     sets_wf most seats (vb (world_storage R w)) \<and> v_epoch (vb (world_storage R w)) = epoch + t_epochs t"

lemma world_at_sets:
  "world_at R ab (\<lambda>\<sigma>. good \<sigma> \<and> vb \<sigma> = V) L bal w \<longleftrightarrow> world_at R ab good L bal w \<and> vb (world_storage R w) = V"
  by (auto simp: world_at_def)

lemma reads_live_sets:
  assumes "reads_live (\<lambda>\<sigma>. (ab \<sigma>, vb \<sigma>)) good"
  shows "reads_live ab (\<lambda>\<sigma>. good \<sigma> \<and> vb \<sigma> = V)"
  unfolding reads_live_def
proof (intro allI impI)
  fix \<sigma> \<sigma>' :: net_storage
  assume "\<forall>k. live (\<sigma> k) = live (\<sigma>' k)"
  then show "ab \<sigma> = ab \<sigma>' \<and> (good \<sigma> \<and> vb \<sigma> = V) = (good \<sigma>' \<and> vb \<sigma>' = V)"
    using reads_live_storage[OF assms, of \<sigma> \<sigma>'] by simp
qed

text \<open>A step that keeps the validator sets and burns what the fees take.\<close>

lemma in_order_burn:
  assumes "in_order R ab vb most seats good tokens epoch t w1"
    and step: "\<And>L bal V. world_at R ab (\<lambda>\<sigma>. good \<sigma> \<and> vb \<sigma> = V) L bal w1 \<Longrightarrow> ledger_inv (\<le>) L bal \<Longrightarrow>
      \<exists>L' bal'. world_at R ab (\<lambda>\<sigma>. good \<sigma> \<and> vb \<sigma> = V) L' bal' w' \<and> ledger_inv (\<le>) L' bal' \<and>
        total_supply L' bal' + n = total_supply L bal"
  shows "in_order R ab vb most seats good tokens epoch (burn n t) w'"
proof -
  let ?V = "vb (world_storage R w1)"
  obtain L bal where L: "world_at R ab good L bal w1" "ledger_inv (\<le>) L bal" "total_supply L bal + t_burnt t \<le> tokens + t_issued t"
    using assms(1) by (auto simp: in_order_def)
  then obtain L' bal' where L': "world_at R ab (\<lambda>\<sigma>. good \<sigma> \<and> vb \<sigma> = ?V) L' bal' w'" "ledger_inv (\<le>) L' bal'"
    "total_supply L' bal' + n = total_supply L bal"
    using step[of ?V L bal] by (auto simp: world_at_sets)
  moreover have "total_supply L' bal' + t_burnt (burn n t) \<le> tokens + t_issued (burn n t)"
    using L(3) L'(3) by simp
  ultimately show ?thesis
    using assms(1) unfolding in_order_def world_at_sets by auto
qed

lemma in_order_epoch:
  assumes order: "in_order R ab vb most seats good tokens epoch t w1"
    and run: "execute_next_epoch_command R F (initial_state self ver w1 (txn_metadata_of ver tx) params limit) (tx_commands tx) = Some res"
    and laws: "ws_laws (rt_ws R)" "epoch_network_laws R ab vb lay hnd most seats good" "reads_live (\<lambda>\<sigma>. (ab \<sigma>, vb \<sigma>)) good"
    and perf: "performance_ok params"
    and room: "tokens + t_issued (count_epoch R vb w1 tx params t) \<le> U64_MAX"
      "epoch + t_epochs (count_epoch R vb w1 tx params t) \<le> U64_MAX"
  shows "in_order R ab vb most seats good tokens epoch (count_epoch R vb w1 tx params t) (new_state res)"
  using run
proof (cases rule: epoch_transaction_cases)
  case invalid
  then show ?thesis
    using order by (simp add: count_epoch_def split: option.split)
next
  case (valid st changes w2)
  let ?V = "vb (world_storage R w1)"
  obtain pf where pf: "bp_validator_performance params = Some pf" "performance_wf pf"
    using valid(1) perf by (auto simp: valid_epoch_tx_def performance_ok_def)
  then have t': "count_epoch R vb w1 tx params t =
      t\<lparr>t_issued := t_issued t + epoch_issuance pf ?V, t_epochs := t_epochs t + 1\<rparr>"
    using valid(1) by (simp add: count_epoch_def)
  obtain L bal where L: "world_at R ab good L bal w1" "ledger_inv (\<le>) L bal" "total_supply L bal + t_burnt t \<le> tokens + t_issued t"
    and V: "sets_wf most seats ?V" "v_epoch ?V = epoch + t_epochs t"
    using order by (auto simp: in_order_def)
  have fits: "total_supply L bal + epoch_issuance pf ?V \<le> U64_MAX" "v_epoch ?V + 1 \<le> U64_MAX"
    using room L(3) V(2) by (simp_all add: t')
  note moves = epoch_transaction_moves[OF valid(2) _ valid(4) laws L(1) refl L(2) V(1) pf fits]
  obtain L' ch where L': "world_at R ab good L' bal (new_state res)"
    "epoch_done pf bal L ?V ch L' (vb (world_storage R (new_state res)))"
    using moves(2) valid(3) by (auto simp: epoch_moves_def)
  have "total_supply L' bal \<le> total_supply L bal + epoch_issuance pf ?V" "ledger_inv (\<le>) L' bal"
    "v_epoch (vb (world_storage R (new_state res))) = v_epoch ?V + 1"
    using L'(2) unfolding epoch_done_def rotated_def by blast+
  then show ?thesis
    using L' L(3) V(2) moves(3) valid(3) unfolding in_order_def t' by (auto intro!: exI[of _ L'] exI[of _ bal])
qed

section \<open>Properties\<close>

text \<open>C2: The books stay in order over the whole life of a chain. Take any history of transactions of both
  versions, next epoch transactions among them, valid or not: from a world state whose books are in
  order it leads to another. No pool has more stakes than power, no stake exceeds its deposit, the next
  validator set is current and the pools of the current set are well formed; the epoch has been counted
  up once for each valid next epoch transaction; and the sum of all balances and deposits, with what
  the fees have burnt, has grown by at most what the epochs issued. The conditions: every transaction
  other than next epoch runs on a runtime whose contract cache, if it has one, holds no module for the
  address of the network account; the cache keeps the modules of different addresses apart; no contract
  is deployed at that address; and neither what is issued nor the epochs leave 64 bits.\<close>

theorem history_in_order:
  fixes R :: "('w, 'c, 'm, 'v) runtime"
  assumes "ws_laws (rt_ws R)" "\<forall>V. network_laws R ab (\<lambda>\<sigma>. good \<sigma> \<and> vb \<sigma> = V)"
      "epoch_network_laws R ab vb lay hnd most seats good" "reads_live (\<lambda>\<sigma>. (ab \<sigma>, vb \<sigma>)) good" "contracts_apart R"
    and "world_at R ab good L bal w" "vb (world_storage R w) = V" "ledger_inv (\<le>) L bal" "sets_wf most seats V"
    and "history R vb w t w'"
    and "total_supply L bal + t_issued t \<le> U64_MAX" "v_epoch V + t_epochs t \<le> U64_MAX"
  shows "\<exists>L' bal' V'. world_at R ab good L' bal' w' \<and> vb (world_storage R w') = V' \<and> ledger_inv (\<le>) L' bal' \<and>
    sets_wf most seats V' \<and> v_epoch V' = v_epoch V + t_epochs t \<and>
    total_supply L' bal' + t_burnt t \<le> total_supply L bal + t_issued t"
proof -
  have "in_order R ab vb most seats good (total_supply L bal) (v_epoch V) t w'"
    using assms(10-12)
  proof (induction)
    case start
    then show ?case
      using assms(6-9) unfolding in_order_def no_tallies_def by auto
  next
    case (v1 t w1 self tx params res)
    show ?case
      using v1 transition_v1_books[OF v1(3-5,2) assms(1) assms(2)[rule_format] reads_live_sets[OF assms(4)] assms(5)]
      by (intro in_order_burn[of R ab vb most seats good _ _ t w1]) auto
  next
    case (v2 t w1 self tx params res)
    show ?case
      using v2 transition_v2_books[OF v2(3-5,2) assms(1) assms(2)[rule_format] reads_live_sets[OF assms(4)] assms(5)]
      by (intro in_order_burn[of R ab vb most seats good _ _ t w1]) auto
  next
    case (epoch_v1 t w1 self tx params res)
    then show ?case
      using tallies_grow(5,6)[of t R vb w1 tx params]
      by (intro in_order_epoch[OF _ _ assms(1,3,4)]) (auto simp: transition_epochs(1)[OF epoch_v1(3)] simp del: tallies_grow)
  next
    case (epoch_v2 t w1 self tx params res)
    then show ?case
      using tallies_grow(5,6)[of t R vb w1 tx params]
      by (intro in_order_epoch[OF _ _ assms(1,3,4)]) (auto simp: transition_epochs(2)[OF epoch_v2(3)] simp del: tallies_grow)
  qed
  then show ?thesis
    unfolding in_order_def by blast
qed

text \<open>A short history with an epoch in it: the owner of a deposit tops it up, then the epoch changes.\<close>

lemma topup_before_epoch:
  "\<exists>res. transition_v1 ledger_runtime cached_runtime epoch_world_state (example_tx [TopUpDeposit 1 10] 500000)
      example_block = Some res \<and> tr_error res = None \<and> at_nonce (rt_ws ledger_runtime) (new_state res) 1 = Some 1"
  by (simp add: transition_evals topup_deposit_def ledger_evals epoch_world_state_def epoch_cells_def cong: eval_congs)

definition epoch_tx :: transaction where
  "epoch_tx = (example_tx [NextEpoch] 0)\<lparr>tx_nonce := 1\<rparr>"

lemma topup_then_epoch:
  assumes "transition_v1 ledger_runtime cached_runtime epoch_world_state (example_tx [TopUpDeposit 1 10] 500000) example_block = Some res"
    and "at_nonce (rt_ws ledger_runtime) (new_state res) 1 = Some 1"
    and "transition_v1 ledger_runtime cached_runtime (new_state res) epoch_tx epoch_block = Some res'"
    and "validators_of (world_storage ledger_runtime (new_state res)) = epoch_validators"
  shows "history ledger_runtime validators_of epoch_world_state
    \<lparr>t_burnt = fees_v1 example_block (example_tx [TopUpDeposit 1 10] 500000) res, t_issued = 98630136, t_epochs = 1\<rparr> (new_state res')"
proof -
  let ?t = "burn (fees_v1 example_block (example_tx [TopUpDeposit 1 10] 500000) res) no_tallies"
  have "history ledger_runtime validators_of epoch_world_state ?t (new_state res)"
    by (rule history.v1[OF history.start cached_runtime_apart assms(1)]) (simp_all add: U64_MAX_def)
  moreover have "performance_ok epoch_block"
    using epoch_example_run(2) epoch_validators_wf(2) by (simp add: performance_ok_def)
  ultimately have "history ledger_runtime validators_of epoch_world_state
    (count_epoch ledger_runtime validators_of (new_state res) epoch_tx epoch_block ?t) (new_state res')"
    by (intro history.epoch_v1[OF _ assms(3)]) (simp_all add: epoch_tx_def)
  moreover have "valid_epoch_tx (rt_ws ledger_runtime) (new_state res) epoch_tx epoch_block"
    using assms(2) by (simp add: valid_epoch_tx_def epoch_tx_def epoch_example_run(2))
  ultimately show ?thesis
    by (simp add: count_epoch_def epoch_example_run no_tallies_def burn_def assms(4))
qed

theorem history_in_order_witness:
  "\<exists>res res' L' bal'. transition_v1 ledger_runtime cached_runtime epoch_world_state (example_tx [TopUpDeposit 1 10] 500000)
       example_block = Some res \<and> tr_error res = None \<and>
     transition_v1 ledger_runtime cached_runtime (new_state res) epoch_tx epoch_block = Some res' \<and>
     world_at ledger_runtime ledger_of sound L' bal' (new_state res') \<and> ledger_inv (\<le>) L' bal' \<and>
     v_epoch (validators_of (world_storage ledger_runtime (new_state res'))) = 4001 \<and>
     total_supply L' bal' + fees_v1 example_block (example_tx [TopUpDeposit 1 10] 500000) res \<le> 5001098630136"
proof -
  obtain res where res: "transition_v1 ledger_runtime cached_runtime epoch_world_state (example_tx [TopUpDeposit 1 10] 500000)
      example_block = Some res" "tr_error res = None" "at_nonce (rt_ws ledger_runtime) (new_state res) 1 = Some 1"
    using topup_before_epoch by blast
  let ?fees = "fees_v1 example_block (example_tx [TopUpDeposit 1 10] 500000) res"
  have small: "NextEpoch \<notin> set (tx_commands (example_tx [TopUpDeposit 1 10] 500000))"
    "tx_gas_limit (example_tx [TopUpDeposit 1 10] 500000) \<le> U64_MAX"
    by (simp_all add: U64_MAX_def)
  have "world_at ledger_runtime ledger_of (\<lambda>\<sigma>. sound \<sigma> \<and> validators_of \<sigma> = epoch_validators) epoch_ledger example_bank epoch_world_state"
    using epoch_world_at by (simp add: world_at_sets)
  from transition_v1_books[OF res(1) small cached_runtime_apart epoch_setting(1,5) reads_live_sets[OF epoch_setting(4)]
      ledger_apart this epoch_ledger_inv]
  obtain L1 bal1 where at: "world_at ledger_runtime ledger_of sound L1 bal1 (new_state res)"
      "validators_of (world_storage ledger_runtime (new_state res)) = epoch_validators"
    and inv: "ledger_inv (\<le>) L1 bal1" and tokens: "total_supply L1 bal1 \<le> 5001000000000"
    by (auto simp: world_at_sets epoch_supply)
  have tx: "valid_epoch_tx (rt_ws ledger_runtime) (new_state res) epoch_tx epoch_block"
    using res(3) by (simp add: valid_epoch_tx_def epoch_tx_def epoch_example_run(2))
  have fits: "total_supply L1 bal1 + epoch_issuance epoch_performance epoch_validators \<le> U64_MAX"
    "v_epoch epoch_validators + 1 \<le> U64_MAX"
    using tokens by (simp_all add: epoch_example_run(4,5) U64_MAX_def)
  obtain res' where res': "transition_v1 ledger_runtime cached_runtime (new_state res) epoch_tx epoch_block = Some res'"
    using epoch_transaction_returns[OF epoch_receipts(1) epoch_setting(1,3,4,2) at inv epoch_validators_wf(1) tx
      epoch_example_run(2) epoch_validators_wf(2) fits, of cached_runtime V1]
    by (auto simp: transition_epochs(1) epoch_tx_def)
  have room: "total_supply epoch_ledger example_bank + t_issued \<lparr>t_burnt = ?fees, t_issued = 98630136, t_epochs = 1\<rparr> \<le> U64_MAX"
    "v_epoch epoch_validators + t_epochs \<lparr>t_burnt = ?fees, t_issued = 98630136, t_epochs = 1\<rparr> \<le> U64_MAX"
    by (simp_all add: epoch_supply epoch_example_run(4) U64_MAX_def)
  from history_in_order[OF epoch_setting(1) allI[OF epoch_setting(5)] epoch_setting(3,4) ledger_apart epoch_world_at
      epoch_ledger_inv epoch_validators_wf(1) topup_then_epoch[OF res(1,3) res' at(2)] room] res res'
  show ?thesis
    by (auto simp: epoch_supply epoch_example_run(4))
qed

end
