(* ===== verification/Wasm_Opcodes.thy ===== *)
theory Wasm_Opcodes
  imports Contract_Module
begin

text \<open>
  The legal opcodes and their price: the middleware that rejects non-deterministic operators,
  \<^verbatim>\<open>src/contract/wasmer/non_determinism_filter.rs\<close>, and the schedule that the metering middleware
  charges, in \<^verbatim>\<open>src/gas/constants.rs\<close>. Both match on the variant of an \<^verbatim>\<open>Operator\<close> and never on its
  immediates, so an operator is the name of its variant. The match of the filter has no default
  branch: its families list every operator there is.
\<close>

type_synonym operator = string

section \<open>The opcode families\<close>

definition reference_types :: "operator list" where
  "reference_types =
     [''RefNull'', ''RefIsNull'', ''RefFunc'', ''ReturnCall'', ''ReturnCallIndirect'',
      ''TypedSelect'', ''TableGet'', ''TableSet'', ''TableGrow'', ''TableSize'']"

definition atomic_operations :: "operator list" where
  "atomic_operations =
     [''MemoryAtomicNotify'', ''MemoryAtomicWait32'', ''MemoryAtomicWait64'', ''AtomicFence'',
      ''I32AtomicLoad'', ''I64AtomicLoad'', ''I32AtomicLoad8U'', ''I32AtomicLoad16U'',
      ''I64AtomicLoad8U'', ''I64AtomicLoad16U'', ''I64AtomicLoad32U'', ''I32AtomicStore'',
      ''I64AtomicStore'', ''I32AtomicStore8'', ''I32AtomicStore16'', ''I64AtomicStore8'',
      ''I64AtomicStore16'', ''I64AtomicStore32'', ''I32AtomicRmwAdd'', ''I64AtomicRmwAdd'',
      ''I32AtomicRmw8AddU'', ''I32AtomicRmw16AddU'', ''I64AtomicRmw8AddU'', ''I64AtomicRmw16AddU'',
      ''I64AtomicRmw32AddU'', ''I32AtomicRmwSub'', ''I64AtomicRmwSub'', ''I32AtomicRmw8SubU'',
      ''I32AtomicRmw16SubU'', ''I64AtomicRmw8SubU'', ''I64AtomicRmw16SubU'', ''I64AtomicRmw32SubU'',
      ''I32AtomicRmwAnd'', ''I64AtomicRmwAnd'', ''I32AtomicRmw8AndU'', ''I32AtomicRmw16AndU'',
      ''I64AtomicRmw8AndU'', ''I64AtomicRmw16AndU'', ''I64AtomicRmw32AndU'', ''I32AtomicRmwOr'',
      ''I64AtomicRmwOr'', ''I32AtomicRmw8OrU'', ''I32AtomicRmw16OrU'', ''I64AtomicRmw8OrU'',
      ''I64AtomicRmw16OrU'', ''I64AtomicRmw32OrU'', ''I32AtomicRmwXor'', ''I64AtomicRmwXor'',
      ''I32AtomicRmw8XorU'', ''I32AtomicRmw16XorU'', ''I64AtomicRmw8XorU'', ''I64AtomicRmw16XorU'',
      ''I64AtomicRmw32XorU'', ''I32AtomicRmwXchg'', ''I64AtomicRmwXchg'', ''I32AtomicRmw8XchgU'',
      ''I32AtomicRmw16XchgU'', ''I64AtomicRmw8XchgU'', ''I64AtomicRmw16XchgU'',
      ''I64AtomicRmw32XchgU'', ''I32AtomicRmwCmpxchg'', ''I64AtomicRmwCmpxchg'',
      ''I32AtomicRmw8CmpxchgU'', ''I32AtomicRmw16CmpxchgU'', ''I64AtomicRmw8CmpxchgU'',
      ''I64AtomicRmw16CmpxchgU'', ''I64AtomicRmw32CmpxchgU'']"

definition basic_operations :: "operator list" where
  "basic_operations =
     [''Unreachable'', ''Nop'', ''Block'', ''Loop'', ''If'', ''Else'', ''End'', ''Br'', ''BrIf'',
      ''BrTable'', ''Return'', ''Call'', ''CallIndirect'', ''Drop'', ''Select'', ''LocalGet'',
      ''LocalSet'', ''LocalTee'', ''GlobalGet'', ''GlobalSet'', ''I32Load'', ''I64Load'',
      ''I32Load8S'', ''I32Load8U'', ''I32Load16S'', ''I32Load16U'', ''I64Load8S'', ''I64Load8U'',
      ''I64Load16S'', ''I64Load16U'', ''I64Load32S'', ''I64Load32U'', ''I32Store'', ''I64Store'',
      ''I32Store8'', ''I32Store16'', ''I64Store8'', ''I64Store16'', ''I64Store32'', ''MemorySize'',
      ''MemoryGrow'', ''I32Const'', ''I64Const'', ''I64LtS'', ''I64LtU'', ''I64GtS'', ''I64GtU'',
      ''I64LeS'', ''I64LeU'', ''I64GeS'', ''I64GeU'', ''I32Clz'', ''I32Ctz'', ''I32Eqz'', ''I32Eq'',
      ''I32Ne'', ''I32LtS'', ''I32LtU'', ''I32GtS'', ''I32GtU'', ''I32LeS'', ''I32LeU'', ''I32GeS'',
      ''I32GeU'', ''I64Eqz'', ''I64Eq'', ''I64Ne'', ''I32Popcnt'', ''I32Add'', ''I32Sub'',
      ''I32Mul'', ''I32DivS'', ''I32DivU'', ''I32RemS'', ''I32RemU'', ''I32And'', ''I32Or'',
      ''I32Xor'', ''I32Shl'', ''I32ShrS'', ''I32ShrU'', ''I32Rotl'', ''I32Rotr'', ''I64Clz'',
      ''I64Ctz'', ''I64Popcnt'', ''I64Add'', ''I64Sub'', ''I64Mul'', ''I64DivS'', ''I64DivU'',
      ''I64RemS'', ''I64RemU'', ''I64And'', ''I64Or'', ''I64Xor'', ''I64Shl'', ''I64ShrS'',
      ''I64ShrU'', ''I64Rotl'', ''I64Rotr'', ''I32WrapI64'', ''I32Extend8S'', ''I32Extend16S'',
      ''I64Extend8S'', ''I64Extend16S'', ''I64ExtendI32S'', ''I64Extend32S'', ''I64ExtendI32U'']"

definition simd_operations :: "operator list" where
  "simd_operations =
     [''V128Load'', ''V128Store'', ''V128Const'', ''I8x16Splat'', ''I8x16ExtractLaneS'',
      ''I8x16ExtractLaneU'', ''I8x16LaneSelect'', ''I8x16ReplaceLane'', ''I8x16RelaxedSwizzle'',
      ''I16x8Splat'', ''I16x8ExtractLaneS'', ''I16x8ExtractLaneU'', ''I16x8LaneSelect'',
      ''I16x8ReplaceLane'', ''I32x4Splat'', ''I32x4ExtractLane'', ''I32x4LaneSelect'',
      ''I32x4ReplaceLane'', ''I64x2Splat'', ''I64x2ExtractLane'', ''I64x2LaneSelect'',
      ''I64x2ReplaceLane'', ''I8x16Eq'', ''I8x16Ne'', ''I8x16LtS'', ''I8x16LtU'', ''I8x16GtS'',
      ''I8x16GtU'', ''I8x16LeS'', ''I8x16LeU'', ''I8x16GeS'', ''I8x16GeU'', ''I16x8Eq'',
      ''I16x8Ne'', ''I16x8LtS'', ''I16x8LtU'', ''I16x8GtS'', ''I16x8GtU'', ''I16x8LeS'',
      ''I16x8LeU'', ''I16x8GeS'', ''I16x8GeU'', ''I32x4Eq'', ''I32x4Ne'', ''I32x4LtS'',
      ''I32x4LtU'', ''I32x4GtS'', ''I32x4GtU'', ''I32x4LeS'', ''I32x4LeU'', ''I32x4GeS'',
      ''I32x4GeU'', ''V128Not'', ''V128And'', ''V128AndNot'', ''V128Or'', ''V128Xor'',
      ''V128Bitselect'', ''I8x16Abs'', ''I8x16Neg'', ''V128AnyTrue'', ''I8x16AllTrue'',
      ''I8x16Bitmask'', ''I8x16Shl'', ''I8x16ShrS'', ''I8x16ShrU'', ''I8x16Add'', ''I8x16AddSatS'',
      ''I8x16AddSatU'', ''I8x16Sub'', ''I8x16SubSatS'', ''I8x16SubSatU'', ''I8x16MinS'',
      ''I8x16MinU'', ''I8x16MaxS'', ''I8x16MaxU'', ''I16x8Abs'', ''I16x8Neg'', ''I16x8AllTrue'',
      ''I16x8Bitmask'', ''I16x8Shl'', ''I16x8ShrS'', ''I16x8ShrU'', ''I16x8Add'', ''I16x8AddSatS'',
      ''I16x8AddSatU'', ''I16x8Sub'', ''I16x8SubSatS'', ''I16x8SubSatU'', ''I16x8Mul'',
      ''I16x8MinS'', ''I16x8MinU'', ''I16x8MaxS'', ''I16x8MaxU'', ''I32x4Abs'', ''I32x4Neg'',
      ''I32x4AllTrue'', ''I32x4Bitmask'', ''I32x4Shl'', ''I32x4ShrS'', ''I32x4ShrU'', ''I32x4Add'',
      ''I32x4Sub'', ''I32x4Mul'', ''I32x4MinS'', ''I32x4MinU'', ''I32x4MaxS'', ''I32x4MaxU'',
      ''I32x4DotI16x8S'', ''I64x2Neg'', ''I64x2Shl'', ''I64x2ShrS'', ''I64x2ShrU'', ''I64x2Add'',
      ''I64x2Sub'', ''I64x2Mul'', ''I8x16Swizzle'', ''I8x16Shuffle'', ''V128Load8Splat'',
      ''V128Load16Splat'', ''V128Load32Splat'', ''V128Load32Zero'', ''V128Load64Splat'',
      ''V128Load64Zero'', ''I8x16NarrowI16x8S'', ''I8x16NarrowI16x8U'', ''I16x8NarrowI32x4S'',
      ''I16x8NarrowI32x4U'', ''I16x8ExtendLowI8x16S'', ''I16x8ExtendHighI8x16S'',
      ''I16x8ExtendLowI8x16U'', ''I16x8ExtendHighI8x16U'', ''I32x4ExtendLowI16x8S'',
      ''I32x4ExtendHighI16x8S'', ''I32x4ExtendLowI16x8U'', ''I32x4ExtendHighI16x8U'',
      ''V128Load8x8S'', ''V128Load8x8U'', ''V128Load16x4S'', ''V128Load16x4U'', ''V128Load32x2S'',
      ''V128Load32x2U'', ''I8x16RoundingAverageU'', ''I16x8RoundingAverageU'', ''V128Load8Lane'',
      ''V128Load16Lane'', ''V128Load32Lane'', ''V128Load64Lane'', ''V128Store8Lane'',
      ''V128Store16Lane'', ''V128Store32Lane'', ''V128Store64Lane'', ''I64x2Eq'', ''I64x2Ne'',
      ''I64x2LtS'', ''I64x2GtS'', ''I64x2LeS'', ''I64x2GeS'', ''I8x16Popcnt'',
      ''I16x8ExtAddPairwiseI8x16S'', ''I16x8ExtAddPairwiseI8x16U'', ''I16x8Q15MulrSatS'',
      ''I16x8ExtMulLowI8x16S'', ''I16x8ExtMulHighI8x16S'', ''I16x8ExtMulLowI8x16U'',
      ''I16x8ExtMulHighI8x16U'', ''I32x4ExtAddPairwiseI16x8S'', ''I32x4ExtAddPairwiseI16x8U'',
      ''I32x4ExtMulLowI16x8S'', ''I32x4ExtMulHighI16x8S'', ''I32x4ExtMulLowI16x8U'',
      ''I32x4ExtMulHighI16x8U'', ''I64x2Abs'', ''I64x2AllTrue'', ''I64x2Bitmask'',
      ''I64x2ExtendLowI32x4S'', ''I64x2ExtendHighI32x4S'', ''I64x2ExtendLowI32x4U'',
      ''I64x2ExtendHighI32x4U'', ''I64x2ExtMulLowI32x4S'', ''I64x2ExtMulHighI32x4S'',
      ''I64x2ExtMulLowI32x4U'', ''I64x2ExtMulHighI32x4U'', ''I32x4TruncSatF64x2SZero'',
      ''I32x4TruncSatF64x2UZero'', ''I32x4RelaxedTruncSatF64x2SZero'',
      ''I32x4RelaxedTruncSatF64x2UZero'', ''F64x2ConvertLowI32x4S'', ''F64x2ConvertLowI32x4U'',
      ''F32x4DemoteF64x2Zero'', ''F64x2PromoteLowF32x4'']"

definition floating_point_operations :: "operator list" where
  "floating_point_operations =
     [''F32Load'', ''F64Load'', ''F32Store'', ''F64Store'', ''F32Const'', ''F64Const'', ''F32Eq'',
      ''F32Ne'', ''F32Lt'', ''F32Gt'', ''F32Le'', ''F32Ge'', ''F64Eq'', ''F64Ne'', ''F64Lt'',
      ''F64Gt'', ''F64Le'', ''F64Ge'', ''F32Abs'', ''F32Neg'', ''F32Ceil'', ''F32Floor'',
      ''F32Trunc'', ''F32Nearest'', ''F32Sqrt'', ''F32Add'', ''F32Sub'', ''F32Mul'', ''F32Div'',
      ''F32Min'', ''F32Max'', ''F32Copysign'', ''F64Abs'', ''F64Neg'', ''F64Ceil'', ''F64Floor'',
      ''F64Trunc'', ''F64Nearest'', ''F64Sqrt'', ''F64Add'', ''F64Sub'', ''F64Mul'', ''F64Div'',
      ''F64Min'', ''F64Max'', ''F64Copysign'', ''I32TruncF32S'', ''I32TruncF32U'', ''I32TruncF64S'',
      ''I32TruncF64U'', ''I64TruncF32S'', ''I64TruncF32U'', ''I64TruncF64S'', ''I64TruncF64U'',
      ''F32ConvertI32S'', ''F32ConvertI32U'', ''F32ConvertI64S'', ''F32ConvertI64U'',
      ''F32DemoteF64'', ''F64ConvertI32S'', ''F64ConvertI32U'', ''F64ConvertI64S'',
      ''F64ConvertI64U'', ''F64PromoteF32'', ''I32ReinterpretF32'', ''I64ReinterpretF64'',
      ''F32ReinterpretI32'', ''F64ReinterpretI64'', ''I32TruncSatF32S'', ''I32TruncSatF32U'',
      ''I32TruncSatF64S'', ''I32TruncSatF64U'', ''I64TruncSatF32S'', ''I64TruncSatF32U'',
      ''I64TruncSatF64S'', ''I64TruncSatF64U'', ''F32x4Splat'', ''F32x4ExtractLane'',
      ''F32x4ReplaceLane'', ''F64x2Splat'', ''F64x2ExtractLane'', ''F64x2ReplaceLane'',
      ''F32x4Ceil'', ''F32x4Floor'', ''F32x4Trunc'', ''F32x4Nearest'', ''F64x2Ceil'',
      ''F64x2Floor'', ''F64x2Trunc'', ''F64x2Nearest'', ''F32x4Abs'', ''F32x4Neg'', ''F32x4Sqrt'',
      ''F32x4Add'', ''F32x4Fma'', ''F32x4Fms'', ''F32x4Sub'', ''F32x4Mul'', ''F32x4Div'',
      ''F32x4Min'', ''F32x4RelaxedMin'', ''F32x4Max'', ''F32x4RelaxedMax'', ''F32x4PMin'',
      ''F32x4PMax'', ''F32x4Eq'', ''F32x4Ne'', ''F32x4Lt'', ''F32x4Gt'', ''F32x4Le'', ''F32x4Ge'',
      ''F64x2Eq'', ''F64x2Ne'', ''F64x2Lt'', ''F64x2Gt'', ''F64x2Le'', ''F64x2Ge'', ''F64x2Abs'',
      ''F64x2Neg'', ''F64x2Sqrt'', ''F64x2Add'', ''F64x2Fma'', ''F64x2Fms'', ''F64x2Sub'',
      ''F64x2Mul'', ''F64x2Div'', ''F64x2Min'', ''F64x2RelaxedMin'', ''F64x2Max'',
      ''F64x2RelaxedMax'', ''F64x2PMin'', ''F64x2PMax'', ''I32x4TruncSatF32x4S'',
      ''I32x4TruncSatF32x4U'', ''I32x4RelaxedTruncSatF32x4S'', ''I32x4RelaxedTruncSatF32x4U'',
      ''F32x4ConvertI32x4S'', ''F32x4ConvertI32x4U'']"

definition bulk_memory_operations :: "operator list" where
  "bulk_memory_operations =
     [''MemoryInit'', ''DataDrop'', ''TableCopy'', ''MemoryCopy'', ''MemoryFill'', ''TableInit'',
      ''ElemDrop'', ''TableFill'']"

definition exception_handling :: "operator list" where
  "exception_handling =
     [''Try'', ''Delegate'', ''Catch'', ''Throw'', ''Rethrow'', ''CatchAll'']"

definition wasm_operators :: "operator list" where
  "wasm_operators = reference_types @ atomic_operations @ basic_operations @ simd_operations @
     floating_point_operations @ bulk_memory_operations @ exception_handling"

section \<open>The filter\<close>

record non_determinism_filter_config =
  allow_floating_point_ops :: bool
  allow_simd_ops :: bool
  allow_atomic_ops :: bool
  allow_bulk_memory_operations :: bool
  allow_reference_types :: bool
  allow_exception_handling :: bool

definition filter_default :: non_determinism_filter_config where
  "filter_default =
     \<lparr>allow_floating_point_ops = False, allow_simd_ops = False, allow_atomic_ops = False,
      allow_bulk_memory_operations = True, allow_reference_types = True,
      allow_exception_handling = True\<rparr>"

text \<open>\<open>state\<close> is the body that the middleware has passed on so far; \<open>Inl\<close> is the message of a
  \<^verbatim>\<open>MiddlewareError\<close>.\<close>

definition feed ::
  "non_determinism_filter_config \<Rightarrow> operator \<Rightarrow> operator list \<Rightarrow> string + operator list" where
  "feed config operator state =
     (if operator \<in> set reference_types then
        if allow_reference_types config then Inr (state @ [operator])
        else Inl ''OpcodeError: Reference Types''
      else if operator \<in> set atomic_operations then
        if allow_atomic_ops config then Inr (state @ [operator])
        else Inl ''OpcodeError: Atomic Operations''
      else if operator \<in> set basic_operations then Inr (state @ [operator])
      else if operator \<in> set simd_operations then
        if allow_simd_ops config then Inr (state @ [operator])
        else Inl ''OpcodeError: SIMD Operations''
      else if operator \<in> set floating_point_operations then
        if allow_floating_point_ops config then Inr (state @ [operator])
        else Inl ''OpcodeError: Floating Point Operations''
      else if operator \<in> set bulk_memory_operations then
        if allow_bulk_memory_operations config then Inr (state @ [operator])
        else Inl ''OpcodeError: Bulk Memory Operations''
      else
        if allow_exception_handling config then Inr (state @ [operator])
        else Inl ''OpcodeError: Exception Handling'')"

text \<open>The body of a function, fed operator by operator until one is refused.\<close>

primrec feed_all ::
  "non_determinism_filter_config \<Rightarrow> operator list \<Rightarrow> operator list \<Rightarrow> string + operator list" where
  "feed_all config [] state = Inr state"
| "feed_all config (operator # operators) state =
     (case feed config operator state of
        Inl e \<Rightarrow> Inl e
      | Inr state \<Rightarrow> feed_all config operators state)"

section \<open>The gas schedule\<close>

text \<open>The arms of the match in their order, and its default.\<close>

definition opcode_prices :: "(operator list \<times> u64) list" where
  "opcode_prices = [
     ([''I32Const'', ''I64Const''], 0),
     ([''Drop''], 2),
     ([''Select''], 3),
     ([''Nop'', ''Unreachable'', ''Loop'', ''Else'', ''If''], 0),
     ([''Br'', ''BrTable'', ''Return'', ''Call'', ''CallIndirect''], 2),
     ([''BrIf''], 3),
     ([''GlobalGet'', ''GlobalSet'', ''LocalGet'', ''LocalSet''], 3),
     ([''RefIsNull'', ''RefFunc'', ''RefNull'', ''ReturnCall'', ''ReturnCallIndirect''], 2),
     ([''CatchAll'', ''Throw'', ''Rethrow'', ''Delegate''], 2),
     ([''ElemDrop'', ''DataDrop''], 1),
     ([''TableInit''], 2),
     ([''MemoryCopy'', ''MemoryFill'', ''TableCopy'', ''TableFill''], 3),
     ([''I32Load'', ''I64Load'', ''I32Store'', ''I64Store'', ''I32Store8'', ''I32Store16'',
      ''I32Load8S'', ''I32Load8U'', ''I32Load16S'', ''I32Load16U'', ''I64Load8S'', ''I64Load8U'',
      ''I64Load16S'', ''I64Load16U'', ''I64Load32S'', ''I64Load32U'', ''I64Store8'', ''I64Store16'',
      ''I64Store32''], 3),
     ([''I32Add'', ''I32Sub'', ''I64Add'', ''I64Sub'', ''I64LtS'', ''I64LtU'', ''I64GtS'',
      ''I64GtU'', ''I64LeS'', ''I64LeU'', ''I64GeS'', ''I64GeU'', ''I32Eqz'', ''I32Eq'', ''I32Ne'',
      ''I32LtS'', ''I32LtU'', ''I32GtS'', ''I32GtU'', ''I32LeS'', ''I32LeU'', ''I32GeS'',
      ''I32GeU'', ''I64Eqz'', ''I64Eq'', ''I64Ne'', ''I32And'', ''I32Or'', ''I32Xor'', ''I64And'',
      ''I64Or'', ''I64Xor''], 1),
     ([''I32Shl'', ''I32ShrU'', ''I32ShrS'', ''I32Rotl'', ''I32Rotr'', ''I64Shl'', ''I64ShrU'',
      ''I64ShrS'', ''I64Rotl'', ''I64Rotr''], 2),
     ([''I32Mul'', ''I64Mul''], 3),
     ([''I32DivS'', ''I32DivU'', ''I32RemS'', ''I32RemU'', ''I64DivS'', ''I64DivU'', ''I64RemS'',
      ''I64RemU''], 80),
     ([''I32Clz'', ''I64Clz''], 105),
     ([''I32WrapI64'', ''I64ExtendI32S'', ''I64ExtendI32U'', ''I32Extend8S'', ''I32Extend16S'',
      ''I64Extend8S'', ''I64Extend16S'', ''I64Extend32S''], 3)]"

fun first_arm :: "('a list \<times> 'b) list \<Rightarrow> 'b \<Rightarrow> 'a \<Rightarrow> 'b" where
  "first_arm [] d x = d"
| "first_arm ((xs, v) # arms) d x = (if x \<in> set xs then v else first_arm arms d x)"

definition wasm_opcode_gas_schedule :: "operator \<Rightarrow> u64" where
  "wasm_opcode_gas_schedule = first_arm opcode_prices 1"

section \<open>What a name says about determinism\<close>

text \<open>
  The names of WebAssembly operators follow their text format: floating point operators name one of
  the two floating point types, vector operators the vector type or one of its lane shapes, and the
  operators of the threads proposal say that they are atomic.
\<close>

definition non_deterministic :: "operator \<Rightarrow> bool" where
  "non_deterministic operator \<longleftrightarrow> list_ex (\<lambda>p. sublist p operator)
     [''F32'', ''F64'', ''Atomic'', ''V128'', ''8x16'', ''16x8'', ''32x4'', ''64x2'']"

lemma deterministic_families:
  "list_all (\<lambda>n. \<not> non_deterministic n) reference_types"
  "list_all (\<lambda>n. \<not> non_deterministic n) bulk_memory_operations"
  "list_all (\<lambda>n. \<not> non_deterministic n) exception_handling"
  by code_simp+

lemma basic_deterministic: "list_all (\<lambda>n. \<not> non_deterministic n) basic_operations"
  by code_simp

lemma atomic_non_deterministic: "list_all non_deterministic atomic_operations"
  by code_simp

lemma simd_non_deterministic: "list_all non_deterministic simd_operations"
  by code_simp

lemma floating_point_non_deterministic: "list_all non_deterministic floating_point_operations"
  by code_simp

lemmas families_checked = deterministic_families basic_deterministic atomic_non_deterministic
  simd_non_deterministic floating_point_non_deterministic

lemma not_in_family:
  assumes "list_all P xs" "\<not> P x"
  shows "x \<notin> set xs"
  using assms by (auto simp: list_all_iff)

text \<open>The families agree with the names, so the order of the arms does not matter.\<close>

lemma operator_family:
  assumes "x \<in> set wasm_operators"
  shows "if non_deterministic x
    then x \<in> set atomic_operations \<union> set simd_operations \<union> set floating_point_operations \<and>
      x \<notin> set reference_types \<union> set basic_operations \<union> set bulk_memory_operations \<union> set exception_handling
    else x \<in> set reference_types \<union> set basic_operations \<union> set bulk_memory_operations \<union> set exception_handling \<and>
      x \<notin> set atomic_operations \<union> set simd_operations \<union> set floating_point_operations"
proof -
  have cover: "x \<in> set reference_types \<union> set basic_operations \<union> set bulk_memory_operations \<union> set exception_handling \<or>
      x \<in> set atomic_operations \<union> set simd_operations \<union> set floating_point_operations"
    using assms by (auto simp: wasm_operators_def)
  have "non_deterministic x \<Longrightarrow>
      x \<notin> set reference_types \<union> set basic_operations \<union> set bulk_memory_operations \<union> set exception_handling"
    "\<not> non_deterministic x \<Longrightarrow>
      x \<notin> set atomic_operations \<union> set simd_operations \<union> set floating_point_operations"
    using not_in_family[OF families_checked(1), of x] not_in_family[OF families_checked(2), of x]
      not_in_family[OF families_checked(3), of x] not_in_family[OF families_checked(4), of x]
      not_in_family[OF families_checked(5), of x] not_in_family[OF families_checked(6), of x]
      not_in_family[OF families_checked(7), of x] by auto
  then show ?thesis
    using cover by auto
qed

lemma feed_accepts:
  assumes "x \<in> set wasm_operators" "\<not> non_deterministic x"
  shows "feed filter_default x state = Inr (state @ [x])"
  using operator_family[OF assms(1)] assms(2) by (simp add: feed_def filter_default_def)

lemma feed_rejects:
  assumes "x \<in> set wasm_operators" "non_deterministic x"
  shows "\<exists>msg. feed filter_default x state = Inl msg \<and> sublist ''OpcodeError'' msg"
  using operator_family[OF assms(1)] assms(2) by (auto simp: feed_def filter_default_def)

text \<open>C29: The filter rejects exactly the non-deterministic operators. Of all operators of WebAssembly, a
  function body is passed on unchanged when none of them names a floating point type, a vector
  shape or an atomic access, and otherwise is refused with a message from which the build of the
  module reports a disallowed opcode.\<close>

theorem filter_rejects_non_determinism:
  assumes "set operators \<subseteq> set wasm_operators"
  shows "if list_ex non_deterministic operators
    then \<exists>msg. feed_all filter_default operators [] = Inl msg \<and>
      (\<forall>error. sublist msg error \<longrightarrow> build_error_of error = DisallowedOpcodePresent)
    else feed_all filter_default operators [] = Inr operators"
proof -
  have "if list_ex non_deterministic operators
    then \<exists>msg. feed_all filter_default operators state = Inl msg \<and> sublist ''OpcodeError'' msg
    else feed_all filter_default operators state = Inr (state @ operators)" for state
    using assms
  proof (induction operators arbitrary: state)
    case (Cons x operators)
    show ?case
    proof (cases "non_deterministic x")
      case True
      then show ?thesis
        using Cons.prems feed_rejects[of x state] by auto
    next
      case False
      then show ?thesis
        using Cons.prems Cons.IH[of "state @ [x]"] feed_accepts[of x state] by simp
    qed
  qed simp
  moreover have "build_error_of error = DisallowedOpcodePresent"
    if "sublist ''OpcodeError'' msg" "sublist msg error" for msg error
    using sublist_order.order.trans[OF that] by (simp add: build_error_of_def)
  ultimately show ?thesis
    by (metis append_Nil)
qed

theorem filter_rejects_non_determinism_witness:
  "feed_all filter_default [''LocalGet'', ''I64Add''] [] = Inr [''LocalGet'', ''I64Add''] \<and>
   (\<exists>msg. feed_all filter_default [''LocalGet'', ''F64ConvertI64U''] [] = Inl msg)"
proof -
  have "set [''LocalGet'', ''I64Add''] \<subseteq> set wasm_operators"
    "set [''LocalGet'', ''F64ConvertI64U''] \<subseteq> set wasm_operators"
    by (simp_all add: wasm_operators_def basic_operations_def floating_point_operations_def)
  moreover have "\<not> list_ex non_deterministic [''LocalGet'', ''I64Add'']"
    "list_ex non_deterministic [''LocalGet'', ''F64ConvertI64U'']"
    by code_simp+
  ultimately show ?thesis
    using filter_rejects_non_determinism[of "[''LocalGet'', ''I64Add'']"]
      filter_rejects_non_determinism[of "[''LocalGet'', ''F64ConvertI64U'']"] by auto
qed

lemma priced_deterministic: "list_all (\<lambda>(xs, _). list_all (\<lambda>n. \<not> non_deterministic n) xs) opcode_prices"
  by code_simp

definition free_operators :: "operator list" where
  "free_operators = [''I32Const'', ''I64Const'', ''Nop'', ''Unreachable'', ''Loop'', ''Else'', ''If'']"

lemma prices_bounded:
  "list_all (\<lambda>(xs, v). v \<le> 105 \<and> (v = 0 \<longrightarrow> list_all (\<lambda>x. x \<in> set free_operators) xs)) opcode_prices"
  by code_simp

lemma first_arm_cases:
  obtains "first_arm arms d x = d" | xs where "(xs, first_arm arms d x) \<in> set arms" "x \<in> set xs"
proof (induction arms d x rule: first_arm.induct)
  case (2 xs v arms d x)
  then show ?case
    by (cases "x \<in> set xs") auto
qed simp

text \<open>C30: The gas schedule prices the opcodes that are legal: an operator with a price of its own passes
  the filter, no operator costs more than the 105 of counting leading zeros, and only constants and
  flow control that transfers nothing are free.\<close>

theorem schedule_prices_legal_opcodes:
  assumes "x \<in> set wasm_operators"
  shows "(wasm_opcode_gas_schedule x \<noteq> 1 \<longrightarrow> feed filter_default x state = Inr (state @ [x])) \<and>
    wasm_opcode_gas_schedule x \<le> 105 \<and>
    (wasm_opcode_gas_schedule x = 0 \<longrightarrow> x \<in> set free_operators)"
proof (rule first_arm_cases[of opcode_prices "1::u64" x])
  assume "first_arm opcode_prices 1 x = 1"
  then show ?thesis
    by (simp add: wasm_opcode_gas_schedule_def)
next
  fix xs
  assume arm: "(xs, first_arm opcode_prices 1 x) \<in> set opcode_prices" "x \<in> set xs"
  have "\<not> non_deterministic x"
    using bspec[OF priced_deterministic[unfolded list_all_iff] arm(1)] arm(2) by (simp add: list_all_iff)
  moreover have "first_arm opcode_prices 1 x \<le> 105 \<and>
      (first_arm opcode_prices 1 x = 0 \<longrightarrow> x \<in> set free_operators)"
    using bspec[OF prices_bounded[unfolded list_all_iff] arm(1)] arm(2)
    by (simp add: list_all_iff)
  ultimately show ?thesis
    using feed_accepts[OF assms] by (simp add: wasm_opcode_gas_schedule_def)
qed

theorem schedule_prices_legal_opcodes_witness:
  "wasm_opcode_gas_schedule ''I64DivU'' = 80 \<and> feed filter_default ''I64DivU'' [] = Inr [''I64DivU'']"
proof -
  have "''I64DivU'' \<in> set wasm_operators"
    by (simp add: wasm_operators_def basic_operations_def)
  moreover have "wasm_opcode_gas_schedule ''I64DivU'' = 80"
    by code_simp
  ultimately show ?thesis
    using schedule_prices_legal_opcodes[of "''I64DivU''" "[]"] by simp
qed

end
