(* ===== verification/Import_Tables.thy ===== *)
theory Import_Tables
  imports Host_Functions
begin

text \<open>
  The types of the host functions in the three import tables of
  \<^verbatim>\<open>src/contract/cbi_host_functions.rs\<close>: the one of calls, the one of view calls, where some functions
  are stubs that fail, and the empty one against which a module is validated when it is deployed.
  WebAssembly links an import to a function of the same name and type; a Rust integer of 32 or 64
  bits, signed or not, is a WebAssembly integer of that width.
\<close>

datatype val_type = W_I32 | W_I64

type_synonym fn_type = "val_type list \<times> val_type list"

section \<open>The functions\<close>

text \<open>The trait \<^verbatim>\<open>CBIHostFunctions\<close>, without the environment each function gets.\<close>

definition host_fn_types :: "(string \<times> fn_type) list" where
  "host_fn_types = [
     (''set'', [W_I32, W_I32, W_I32, W_I32], []),
     (''get'', [W_I32, W_I32, W_I32], [W_I64]),
     (''get_network_storage'', [W_I32, W_I32, W_I32], [W_I64]),
     (''balance'', [], [W_I64]),
     (''block_height'', [], [W_I64]),
     (''block_timestamp'', [], [W_I32]),
     (''prev_block_hash'', [W_I32], []),
     (''calling_account'', [W_I32], []),
     (''current_account'', [W_I32], []),
     (''method'', [W_I32], [W_I32]),
     (''arguments'', [W_I32], [W_I32]),
     (''amount'', [], [W_I64]),
     (''is_internal_call'', [], [W_I32]),
     (''transaction_hash'', [W_I32], []),
     (''call'', [W_I32, W_I32, W_I32], [W_I32]),
     (''return_value'', [W_I32, W_I32], []),
     (''transfer'', [W_I32], []),
     (''defer_create_deposit'', [W_I32, W_I32], []),
     (''defer_set_deposit_settings'', [W_I32, W_I32], []),
     (''defer_topup_deposit'', [W_I32, W_I32], []),
     (''defer_withdraw_deposit'', [W_I32, W_I32], []),
     (''defer_stake_deposit'', [W_I32, W_I32], []),
     (''defer_unstake_deposit'', [W_I32, W_I32], []),
     (''log'', [W_I32, W_I32], []),
     (''sha256'', [W_I32, W_I32, W_I32], []),
     (''keccak256'', [W_I32, W_I32, W_I32], []),
     (''ripemd'', [W_I32, W_I32, W_I32], []),
     (''verify_ed25519_signature'', [W_I32, W_I32, W_I32, W_I32], [W_I32])]"

text \<open>The stubs of the table for view calls.\<close>

definition not_callable_types :: "(string \<times> fn_type) list" where
  "not_callable_types = [
     (''set'', [W_I32, W_I32, W_I32, W_I32], []),
     (''block_height'', [], [W_I64]),
     (''block_timestamp'', [], [W_I32]),
     (''prev_block_hash'', [W_I32], []),
     (''calling_account'', [W_I32], []),
     (''amount'', [], [W_I64]),
     (''transaction_hash'', [W_I32], []),
     (''transfer'', [W_I32], []),
     (''defer_create_deposit'', [W_I32, W_I32], []),
     (''defer_set_deposit_settings'', [W_I32, W_I32], []),
     (''defer_topup_deposit'', [W_I32, W_I32], []),
     (''defer_withdraw_deposit'', [W_I32, W_I32], []),
     (''defer_stake_deposit'', [W_I32, W_I32], []),
     (''defer_unstake_deposit'', [W_I32, W_I32], [])]"

text \<open>The empty functions.\<close>

definition empty_fn_types :: "(string \<times> fn_type) list" where
  "empty_fn_types = [
     (''set'', [W_I32, W_I32, W_I32, W_I32], []),
     (''get'', [W_I32, W_I32, W_I32], [W_I64]),
     (''get_network_storage'', [W_I32, W_I32, W_I32], [W_I64]),
     (''balance'', [], [W_I64]),
     (''block_height'', [], [W_I64]),
     (''block_timestamp'', [], [W_I32]),
     (''prev_block_hash'', [W_I32], []),
     (''calling_account'', [W_I32], []),
     (''current_account'', [W_I32], []),
     (''method'', [W_I32], [W_I32]),
     (''arguments'', [W_I32], [W_I32]),
     (''amount'', [], [W_I64]),
     (''is_internal_call'', [], [W_I32]),
     (''transaction_hash'', [W_I32], []),
     (''call'', [W_I32, W_I32, W_I32], [W_I32]),
     (''return_value'', [W_I32, W_I32], []),
     (''transfer'', [W_I32], []),
     (''defer_create_deposit'', [W_I32, W_I32], []),
     (''defer_set_deposit_settings'', [W_I32, W_I32], []),
     (''defer_topup_deposit'', [W_I32, W_I32], []),
     (''defer_withdraw_deposit'', [W_I32, W_I32], []),
     (''defer_stake_deposit'', [W_I32, W_I32], []),
     (''defer_unstake_deposit'', [W_I32, W_I32], []),
     (''log'', [W_I32, W_I32], []),
     (''sha256'', [W_I32, W_I32, W_I32], []),
     (''keccak256'', [W_I32, W_I32, W_I32], []),
     (''ripemd'', [W_I32, W_I32, W_I32], []),
     (''verify_ed25519_signature'', [W_I32, W_I32, W_I32, W_I32], [W_I32])]"

section \<open>The tables\<close>

datatype native_fn = Host string | Stub string | Empty string

fun native_type :: "native_fn \<Rightarrow> fn_type option" where
  "native_type (Host f) = map_of host_fn_types f"
| "native_type (Stub f) = map_of not_callable_types f"
| "native_type (Empty f) = map_of empty_fn_types f"

definition create_importable_table :: "(string \<times> native_fn) list" where
  "create_importable_table =
     [(''set'', Host ''set''), (''get'', Host ''get''),
      (''get_network_storage'', Host ''get_network_storage''), (''balance'', Host ''balance''),
      (''block_height'', Host ''block_height''), (''block_timestamp'', Host ''block_timestamp''),
      (''prev_block_hash'', Host ''prev_block_hash''),
      (''calling_account'', Host ''calling_account''),
      (''current_account'', Host ''current_account''), (''method'', Host ''method''),
      (''arguments'', Host ''arguments''), (''amount'', Host ''amount''),
      (''is_internal_call'', Host ''is_internal_call''),
      (''transaction_hash'', Host ''transaction_hash''), (''call'', Host ''call''),
      (''return_value'', Host ''return_value''), (''transfer'', Host ''transfer''),
      (''defer_create_deposit'', Host ''defer_create_deposit''),
      (''defer_set_deposit_settings'', Host ''defer_set_deposit_settings''),
      (''defer_topup_deposit'', Host ''defer_topup_deposit''),
      (''defer_withdraw_deposit'', Host ''defer_withdraw_deposit''),
      (''defer_stake_deposit'', Host ''defer_stake_deposit''),
      (''defer_unstake_deposit'', Host ''defer_unstake_deposit''), (''_log'', Host ''log''),
      (''sha256'', Host ''sha256''), (''keccak256'', Host ''keccak256''),
      (''ripemd'', Host ''ripemd''),
      (''verify_ed25519_signature'', Host ''verify_ed25519_signature'')]"

definition create_importable_view_table :: "(string \<times> native_fn) list" where
  "create_importable_view_table =
     [(''set'', Stub ''set''), (''get'', Host ''get''),
      (''get_network_storage'', Host ''get_network_storage''), (''balance'', Host ''balance''),
      (''block_height'', Stub ''block_height''), (''block_timestamp'', Stub ''block_timestamp''),
      (''prev_block_hash'', Stub ''prev_block_hash''),
      (''calling_account'', Stub ''calling_account''),
      (''current_account'', Host ''current_account''), (''method'', Host ''method''),
      (''arguments'', Host ''arguments''), (''amount'', Stub ''amount''),
      (''is_internal_call'', Host ''is_internal_call''),
      (''transaction_hash'', Stub ''transaction_hash''), (''call'', Host ''call''),
      (''return_value'', Host ''return_value''), (''transfer'', Stub ''transfer''),
      (''defer_create_deposit'', Stub ''defer_create_deposit''),
      (''defer_set_deposit_settings'', Stub ''defer_set_deposit_settings''),
      (''defer_topup_deposit'', Stub ''defer_topup_deposit''),
      (''defer_withdraw_deposit'', Stub ''defer_withdraw_deposit''),
      (''defer_stake_deposit'', Stub ''defer_stake_deposit''),
      (''defer_unstake_deposit'', Stub ''defer_unstake_deposit''), (''_log'', Host ''log''),
      (''sha256'', Host ''sha256''), (''keccak256'', Host ''keccak256''),
      (''ripemd'', Host ''ripemd''),
      (''verify_ed25519_signature'', Host ''verify_ed25519_signature'')]"

definition empty_imports :: "(string \<times> native_fn) list" where
  "empty_imports =
     [(''set'', Empty ''set''), (''get'', Empty ''get''),
      (''get_network_storage'', Empty ''get_network_storage''), (''balance'', Empty ''balance''),
      (''block_height'', Empty ''block_height''),
      (''block_timestamp'', Empty ''block_timestamp''),
      (''prev_block_hash'', Empty ''prev_block_hash''),
      (''calling_account'', Empty ''calling_account''),
      (''current_account'', Empty ''current_account''), (''method'', Empty ''method''),
      (''arguments'', Empty ''arguments''), (''amount'', Empty ''amount''),
      (''is_internal_call'', Empty ''is_internal_call''),
      (''transaction_hash'', Empty ''transaction_hash''), (''call'', Empty ''call''),
      (''return_value'', Empty ''return_value''), (''transfer'', Empty ''transfer''),
      (''defer_create_deposit'', Empty ''defer_create_deposit''),
      (''defer_set_deposit_settings'', Empty ''defer_set_deposit_settings''),
      (''defer_topup_deposit'', Empty ''defer_topup_deposit''),
      (''defer_withdraw_deposit'', Empty ''defer_withdraw_deposit''),
      (''defer_stake_deposit'', Empty ''defer_stake_deposit''),
      (''defer_unstake_deposit'', Empty ''defer_unstake_deposit''), (''_log'', Empty ''log''),
      (''sha256'', Empty ''sha256''), (''keccak256'', Empty ''keccak256''),
      (''ripemd'', Empty ''ripemd''),
      (''verify_ed25519_signature'', Empty ''verify_ed25519_signature'')]"

section \<open>Linking\<close>

definition import_type :: "(string \<times> native_fn) list \<Rightarrow> string \<Rightarrow> fn_type option" where
  "import_type table name = map_of table name \<bind> native_type"

definition links :: "(string \<times> native_fn) list \<Rightarrow> (string \<times> fn_type) list \<Rightarrow> bool" where
  "links table needs \<longleftrightarrow> list_all (\<lambda>(name, t). import_type table name = Some t) needs"

text \<open>The import that a host call of the model goes through, and its arguments.\<close>

fun import_of :: "host_call \<Rightarrow> string \<times> u32 list" where
  "import_of (H_set a b c d) = (''set'', [a, b, c, d])"
| "import_of (H_get a b c) = (''get'', [a, b, c])"
| "import_of (H_get_network_storage a b c) = (''get_network_storage'', [a, b, c])"
| "import_of H_balance = (''balance'', [])"
| "import_of H_block_height = (''block_height'', [])"
| "import_of H_block_timestamp = (''block_timestamp'', [])"
| "import_of (H_prev_block_hash a) = (''prev_block_hash'', [a])"
| "import_of (H_calling_account a) = (''calling_account'', [a])"
| "import_of (H_current_account a) = (''current_account'', [a])"
| "import_of (H_method a) = (''method'', [a])"
| "import_of (H_arguments a) = (''arguments'', [a])"
| "import_of H_amount = (''amount'', [])"
| "import_of H_is_internal_call = (''is_internal_call'', [])"
| "import_of (H_transaction_hash a) = (''transaction_hash'', [a])"
| "import_of (H_call a b c) = (''call'', [a, b, c])"
| "import_of (H_return_value a b) = (''return_value'', [a, b])"
| "import_of (H_transfer a) = (''transfer'', [a])"
| "import_of (H_defer_create_deposit a b) = (''defer_create_deposit'', [a, b])"
| "import_of (H_defer_set_deposit_settings a b) = (''defer_set_deposit_settings'', [a, b])"
| "import_of (H_defer_topup_deposit a b) = (''defer_topup_deposit'', [a, b])"
| "import_of (H_defer_withdraw_deposit a b) = (''defer_withdraw_deposit'', [a, b])"
| "import_of (H_defer_stake_deposit a b) = (''defer_stake_deposit'', [a, b])"
| "import_of (H_defer_unstake_deposit a b) = (''defer_unstake_deposit'', [a, b])"
| "import_of (H_log a b) = (''_log'', [a, b])"
| "import_of (H_sha256 a b c) = (''sha256'', [a, b, c])"
| "import_of (H_keccak256 a b c) = (''keccak256'', [a, b, c])"
| "import_of (H_ripemd a b c) = (''ripemd'', [a, b, c])"
| "import_of (H_verify_ed25519_signature a b c d) = (''verify_ed25519_signature'', [a, b, c, d])"

abbreviation typed :: "(string \<times> native_fn) list \<Rightarrow> (string \<times> fn_type option) list" where
  "typed table \<equiv> map (\<lambda>(name, f). (name, native_type f)) table"

lemma import_type_typed: "import_type table name = map_of (typed table) name \<bind> (\<lambda>t. t)"
proof -
  have "map_of (typed table) name = map_option native_type (map_of table name)"
    by (induction table) auto
  then show ?thesis
    by (cases "map_of table name") (simp_all add: import_type_def)
qed

lemma tables_typed:
  "typed create_importable_table = typed empty_imports"
  "typed create_importable_view_table = typed empty_imports"
  by code_simp+

lemma links_typed: "typed t1 = typed t2 \<Longrightarrow> links t1 needs = links t2 needs"
  by (simp add: links_def import_type_typed)

text \<open>Whether the name of an import is one of the stubs in the table for view calls.\<close>

definition is_stub :: "string \<Rightarrow> bool" where
  "is_stub name = (case map_of create_importable_view_table name of Some (Stub _) \<Rightarrow> True | _ \<Rightarrow> False)"

lemma host_call_types:
  "\<exists>rs. import_type create_importable_table (fst (import_of h)) =
       Some (replicate (length (snd (import_of h))) W_I32, rs) \<and>
     is_stub (fst (import_of h)) = not_callable h"
  by (cases h) (simp_all add: import_type_def create_importable_table_def host_fn_types_def is_stub_def
      create_importable_view_table_def)

text \<open>C31: The three import tables have the same functions with the same types: a module links against
  the empty table it is validated with exactly when it links in calls and in view calls. Every host
  call is an entry of the tables that takes its arguments, all 32-bit integers, and the calls that
  a view call refuses are the stubs of its table.\<close>

theorem import_tables_agree:
  "links create_importable_table needs = links empty_imports needs \<and>
   links create_importable_view_table needs = links empty_imports needs \<and>
   (\<exists>rs. import_type create_importable_table (fst (import_of h)) =
      Some (replicate (length (snd (import_of h))) W_I32, rs)) \<and>
   is_stub (fst (import_of h)) = not_callable h"
  using tables_typed[THEN links_typed, of needs] host_call_types[of h] by auto

end
