(* ===== verification/Spec2Isabelle.thy ===== *)
theory Spec2Isabelle
  imports Histories Contract_Properties Wasm_Opcodes Import_Tables
begin

text \<open>
  A verification development of the ParallelChain transition runtime (\<^verbatim>\<open>pchain-runtime\<close>), the Rust
  library that computes the next world state of the ParallelChain blockchain from a world state, a
  transaction and the parameters of a block. All paths below are under \<^verbatim>\<open>src/src/\<close>.

  \<^bold>\<open>The program.\<close> A \<^verbatim>\<open>Runtime\<close> (\<^verbatim>\<open>transition.rs\<close>) takes a transaction, wraps the world state in a
  cache, a gas meter and a transition context, and either executes its commands in three phases
  (pre-charge, commands, charge) or, when it holds a next epoch command, executes that. Commands
  move balances, deploy and call WebAssembly contracts, and manage the pools, deposits and stakes of
  the network account. A contract runs in Wasmer and reaches back into the runtime through host
  functions; it can call other contracts and can defer staking commands, which the executor runs
  after the command that deferred them. Every step is metered in gas, every command ends in a
  receipt, and the cache is committed at the end, or thrown away when a command fails.

  \<^bold>\<open>Conventions.\<close> A Rust panic (\<^verbatim>\<open>unwrap\<close>, \<^verbatim>\<open>expect\<close>, \<^verbatim>\<open>unreachable!\<close>, and overflow of a plain
  operator: the release profile sets \<^verbatim>\<open>overflow-checks\<close>) is \<open>None\<close>; an \<^verbatim>\<open>Err\<close> is \<open>Inl\<close>. Unsigned
  integers are natural numbers with every saturating, checked, plain and truncating operation
  written out (\<open>Prelude\<close>); addresses and hashes are words. A \<^verbatim>\<open>HashMap\<close> is an association list,
  and what depends on the order of its iteration is proved not to matter. The world state, Wasmer,
  the cryptography and the network account's own code (\<^verbatim>\<open>pchain_world_state\<close>, \<^verbatim>\<open>wasmer\<close>,
  \<^verbatim>\<open>pchain_types\<close>) are not in the repository: they are the records of operations \<open>ws_ops\<close>,
  \<open>wasmer_ops\<close>, \<open>vm_ops\<close> and \<open>network_account\<close> inside the parameter \<open>runtime\<close>, and what a theorem
  needs of them is a named hypothesis (\<open>ws_laws\<close>, \<open>ws_writable\<close>, \<open>fs_laws\<close>, \<open>metering_law\<close>,
  \<open>network_laws\<close>, \<open>epoch_network_laws\<close>, \<open>reads_live\<close>, \<open>fs_apart\<close>, \<open>contracts_apart\<close>). What is assumed of the
  contract cache is assumed of the cache a transaction runs with (\<open>no_module\<close>), not of every directory. The theories \<open>Example_Runtime\<close>,
  \<open>Example_State\<close>, \<open>Example_Ledger\<close>, \<open>Example_Epoch\<close> and \<open>Example_Transactions\<close> give a small concrete runtime on which the witnesses evaluate every theorem.

  \<^bold>\<open>The theories\<close>, from the bottom up.
  \<^item> \<open>Prelude\<close>: machine arithmetic, little-endian bytes, association lists, and the verification
    conditions \<open>post\<close> of option-valued programs with their rules.
  \<^item> \<open>Runtime_Types\<close> (\<^verbatim>\<open>types.rs\<close>, \<^verbatim>\<open>error.rs\<close>): commands, transactions and their metadata, block
    parameters, errors, exit codes and receipts of both versions.
  \<^item> \<open>Gas_Constants\<close> (\<^verbatim>\<open>gas/constants.rs\<close>, \<^verbatim>\<open>gas/cost_change.rs\<close>): every constant and cost formula, and
    tallies of gas with their signed reading. \<open>Wasm_Opcodes\<close> (the opcode schedule of the same file
    and \<^verbatim>\<open>contract/wasmer/non_determinism_filter.rs\<close>): the families of all WebAssembly operators, the
    filter and the price of each operator.
  \<^item> \<open>World_State_Cache\<close>, \<open>World_State_Commit\<close> (\<^verbatim>\<open>execution/cache/world_state_cache.rs\<close>): the cache of
    reads and writes; a locale states what a cached store promises and each of the four stores is
    an instance; committing refines what the cache reads.
  \<^item> \<open>Receipts\<close> (\<^verbatim>\<open>execution/cache/output_buffer.rs\<close>, \<^verbatim>\<open>receipt_buffer.rs\<close>): command outputs and the
    receipt buffer of both versions.
  \<^item> \<open>Contract_Module\<close> (\<^verbatim>\<open>contract/module.rs\<close>, \<^verbatim>\<open>cbi_version.rs\<close>, \<^verbatim>\<open>context.rs\<close>, \<^verbatim>\<open>wasmer/module.rs\<close>,
    \<^verbatim>\<open>cache.rs\<close>, \<^verbatim>\<open>custom_tunables.rs\<close>, \<^verbatim>\<open>store.rs\<close>): building and caching modules, the metadata files
    of the cache, the memory limit.
  \<^item> \<open>Gas_Operations\<close>, \<open>Gas_Meter\<close> (\<^verbatim>\<open>gas/operations.rs\<close>, \<^verbatim>\<open>gas/gas_meter.rs\<close>): metered access to the
    cache and the booking of gas; the frame \<open>wsc_frame\<close> says what an operation may change.
  \<^item> \<open>Network_Account\<close> (\<^verbatim>\<open>commands/protocol.rs\<close>): programs over the storage of the network account
    and its two storages, metered and free of charge.
  \<^item> \<open>Transition_Context\<close> (\<^verbatim>\<open>context.rs\<close>), \<open>Host_Gas\<close> (\<^verbatim>\<open>gas/wasmer_gas.rs\<close>, \<^verbatim>\<open>contract/wasmer/memory.rs\<close>,
    \<^verbatim>\<open>env.rs\<close>), \<open>Host_Functions\<close> (\<^verbatim>\<open>contract/host_functions.rs\<close>, \<^verbatim>\<open>cbi_host_functions.rs\<close>),
    \<open>Contract_Instance\<close> (\<^verbatim>\<open>contract/instance.rs\<close>, \<^verbatim>\<open>contract/wasmer/instance.rs\<close>): guest memory, the gas
    global that a contract shares with the meter, every host function with both import tables, and
    the call of a contract. \<open>Import_Tables\<close> holds the types of all three import tables of
    \<^verbatim>\<open>cbi_host_functions.rs\<close>, the empty one of the validation included. A contract is a tree of guest steps of unknown code; \<open>contract_call\<close>
    takes a call depth as fuel, and \<open>Contract_Properties\<close> shows that the gas limit plus one is
    enough of it, so that the depth the commands choose never runs out.
  \<^item> \<open>Execution_State\<close> (\<^verbatim>\<open>execution/state.rs\<close>, \<^verbatim>\<open>abort.rs\<close>): the state of an execution, its
    finalization into receipts, and the contract of a command as the locale \<open>atomic_command\<close>.
  \<^item> \<open>Account_Commands\<close>, \<open>Staking_Commands\<close> (\<^verbatim>\<open>commands/account.rs\<close>, \<^verbatim>\<open>commands/staking.rs\<close>): every
    command, each an instance of \<open>atomic_command\<close>.
  \<^item> \<open>Staking_Ledger\<close>: the ledger of pools, stakes, deposits and validator sets that the storage of the
    network account stands for, and the laws by which its methods read and write it (\<open>ledger_laws\<close>);
    every helper of \<^verbatim>\<open>commands/staking.rs\<close> against them. \<open>Staking_Refinement\<close>: the specification of each
    staking command on the ledger (\<open>staking_error\<close>, \<open>staking_effect\<close>) and the proof that the commands
    implement it. \<open>Staking_Invariant\<close>: the books (\<open>ledger_inv\<close>), kept by every effect; their parameter says
    whether the stakes of a pool add up to its power or to at most that. \<open>Example_Ledger\<close>: a network
    account of storage cells that keeps the laws on every world state, proved once over the locale
    \<open>cell_storage\<close>, of which the metered storage and the one free of charge are instances.
    \<open>Contract_Cache\<close>: of the host functions and commands only those that load or deploy a contract store
    modules in the contract cache, and only at the address of that contract. \<open>Contract_Ledger\<close>: contracts leave the books alone, by induction over their code and the depth of
    their calls. \<open>Staking_Properties\<close> and \<open>Ledger_Transactions\<close>: the refinement as a property, and the
    books over sequences of transactions of both versions.
  \<^item> \<open>Issuance_Table\<close>, \<open>Rewards\<close> (\<^verbatim>\<open>rewards_formulas.rs\<close>): the table of all 3650 epochs and the
    formulas for the rewards of pools and stakes.
  \<^item> \<open>Protocol_Commands\<close> (\<^verbatim>\<open>commands/protocol.rs\<close>): the next epoch command, step by step. \<open>Epoch_Ledger\<close>: the
    validator sets beside the ledger, the laws by which the command reads and replaces them
    (\<open>epoch_laws\<close>), what is paid to whom (\<open>pool_income\<close>) and which payments are staked (\<open>auto_staked\<close>). \<open>Epoch_Refinement\<close>: the rotation of the sets and
    the epoch step of the ledger (\<open>epoch_done\<close>), which the command implements. \<open>Example_Epoch\<close>: the cells of
    \<open>Example_Ledger\<close> keep these laws too, with room for one pool and one delegated stake in a set.
  \<^item> \<open>Phases\<close> (\<^verbatim>\<open>execution/execute_commands/phases.rs\<close>): pre-charge and charge, and the settlement
    \<open>settle\<close> that the charge phase implements.
  \<^item> \<open>Executor\<close> (\<^verbatim>\<open>execution/execute.rs\<close>, \<^verbatim>\<open>execution/execute_commands/executor.rs\<close>): the dispatch of
    the commands, the stack of executable commands and the loop, with its termination proof.
  \<^item> \<open>Transaction_Runs\<close>: the loop as a step relation, its invariant over both receipt versions (the
    locale \<open>receipt_version\<close> with two interpretations), and a reference without a stack.
  \<^item> \<open>Next_Epoch\<close> (\<^verbatim>\<open>execution/execute_next_epoch.rs\<close>, \<^verbatim>\<open>execute_view.rs\<close>) and \<open>Transition\<close>
    (\<^verbatim>\<open>transition.rs\<close>): next epoch transactions, view calls and the entry points.
  \<^item> \<open>Transition_Properties\<close>, \<open>Epoch_Properties\<close>: what the entry points do, end to end. \<open>Epoch_Transactions\<close>:
    next epoch transactions on the ledger. \<open>Histories\<close>: histories of transactions of every kind, as the
    inductive relation \<open>history\<close> with its tallies.

  \<^bold>\<open>What is shown.\<close> For transactions: a success ran every command from the pre-charge to the
  settlement and commits exactly what the last cache reads; a failure pays the fees of the gas in its
  receipts and does nothing else; a rejection changes nothing; receipts account for every command
  and all gas, within the limit; commands and their deferred commands run in the documented order;
  a next epoch transaction of either version is valid, free and confined to the network account, or
  changes nothing, and no other transaction ever reaches a next epoch command;
  the upgrade of the world state is all or nothing. For the phases: the charge never hands out more
  than was taken, and returns. For the commands: each touches only its targets and is undone when it
  fails; transfers and deployments do exactly what they say; the staking commands refine the ledger,
  never panic on it, and answer the errors of its specification. For the money: every sequence of
  transactions but next epoch keeps the books, so that the power of a pool is the sum of its stakes,
  no stake exceeds its deposit, and the sum of all balances and deposits shrinks by the burnt part of
  the base fees and by nothing else. This takes that the network account is no contract: it has no code,
  no module in the cache that a transaction starts with, and none is deployed at its address; the
  commands keep it so. A valid next epoch transaction on such books returns, pays every
  staker and operator exactly the share of the formulas, stakes exactly the payments to the accounts that
  asked for it, as far as their pools have a place for them, and rotates the validator sets. Over histories with epochs in them the books stay in order, with the power of a pool
  at least the sum of its stakes, and the supply grows by at most what the epochs issue. For contracts: code of any
  shape and depth changes only what the host functions allow, makes no money, and the depth of calls
  is bounded by the gas. For rewards: the formulas are exact, never overflow and never pay out more than the
  reward of a pool. For the opcodes: exactly the non-deterministic ones are refused, and a module that
  was validated links in every call.

  Some theorems show where the code departs from its intent: a version 2 transaction that fails the
  pre-charge phase panics, the treasury's cut can overflow, a deleted key still tests as present,
  the two storages of the network account differ on a deleted key, rewards that are staked
  automatically can inflate the power of a pool, the amount of a staking command can be lost from its
  output, and a metadata file that could not be written makes later loads of the contract panic.

  \<^bold>\<open>Not modelled.\<close> Locks and clones of shared contexts (\<^verbatim>\<open>Arc\<close>, \<^verbatim>\<open>Mutex\<close>) are state passing, so
  deadlocks are not visible. The engine behind \<^verbatim>\<open>wasmer\<close>, the compilation of a module, the
  injection of the metering code and the file system of the contract cache are parameters, as are
  hashing, signatures and serialization. \<^verbatim>\<open>lib.rs\<close>, the \<^verbatim>\<open>mod.rs\<close> files and the tests hold no logic of
  the runtime and are left out.
\<close>

end
